(* ===== verification/Prelude.thy ===== *)
theory Prelude
  imports Main "HOL-Library.Word" "HOL-Library.Sublist" "HOL-Library.List_Lexorder" "HOL-Library.Char_ord"
begin

text \<open>
  Shared vocabulary of the development: errors with their context chain, operations that
  thread a state and may fail, a small Hoare calculus for them, and the pieces of Rust's
  standard library (strings, number parsing and formatting, paths) the program uses.
\<close>

named_theorems op_simps "unfolding of the state-and-error operations"
named_theorems triple_intro "Hoare rules for the state-and-error operations"

section \<open>Errors\<close>

text \<open>
  \<open>anyhow::Error\<close>: a message, or a message put around a cause by \<open>context\<close> and
  \<open>with_context\<close>. \<open>Display\<close> shows the outermost message; the alternate form shows
  the whole chain.
\<close>

datatype error = Bail string | Context string error

type_synonym 'a result = "error + 'a"

fun error_msg :: "error \<Rightarrow> string" where
  "error_msg (Bail m) = m"
| "error_msg (Context m e) = m"

fun error_chain :: "error \<Rightarrow> string" where
  "error_chain (Bail m) = m"
| "error_chain (Context m e) = m @ '': '' @ error_chain e"

definition with_context :: "string \<Rightarrow> 'a result \<Rightarrow> 'a result" where
  "with_context m r = (case r of Inl e \<Rightarrow> Inl (Context m e) | Inr x \<Rightarrow> Inr x)"

definition option_context :: "string \<Rightarrow> 'a option \<Rightarrow> 'a result" where
  "option_context m r = (case r of None \<Rightarrow> Inl (Bail m) | Some x \<Rightarrow> Inr x)"

definition is_ok :: "'a result \<Rightarrow> bool" where
  "is_ok r = (case r of Inl _ \<Rightarrow> False | Inr _ \<Rightarrow> True)"

lemma with_context_Inr [simp]: "with_context m r = Inr x \<longleftrightarrow> r = Inr x"
  by (cases r) (auto simp: with_context_def)

lemma with_context_simps [simp]:
  "with_context m (Inl e) = Inl (Context m e)"
  "with_context m (Inr x) = Inr x"
  by (simp_all add: with_context_def)

lemma option_context_simps [simp]:
  "option_context m None = Inl (Bail m)"
  "option_context m (Some x) = Inr x"
  by (simp_all add: option_context_def)

lemma option_context_Inr [simp]: "option_context m r = Inr x \<longleftrightarrow> r = Some x"
  by (cases r) auto

lemma is_ok_simps [simp]: "is_ok (Inr x)" "\<not> is_ok (Inl e)"
  by (simp_all add: is_ok_def)

definition ok_value :: "'a result \<Rightarrow> 'a" where
  "ok_value r = (case r of Inr x \<Rightarrow> x | Inl _ \<Rightarrow> undefined)"

lemma is_okD: "is_ok (fst x) \<Longrightarrow> x = (Inr (ok_value (fst x)), snd x)"
  by (cases x) (auto simp: is_ok_def ok_value_def split: sum.splits)

lemma is_ok_value: "is_ok r \<Longrightarrow> r = Inr (ok_value r)"
  by (auto simp: is_ok_def ok_value_def split: sum.splits)

lemma is_ok_unit: "is_ok r \<longleftrightarrow> r = Inr ()"
  by (auto simp: is_ok_def split: sum.splits)

lemma not_is_okD: "\<not> is_ok r \<Longrightarrow> \<exists>e. r = Inl e"
  by (auto simp: is_ok_def split: sum.splits)

section \<open>Operations: a state passed along and a result\<close>

type_synonym ('s, 'a) oper = "'s \<Rightarrow> 'a result \<times> 's"

definition retE :: "'a \<Rightarrow> ('s, 'a) oper" where
  "retE x = (\<lambda>s. (Inr x, s))"

definition failE :: "error \<Rightarrow> ('s, 'a) oper" where
  "failE e = (\<lambda>s. (Inl e, s))"

definition liftE :: "'a result \<Rightarrow> ('s, 'a) oper" where
  "liftE r = (\<lambda>s. (r, s))"

definition getE :: "('s \<Rightarrow> 'a) \<Rightarrow> ('s, 'a) oper" where
  "getE f = (\<lambda>s. (Inr (f s), s))"

definition modE :: "('s \<Rightarrow> 's) \<Rightarrow> ('s, unit) oper" where
  "modE f = (\<lambda>s. (Inr (), f s))"

definition bindE :: "('s, 'a) oper \<Rightarrow> ('a \<Rightarrow> ('s, 'b) oper) \<Rightarrow> ('s, 'b) oper" where
  "bindE f g = (\<lambda>s. case f s of (Inl e, s') \<Rightarrow> (Inl e, s') | (Inr x, s') \<Rightarrow> g x s')"

definition tryE :: "('s, 'a) oper \<Rightarrow> ('s, 'a result) oper" where
  "tryE f = (\<lambda>s. case f s of (r, s') \<Rightarrow> (Inr r, s'))"

definition ctxE :: "string \<Rightarrow> ('s, 'a) oper \<Rightarrow> ('s, 'a) oper" where
  "ctxE m f = (\<lambda>s. case f s of (r, s') \<Rightarrow> (with_context m r, s'))"

definition ignoreE :: "('s, 'a) oper \<Rightarrow> ('s, unit) oper" where
  "ignoreE f = (\<lambda>s. (Inr (), snd (f s)))"

text \<open>A \<open>for\<close> loop whose body may leave with \<open>?\<close>.\<close>

fun forE :: "'d list \<Rightarrow> ('d \<Rightarrow> ('s, unit) oper) \<Rightarrow> ('s, unit) oper" where
  "forE [] f = retE ()"
| "forE (d # ds) f = bindE (f d) (\<lambda>_. forE ds f)"

lemmas oper_defs = retE_def failE_def liftE_def getE_def modE_def bindE_def tryE_def
  ctxE_def ignoreE_def

lemma op_apply [op_simps]:
  "retE x s = (Inr x, s)"
  "failE e s = (Inl e, s)"
  "liftE r s = (r, s)"
  "getE f s = (Inr (f s), s)"
  "modE h s = (Inr (), h s)"
  by (simp_all add: oper_defs)

lemma bindE_apply [op_simps]:
  "bindE f g s = (case f s of (Inl e, s') \<Rightarrow> (Inl e, s') | (Inr x, s') \<Rightarrow> g x s')"
  by (simp add: bindE_def)

lemma tryE_apply [op_simps]: "tryE f s = (Inr (fst (f s)), snd (f s))"
  by (simp add: tryE_def split: prod.split)

lemma ctxE_apply [op_simps]: "ctxE m f s = (with_context m (fst (f s)), snd (f s))"
  by (simp add: ctxE_def split: prod.split)

lemma ignoreE_apply [op_simps]: "ignoreE f s = (Inr (), snd (f s))"
  by (simp add: ignoreE_def)

lemma bind_pure:
  "bindE (getE f) g s = g (f s) s"
  "bindE (retE x) g = g x"
  "bindE (modE h) g' s = g' () (h s)"
  by (simp_all add: bindE_def oper_defs)

lemma pure_Inr_iff:
  "retE x s = (Inr y, t) \<longleftrightarrow> x = y \<and> s = t"
  "failE e s \<noteq> (Inr y, t)"
  "liftE r s = (Inr y, t) \<longleftrightarrow> r = Inr y \<and> s = t"
  by (auto simp: oper_defs)

lemma bindE_Inr_iff:
  "bindE f g s = (Inr y, s') \<longleftrightarrow> (\<exists>x s1. f s = (Inr x, s1) \<and> g x s1 = (Inr y, s'))"
  by (auto simp: bindE_def split: prod.splits sum.splits)

lemma bindE_Inl_iff:
  "bindE f g s = (Inl e, s') \<longleftrightarrow>
     f s = (Inl e, s') \<or> (\<exists>x s1. f s = (Inr x, s1) \<and> g x s1 = (Inl e, s'))"
  by (auto simp: bindE_def split: prod.splits sum.splits)

subsection \<open>Hoare triples with a postcondition for each way out\<close>

definition triple ::
  "('s \<Rightarrow> bool) \<Rightarrow> ('s, 'a) oper \<Rightarrow> ('a \<Rightarrow> 's \<Rightarrow> bool) \<Rightarrow> (error \<Rightarrow> 's \<Rightarrow> bool) \<Rightarrow> bool" where
  "triple P f Q R \<longleftrightarrow>
     (\<forall>s. P s \<longrightarrow> (case f s of (Inl e, s') \<Rightarrow> R e s' | (Inr x, s') \<Rightarrow> Q x s'))"

lemma tripleI:
  assumes "\<And>s x s'. P s \<Longrightarrow> f s = (Inr x, s') \<Longrightarrow> Q x s'"
    and "\<And>s e s'. P s \<Longrightarrow> f s = (Inl e, s') \<Longrightarrow> R e s'"
  shows "triple P f Q R"
  using assms by (auto simp: triple_def split: prod.splits sum.splits)

lemma triple_InrD: "triple P f Q R \<Longrightarrow> P s \<Longrightarrow> f s = (Inr x, s') \<Longrightarrow> Q x s'"
  by (force simp: triple_def)

lemma triple_InlD: "triple P f Q R \<Longrightarrow> P s \<Longrightarrow> f s = (Inl e, s') \<Longrightarrow> R e s'"
  by (force simp: triple_def)

lemma triple_bind:
  assumes "triple P f Q' R" and "\<And>x. triple (Q' x) (g x) Q R"
  shows "triple P (bindE f g) Q R"
  using assms by (fastforce simp: triple_def bindE_def split: prod.splits sum.splits)

lemma triple_conseq:
  assumes "triple P f Q R" and "\<And>s. P' s \<Longrightarrow> P s"
    and "\<And>x s. Q x s \<Longrightarrow> Q' x s" and "\<And>e s. R e s \<Longrightarrow> R' e s"
  shows "triple P' f Q' R'"
  using assms by (fastforce simp: triple_def split: prod.splits sum.splits)

lemma triple_ret [triple_intro]: "(\<And>s. P s \<Longrightarrow> Q x s) \<Longrightarrow> triple P (retE x) Q R"
  by (simp add: triple_def retE_def)

lemma triple_fail [triple_intro]: "(\<And>s. P s \<Longrightarrow> R e s) \<Longrightarrow> triple P (failE e) Q R"
  by (simp add: triple_def failE_def)

lemma triple_get: "(\<And>s. P s \<Longrightarrow> Q (f s) s) \<Longrightarrow> triple P (getE f) Q R"
  by (simp add: triple_def getE_def)

lemma triple_mod [triple_intro]: "(\<And>s. P s \<Longrightarrow> Q () (f s)) \<Longrightarrow> triple P (modE f) Q R"
  by (simp add: triple_def modE_def)

lemma triple_try:
  assumes "triple P f (\<lambda>x. Q (Inr x)) (\<lambda>e. Q (Inl e))"
  shows "triple P (tryE f) Q R"
proof (rule tripleI)
  fix s x s' assume "P s" and "tryE f s = (Inr x, s')"
  then show "Q x s'"
    using assms by (cases x) (auto simp: tryE_def triple_def split: prod.splits)
qed (auto simp: tryE_def split: prod.splits)

lemma triple_ctx: "triple P f Q (\<lambda>e. R (Context m e)) \<Longrightarrow> triple P (ctxE m f) Q R"
  by (fastforce simp: triple_def ctxE_def with_context_def split: prod.splits sum.splits)

lemma triple_if [triple_intro]:
  "(b \<Longrightarrow> triple P f Q R) \<Longrightarrow> (\<not> b \<Longrightarrow> triple P g Q R) \<Longrightarrow> triple P (if b then f else g) Q R"
  by simp

lemma triple_option [triple_intro]:
  "(x = None \<Longrightarrow> triple P f Q R) \<Longrightarrow> (\<And>y. x = Some y \<Longrightarrow> triple P (g y) Q R) \<Longrightarrow>
     triple P (case x of None \<Rightarrow> f | Some y \<Rightarrow> g y) Q R"
  by (cases x) simp_all

lemma triple_sum [triple_intro]:
  "(\<And>e. x = Inl e \<Longrightarrow> triple P (f e) Q R) \<Longrightarrow> (\<And>y. x = Inr y \<Longrightarrow> triple P (g y) Q R) \<Longrightarrow>
     triple P (case x of Inl e \<Rightarrow> f e | Inr y \<Rightarrow> g y) Q R"
  by (cases x) simp_all

lemma triple_prod [triple_intro]:
  "(\<And>a b. x = (a, b) \<Longrightarrow> triple P (f a b) Q R) \<Longrightarrow> triple P (case x of (a, b) \<Rightarrow> f a b) Q R"
  by (cases x) simp

lemma triple_forE:
  assumes "\<And>d. d \<in> set ds \<Longrightarrow> triple I (f d) (\<lambda>_. I) R"
  shows "triple I (forE ds f) (\<lambda>_. I) R"
  using assms
proof (induction ds)
  case Nil
  then show ?case by (simp add: triple_ret)
next
  case (Cons d ds)
  then show ?case by (auto intro!: triple_bind [where Q' = "\<lambda>_. I"])
qed

text \<open>An invariant an operation keeps on both ways out.\<close>

definition keeps :: "('s \<Rightarrow> bool) \<Rightarrow> ('s, 'a) oper \<Rightarrow> bool" where
  "keeps I f \<longleftrightarrow> (\<forall>s. I s \<longrightarrow> I (snd (f s)))"

named_theorems keeps_intro "operations that keep an invariant"

lemma keepsD: "keeps I f \<Longrightarrow> I s \<Longrightarrow> I (snd (f s))"
  by (simp add: keeps_def)

lemma keepsD2: "keeps I f \<Longrightarrow> I s \<Longrightarrow> f s = (r, s') \<Longrightarrow> I s'"
  by (metis keeps_def snd_conv)

lemma keeps_triple: "keeps I f \<longleftrightarrow> triple I f (\<lambda>_. I) (\<lambda>_. I)"
  by (auto simp: keeps_def triple_def case_prod_beta split: sum.split)

lemma keeps_basic [keeps_intro]:
  "keeps I (retE x)" "keeps I (failE e)" "keeps I (liftE r)" "keeps I (getE g)"
  by (simp_all add: keeps_def oper_defs)

lemma keeps_mod: "(\<And>s. I s \<Longrightarrow> I (h s)) \<Longrightarrow> keeps I (modE h)"
  by (simp add: keeps_def modE_def)

lemma keeps_bind [keeps_intro]:
  "keeps I f \<Longrightarrow> (\<And>x. keeps I (g x)) \<Longrightarrow> keeps I (bindE f g)"
  by (fastforce simp: keeps_def bindE_def split: prod.splits sum.splits)

lemma keeps_wrap [keeps_intro]:
  "keeps I f \<Longrightarrow> keeps I (tryE f)"
  "keeps I f \<Longrightarrow> keeps I (ctxE m f)"
  "keeps I f \<Longrightarrow> keeps I (ignoreE f)"
  by (auto simp: keeps_def oper_defs split: prod.splits)

lemma keeps_if [keeps_intro]:
  "(b \<Longrightarrow> keeps I f) \<Longrightarrow> (\<not> b \<Longrightarrow> keeps I g) \<Longrightarrow> keeps I (if b then f else g)"
  by simp

lemma keeps_option [keeps_intro]:
  "(x = None \<Longrightarrow> keeps I f) \<Longrightarrow> (\<And>y. x = Some y \<Longrightarrow> keeps I (g y)) \<Longrightarrow>
     keeps I (case x of None \<Rightarrow> f | Some y \<Rightarrow> g y)"
  by (cases x) simp_all

lemma keeps_sum [keeps_intro]:
  "(\<And>e. x = Inl e \<Longrightarrow> keeps I (f e)) \<Longrightarrow> (\<And>y. x = Inr y \<Longrightarrow> keeps I (g y)) \<Longrightarrow>
     keeps I (case x of Inl e \<Rightarrow> f e | Inr y \<Rightarrow> g y)"
  by (cases x) simp_all

lemma keeps_prod [keeps_intro]:
  "(\<And>a b. x = (a, b) \<Longrightarrow> keeps I (f a b)) \<Longrightarrow> keeps I (case x of (a, b) \<Rightarrow> f a b)"
  by (cases x) simp

lemma keeps_let [keeps_intro]: "(\<And>y. y = x \<Longrightarrow> keeps I (f y)) \<Longrightarrow> keeps I (let y = x in f y)"
  by simp

lemma keeps_forE [keeps_intro]:
  "(\<And>d. d \<in> set ds \<Longrightarrow> keeps I (f d)) \<Longrightarrow> keeps I (forE ds f)"
  by (induction ds) (auto intro: keeps_intro)

section \<open>State machines\<close>

text \<open>The states a machine reaches from its initial ones, and the contract of an invariant.\<close>

inductive runs :: "('s \<Rightarrow> bool) \<Rightarrow> ('s \<Rightarrow> 's \<Rightarrow> bool) \<Rightarrow> 's \<Rightarrow> bool" for init move where
  runs_init: "init s \<Longrightarrow> runs init move s"
| runs_move: "runs init move s \<Longrightarrow> move s t \<Longrightarrow> runs init move t"

locale machine_invariant =
  fixes init :: "'s \<Rightarrow> bool" and move :: "'s \<Rightarrow> 's \<Rightarrow> bool" and inv :: "'s \<Rightarrow> bool"
  assumes inv_init: "init s \<Longrightarrow> inv s"
    and inv_move: "move s t \<Longrightarrow> inv s \<Longrightarrow> inv t"
begin

lemma always: "runs init move s \<Longrightarrow> inv s"
  by (induction rule: runs.induct) (auto intro: inv_init inv_move)

end

end
