(* ===== verification/Text.thy ===== *)
theory Text
  imports Prelude
begin

text \<open>
  The parts of Rust's string and path library the program calls. A \<open>String\<close> is a list of
  bytes (\<open>char\<close>); whitespace is the ASCII set, which is all sysfs, Crosvm and the kernel
  tables produce. A path is the list of its components, the root directory being the
  component \<open>''/''\<close>, so that \<open>join\<close> appends, \<open>parent\<close> drops the last component and
  \<open>starts_with\<close> is the prefix order.
\<close>

section \<open>Whitespace, splitting, case\<close>

definition is_ws :: "char \<Rightarrow> bool" where
  "is_ws c \<longleftrightarrow> c = CHR '' '' \<or> (9 \<le> (of_char c :: nat) \<and> (of_char c :: nat) \<le> 13)"

definition trim_start :: "string \<Rightarrow> string" where
  "trim_start s = dropWhile is_ws s"

definition trim :: "string \<Rightarrow> string" where
  "trim s = rev (trim_start (rev (trim_start s)))"

text \<open>\<open>split_whitespace\<close>: the maximal runs of non-blank characters.\<close>

fun split_ws_acc :: "string \<Rightarrow> string \<Rightarrow> string list" where
  "split_ws_acc acc [] = (if acc = [] then [] else [rev acc])"
| "split_ws_acc acc (c # cs) =
     (if is_ws c then (if acc = [] then split_ws_acc [] cs else rev acc # split_ws_acc [] cs)
      else split_ws_acc (c # acc) cs)"

definition split_whitespace :: "string \<Rightarrow> string list" where
  "split_whitespace s = split_ws_acc [] s"

text \<open>\<open>split(c)\<close>: the pieces between occurrences of a character, empty ones included.\<close>

fun split_char_acc :: "char \<Rightarrow> string \<Rightarrow> string \<Rightarrow> string list" where
  "split_char_acc d acc [] = [rev acc]"
| "split_char_acc d acc (c # cs) =
     (if c = d then rev acc # split_char_acc d [] cs else split_char_acc d (c # acc) cs)"

definition split_char :: "char \<Rightarrow> string \<Rightarrow> string list" where
  "split_char d s = split_char_acc d [] s"

definition newline :: char where
  "newline = char_of (10 :: nat)"

definition strip_cr :: "string \<Rightarrow> string" where
  "strip_cr s = (if s \<noteq> [] \<and> last s = char_of (13 :: nat) then butlast s else s)"

text \<open>\<open>lines\<close>: no final empty line, and a carriage return before a newline is dropped.\<close>

definition lines :: "string \<Rightarrow> string list" where
  "lines s =
     (let ls = split_char newline s
      in map strip_cr (butlast ls) @ (if last ls = [] then [] else [last ls]))"

text \<open>\<open>split_once\<close> and \<open>rsplit_once\<close> at a character.\<close>

fun split_once :: "char \<Rightarrow> string \<Rightarrow> (string \<times> string) option" where
  "split_once d [] = None"
| "split_once d (c # cs) =
     (if c = d then Some ([], cs)
      else map_option (\<lambda>(a, b). (c # a, b)) (split_once d cs))"

definition rsplit_once :: "char \<Rightarrow> string \<Rightarrow> (string \<times> string) option" where
  "rsplit_once d s = map_option (\<lambda>(a, b). (rev b, rev a)) (split_once d (rev s))"

definition ascii_lower :: "char \<Rightarrow> char" where
  "ascii_lower c =
     (let n = of_char c :: nat in if 65 \<le> n \<and> n \<le> 90 then char_of (n + 32) else c)"

definition ascii_upper :: "char \<Rightarrow> char" where
  "ascii_upper c =
     (let n = of_char c :: nat in if 97 \<le> n \<and> n \<le> 122 then char_of (n - 32) else c)"

definition to_uppercase :: "string \<Rightarrow> string" where
  "to_uppercase s = map ascii_upper s"

definition eq_ignore_ascii_case :: "string \<Rightarrow> string \<Rightarrow> bool" where
  "eq_ignore_ascii_case a b \<longleftrightarrow> map ascii_lower a = map ascii_lower b"

lemma eq_ignore_ascii_case_refl [simp]: "eq_ignore_ascii_case a a"
  by (simp add: eq_ignore_ascii_case_def)

lemma eq_ignore_ascii_case_sym: "eq_ignore_ascii_case a b \<longleftrightarrow> eq_ignore_ascii_case b a"
  by (auto simp: eq_ignore_ascii_case_def)

section \<open>Numbers\<close>

text \<open>
  \<open>from_str_radix\<close> and \<open>parse\<close> for an unsigned type of \<open>bits\<close> bits: an optional plus
  sign, at least one digit, and no value beyond the type.
\<close>

definition digit_val :: "nat \<Rightarrow> char \<Rightarrow> nat option" where
  "digit_val base c =
     (let n = of_char c :: nat;
          d = (if 48 \<le> n \<and> n \<le> 57 then n - 48
               else if 97 \<le> n \<and> n \<le> 122 then n - 87
               else if 65 \<le> n \<and> n \<le> 90 then n - 55 else base)
      in if d < base then Some d else None)"

fun parse_digits :: "nat \<Rightarrow> nat \<Rightarrow> string \<Rightarrow> nat option" where
  "parse_digits base acc [] = Some acc"
| "parse_digits base acc (c # cs) =
     (case digit_val base c of None \<Rightarrow> None | Some d \<Rightarrow> parse_digits base (acc * base + d) cs)"

definition parse_uint :: "nat \<Rightarrow> nat \<Rightarrow> string \<Rightarrow> nat option" where
  "parse_uint base bits s =
     (let t = (case s of [] \<Rightarrow> [] | c # cs \<Rightarrow> if c = CHR ''+'' then cs else s)
      in if t = [] then None
         else case parse_digits base 0 t of
                None \<Rightarrow> None
              | Some n \<Rightarrow> if n < 2 ^ bits then Some n else None)"

text \<open>\<open>trim_start_matches("0x")\<close> drops every leading copy.\<close>

fun trim_0x :: "string \<Rightarrow> string" where
  "trim_0x (a # b # cs) =
     (if a = CHR ''0'' \<and> b = CHR ''x'' then trim_0x cs else a # b # cs)"
| "trim_0x s = s"

definition parse_hex_u32 :: "string \<Rightarrow> 32 word option" where
  "parse_hex_u32 s = map_option of_nat (parse_uint 16 32 (trim_0x s))"

definition parse_u32 :: "string \<Rightarrow> 32 word option" where
  "parse_u32 s = map_option of_nat (parse_uint 10 32 s)"

definition parse_u8 :: "string \<Rightarrow> 8 word option" where
  "parse_u8 s = map_option of_nat (parse_uint 10 8 s)"

definition digit_char :: "bool \<Rightarrow> nat \<Rightarrow> char" where
  "digit_char upper d =
     (if d < 10 then char_of (48 + d) else if upper then char_of (55 + d) else char_of (87 + d))"

fun digits :: "nat \<Rightarrow> nat \<Rightarrow> nat list" where
  "digits base n =
     (if base < 2 \<or> n < base then [n] else digits base (n div base) @ [n mod base])"

declare digits.simps [simp del]

definition pad_zero :: "nat \<Rightarrow> string \<Rightarrow> string" where
  "pad_zero w s = replicate (w - length s) (CHR ''0'') @ s"

definition show_dec :: "nat \<Rightarrow> string" where
  "show_dec n = map (digit_char False) (digits 10 n)"

definition show_dec_w :: "nat \<Rightarrow> nat \<Rightarrow> string" where
  "show_dec_w w n = pad_zero w (show_dec n)"

definition show_hex :: "nat \<Rightarrow> nat \<Rightarrow> string" where
  "show_hex w n = pad_zero w (map (digit_char False) (digits 16 n))"

definition show_HEX :: "nat \<Rightarrow> nat \<Rightarrow> string" where
  "show_HEX w n = pad_zero w (map (digit_char True) (digits 16 n))"

section \<open>Joining and paths\<close>

fun join :: "'a list \<Rightarrow> 'a list list \<Rightarrow> 'a list" where
  "join sep [] = []"
| "join sep [x] = x"
| "join sep (x # y # xs) = x @ sep @ join sep (y # xs)"

type_synonym path = "string list"

definition path_parent :: "path \<Rightarrow> path option" where
  "path_parent p = (if p = [] \<or> p = [''/''] then None else Some (butlast p))"

definition path_file_name :: "path \<Rightarrow> string option" where
  "path_file_name p = (if p = [] \<or> last p = ''/'' \<or> last p = ''..'' then None else Some (last p))"

definition path_str :: "path \<Rightarrow> string" where
  "path_str p =
     (case p of [] \<Rightarrow> []
      | c # cs \<Rightarrow> if c = ''/'' then ''/'' @ join ''/'' cs else join ''/'' p)"

section \<open>Facts about the number primitives\<close>

lemma split_ws_acc_no_empty: "x \<in> set (split_ws_acc acc s) \<Longrightarrow> x \<noteq> []"
  by (induction acc s rule: split_ws_acc.induct) (auto split: if_splits)

definition is_word :: "string \<Rightarrow> bool" where
  "is_word w \<longleftrightarrow> w \<noteq> [] \<and> list_all (\<lambda>c. \<not> is_ws c) w"

lemma split_ws_acc_word:
  "list_all (\<lambda>c. \<not> is_ws c) w \<Longrightarrow> split_ws_acc acc (w @ r) = split_ws_acc (rev w @ acc) r"
  by (induction w arbitrary: acc) auto

lemma split_whitespace_join:
  "list_all is_word ws \<Longrightarrow> split_whitespace (join '' '' ws) = ws"
proof (induction "'' ''" ws rule: join.induct)
  case 1
  then show ?case by (simp add: split_whitespace_def)
next
  case (2 x)
  then show ?case
    using split_ws_acc_word [of x "[]" "[]"] by (simp add: split_whitespace_def is_word_def)
next
  case (3 x y xs)
  then show ?case
    by (simp add: split_whitespace_def is_word_def split_ws_acc_word is_ws_def)
qed

lemma split_whitespace_words: "x \<in> set (split_whitespace s) \<Longrightarrow> x \<noteq> []"
  unfolding split_whitespace_def by (rule split_ws_acc_no_empty)

lemma digits_less: "2 \<le> base \<Longrightarrow> d \<in> set (digits base n) \<Longrightarrow> d < base"
proof (induction base n rule: digits.induct)
  case (1 base n)
  then show ?case by (cases "n < base") (auto simp: digits.simps [of base n])
qed

lemma digits_nonempty [simp]: "digits base n \<noteq> []"
  by (subst digits.simps) simp

lemma digit_val_char: "d < b \<Longrightarrow> b \<le> 36 \<Longrightarrow> digit_val b (digit_char u d) = Some d"
  by (auto simp: digit_val_def digit_char_def)

lemma parse_digits_append:
  "parse_digits b acc (xs @ ys) =
     (case parse_digits b acc xs of None \<Rightarrow> None | Some m \<Rightarrow> parse_digits b m ys)"
  by (induction xs arbitrary: acc) (auto split: option.split)

lemma parse_digits_show:
  assumes "2 \<le> b" and "b \<le> 36"
  shows "parse_digits b 0 (map (digit_char u) (digits b n)) = Some n"
  using assms
proof (induction b n rule: digits.induct)
  case (1 b n)
  show ?case
  proof (cases "n < b")
    case True
    then show ?thesis using 1(3) by (subst digits.simps) (simp add: digit_val_char)
  next
    case False
    have "n mod b < b" using 1(2) by simp
    then have d: "digit_val b (digit_char u (n mod b)) = Some (n mod b)"
      using 1(3) by (rule digit_val_char)
    have "parse_digits b 0 (map (digit_char u) (digits b (n div b))) = Some (n div b)"
      using 1 False by simp
    then have "parse_digits b 0 (map (digit_char u) (digits b (n div b) @ [n mod b])) = Some n"
      using d by (simp add: parse_digits_append)
    moreover have "digits b n = digits b (n div b) @ [n mod b]"
      using False 1(2) by (subst digits.simps) simp
    ultimately show ?thesis by simp
  qed
qed

lemma parse_show_dec: "n < 2 ^ bits \<Longrightarrow> parse_uint 10 bits (show_dec n) = Some n"
proof -
  assume n: "n < 2 ^ bits"
  obtain d ds where ds: "digits 10 n = d # ds"
    using digits_nonempty [of 10 n] by (cases "digits 10 n") auto
  then have "d < 10" using digits_less [of 10 d n] by simp
  then have "digit_char False d \<noteq> CHR ''+''"
    by (auto simp: digit_char_def dest: arg_cong [where f = "of_char :: char \<Rightarrow> nat"])
  then show ?thesis
    using n ds parse_digits_show [of 10 False n]
    by (simp add: parse_uint_def show_dec_def Let_def del: parse_digits.simps)
qed

lemma show_dec_is_word: "is_word (show_dec n)"
proof -
  have "\<not> is_ws (digit_char False d)" if "d < 10" for d
    using that
    by (auto simp: is_ws_def digit_char_def dest!: arg_cong [where f = "of_char :: char \<Rightarrow> nat"])
  then show ?thesis
    using digits_less [of 10 _ n] by (auto simp: is_word_def show_dec_def list_all_iff)
qed

lemma parse_u8_show: "parse_u8 (show_dec (unat (p :: 8 word))) = Some p"
  using parse_show_dec [of "unat p" 8] unsigned_less [where ?'a = nat, of p]
  by (simp add: parse_u8_def)

lemma prefix_append_same [simp]: "prefix p (p @ q)"
  by (simp add: prefix_def)

end
