(* ===== verification/Json.thy ===== *)
theory Json
  imports Text
begin

text \<open>
  The JSON values (\<open>serde_json::Value\<close>) that carry passthrough rules and selectors, and
  the accessors of \<open>src/config.rs\<close> that read them. An object is its list of members;
  \<open>get\<close> finds a member by key. A number is kept the way \<open>serde_json\<close> keeps it: an
  unsigned 64-bit integer, a negative one, or a float, of which only the text is kept
  because no accessor of the program reads it.
\<close>

datatype number = PosInt "64 word" | NegInt "64 word" | Float string

datatype json =
    JNull
  | JBool bool
  | JNum number
  | JStr string
  | JArr "json list"
  | JObj "(string \<times> json) list"

fun get :: "json \<Rightarrow> string \<Rightarrow> json option" where
  "get (JObj ms) k = map_of ms k"
| "get _ k = None"

fun is_object :: "json \<Rightarrow> bool" where
  "is_object (JObj ms) = True"
| "is_object _ = False"

fun as_str :: "json \<Rightarrow> string option" where
  "as_str (JStr s) = Some s"
| "as_str _ = None"

fun as_bool :: "json \<Rightarrow> bool option" where
  "as_bool (JBool b) = Some b"
| "as_bool _ = None"

fun as_array :: "json \<Rightarrow> json list option" where
  "as_array (JArr xs) = Some xs"
| "as_array _ = None"

fun as_u64 :: "json \<Rightarrow> 64 word option" where
  "as_u64 (JNum (PosInt n)) = Some n"
| "as_u64 _ = None"

text \<open>\<open>value.get(key).and_then(accessor)\<close>, the shape of every read in the program.\<close>

definition get_str :: "json \<Rightarrow> string \<Rightarrow> string option" where
  "get_str v k = Option.bind (get v k) as_str"

definition get_u64 :: "json \<Rightarrow> string \<Rightarrow> 64 word option" where
  "get_u64 v k = Option.bind (get v k) as_u64"

definition get_array :: "json \<Rightarrow> string \<Rightarrow> json list option" where
  "get_array v k = Option.bind (get v k) as_array"

definition items :: "json \<Rightarrow> string \<Rightarrow> json list" where
  "items v k = (case get_array v k of None \<Rightarrow> [] | Some xs \<Rightarrow> xs)"

section \<open>Accessors of \<open>src/config.rs\<close> and \<open>src/manager.rs\<close>\<close>

text \<open>
  \<open>enabled\<close>: only objects can be enabled; \<open>disable\<close> wins over \<open>enable\<close>, a
  \<open>disable\<close> that is not a boolean counts as false, and the default is enabled.
\<close>

definition enabled :: "json \<Rightarrow> bool" where
  "enabled v =
     (if \<not> is_object v then False
      else case get v ''disable'' of
             Some d \<Rightarrow> \<not> (case as_bool d of Some b \<Rightarrow> b | None \<Rightarrow> False)
           | None \<Rightarrow> (case Option.bind (get v ''enable'') as_bool of Some b \<Rightarrow> b | None \<Rightarrow> True))"

text \<open>The manager's copy, used for ACPI and evdev rules, has no test for an object.\<close>

definition json_enabled :: "json \<Rightarrow> bool" where
  "json_enabled v =
     (case get v ''disable'' of
        Some d \<Rightarrow> \<not> (case as_bool d of Some b \<Rightarrow> b | None \<Rightarrow> False)
      | None \<Rightarrow> (case Option.bind (get v ''enable'') as_bool of Some b \<Rightarrow> b | None \<Rightarrow> True))"

definition string_field :: "json \<Rightarrow> string \<Rightarrow> string option" where
  "string_field v k = get_str v k"

definition string_list :: "json \<Rightarrow> string \<Rightarrow> string list" where
  "string_list v k = List.map_filter as_str (items v k)"

definition bool_value :: "json \<Rightarrow> string \<Rightarrow> bool" where
  "bool_value v k = (case Option.bind (get v k) as_bool of Some b \<Rightarrow> b | None \<Rightarrow> False)"

lemma get_not_object: "\<not> is_object v \<Longrightarrow> get v k = None"
  by (cases v) auto

lemma enabled_json_enabled: "enabled v \<longleftrightarrow> is_object v \<and> json_enabled v"
  by (auto simp: enabled_def json_enabled_def)

lemma enabled_disable:
  "is_object v \<Longrightarrow> get v ''disable'' = Some (JBool b) \<Longrightarrow> enabled v = (\<not> b)"
  by (simp add: enabled_def)

lemma items_JArr: "get v k = Some (JArr xs) \<Longrightarrow> items v k = xs"
  by (simp add: items_def get_array_def)

end
