(* ===== verification/Types.thy ===== *)
theory Types
  imports Json
begin

text \<open>
  The data the components exchange: devices as the scans report them
  (\<open>src/device.rs\<close>), rules as the configuration resolves them (\<open>src/config.rs\<close>), the
  persistent state (\<open>src/state.rs\<close>), selectors and notifications (\<open>src/manager.rs\<close>).
\<close>

section \<open>Devices\<close>

record usb_interface =
  iclass :: "32 word option"
  isubclass :: "32 word option"
  iprotocol :: "32 word option"

record usb_device =
  sys_name :: string
  device_node :: "string option"
  bus :: "32 word option"
  port :: "32 word option"
  root_port :: "32 word option"
  vid :: "string option"
  pid :: "string option"
  vendor_name :: "string option"
  product_name :: "string option"
  serial :: "string option"
  removable :: "string option"
  device_class :: "32 word option"
  device_subclass :: "32 word option"
  device_protocol :: "32 word option"
  interfaces_text :: "string option"
  interfaces :: "usb_interface list"
  driver_paths :: "string list"
  modaliases :: "string list"

definition or_none :: "string option \<Rightarrow> string" where
  "or_none x = (case x of None \<Rightarrow> ''None'' | Some s \<Rightarrow> s)"

definition usb_persistent_id :: "usb_device \<Rightarrow> string" where
  "usb_persistent_id d =
     ''usb-'' @ or_none (vid d) @ '':'' @ or_none (pid d) @ '':'' @ or_none (serial d)"

definition is_hub :: "usb_device \<Rightarrow> bool" where
  "is_hub d \<longleftrightarrow>
     device_class d = Some 9 \<or> list_ex (\<lambda>i. iclass i = Some 9) (interfaces d)"

record pci_device =
  address :: string
  pci_driver :: "string option"
  vendor_id :: "32 word option"
  device_id :: "32 word option"
  vendor_id_text :: "string option"
  device_id_text :: "string option"
  pci_vendor_name :: "string option"
  pci_device_name :: "string option"
  pci_class :: "32 word option"
  pci_subclass :: "32 word option"
  prog_if :: "32 word option"
  pci_subsystem_vendor_id :: "string option"
  pci_subsystem_id :: "string option"

definition pci_persistent_id :: "pci_device \<Rightarrow> string" where
  "pci_persistent_id d = ''pci-'' @ address d"

text \<open>An input device as the udev enumerator reports it.\<close>

record input_device =
  devnode :: "string option"
  property_value :: "string \<Rightarrow> string option"
  name_attribute :: "string option"
  parent_name_attribute :: "string option"

section \<open>Rules, virtual machines and the configuration\<close>

record rule_match =
  target_vm :: "string option"
  allowed_vms_list :: "string list"
  skip_on_suspend :: bool
  iommu_add_all :: bool
  iommu_skip_if_shared :: bool
  crosvm_use_root_bus :: bool
  tag :: "string option"
  order :: nat

datatype vm_type = CrosvmVm | QemuVm | OtherVm

record vm =
  vm_name :: string
  vm_kind :: vm_type
  vm_socket :: path

record usb_authorization =
  auth_enable :: "bool option"
  auth_disable :: "bool option"
  deauthorize_unmatched :: bool
  host_allow :: "json list"

datatype api_transport = UnixTransport | TcpTransport | VsockTransport

record api =
  api_enable :: bool
  transports :: "api_transport list"
  api_host :: string
  tcp_port :: "16 word"
  vsock_port :: "32 word"
  api_port :: "32 word option"
  allowed_cids :: "32 word list"
  unix_socket :: path
  unix_socket_user :: "string option"
  unix_socket_group :: "string option"
  unix_socket_mode :: "string option"

record config =
  usb_passthrough :: "json list"
  authorization_policy :: usb_authorization
  pci_passthrough :: "json list"
  evdev_passthrough :: "json list"
  acpi_passthrough :: "json list"
  vms :: "vm list"
  persistency :: bool
  state_path :: path
  crosvm_binary :: path
  modprobe_binary :: path
  modinfo_binary :: path
  api_config :: api

definition default_api :: api where
  "default_api =
     \<lparr>api_enable = True, transports = [], api_host = ''127.0.0.1'', tcp_port = 2000,
      vsock_port = 2000, api_port = None, allowed_cids = [],
      unix_socket = [''/'', ''var'', ''lib'', ''vhotplug'', ''vhotplug.sock''],
      unix_socket_user = None, unix_socket_group = None, unix_socket_mode = None\<rparr>"

definition default_config :: config where
  "default_config =
     \<lparr>usb_passthrough = [],
      authorization_policy =
        \<lparr>auth_enable = None, auth_disable = None, deauthorize_unmatched = False, host_allow = []\<rparr>,
      pci_passthrough = [], evdev_passthrough = [], acpi_passthrough = [], vms = [],
      persistency = True, state_path = [''/'', ''var'', ''lib'', ''vhotplug'', ''vhotplug.state''],
      crosvm_binary = [''crosvm''], modprobe_binary = [''modprobe''],
      modinfo_binary = [''modinfo''], api_config = default_api\<rparr>"

section \<open>Persistent state\<close>

record usb_port_binding =
  binding_vm :: string
  binding_port :: "8 word"
  socket_gen :: string
  binding_vid :: "string option"
  binding_pid :: "string option"
  binding_serial :: "string option"

record persistent_state =
  selected_vms :: "string \<Rightarrow> string option"
  disconnected_devices :: "string list"
  crosvm_usb_ports :: "string \<Rightarrow> usb_port_binding option"

definition default_persistent :: persistent_state where
  "default_persistent =
     \<lparr>selected_vms = (\<lambda>_. None), disconnected_devices = [], crosvm_usb_ports = (\<lambda>_. None)\<rparr>"

section \<open>Selectors and notifications\<close>

record selector =
  sel_device_node :: "string option"
  sel_bus :: "32 word option"
  sel_port :: "32 word option"
  sel_vid :: "string option"
  sel_pid :: "string option"
  sel_address :: "string option"
  sel_did :: "string option"
  sel_tag :: "string option"

definition default_selector :: selector where
  "default_selector =
     \<lparr>sel_device_node = None, sel_bus = None, sel_port = None, sel_vid = None, sel_pid = None,
      sel_address = None, sel_did = None, sel_tag = None\<rparr>"

text \<open>One constructor for each event object the manager broadcasts.\<close>

datatype notification =
    UsbSelectVm usb_device "string list"
  | UsbAttached usb_device string
  | UsbDetached string string
  | UsbConnected usb_device
  | UsbDisconnected "string option"
  | PciAttached pci_device string
  | PciDetached pci_device string
  | PciConnected pci_device
  | PciDisconnected string

end
