(* ===== verification/Host.thy ===== *)
theory Host
  imports Types
begin

text \<open>
  The host: what the program reads and writes through the operating system, and the
  programs and libraries it calls.

  The kernel, Crosvm, the udev hardware database, the regular-expression engine, modprobe
  and modinfo are not part of the repository. They are the fields of the record \<open>env\<close>,
  functions over a kernel state \<open>'k\<close> about which nothing is assumed. A read is a function
  of the kernel state at that moment; a system call with an effect, or a command run, may
  change that state in any way, so whatever the environment does between two effects of the
  program is included.

  The record \<open>host\<close> is the mutable part: the kernel state and a history of the effects
  the program has had, each with the kernel state it was issued in. The history is never
  read by the program; theorems about what is issued, and when, are statements about it.
\<close>

record cmd_output =
  status :: int
  stdout :: string
  stderr :: string

text \<open>How a child process can end: spawning fails, it outlives its deadline, waiting for it
  fails, or it exits, by a signal when there is no code.\<close>

datatype outcome =
    SpawnError string
  | TimedOut
  | WaitError string
  | Exited "int option" string string

record metadata =
  dev :: "64 word"
  ino :: "64 word"
  ctime_nsec :: int
  rdev :: "64 word"
  is_block_device :: bool

datatype endpoint = UnixEndpoint path | TcpEndpoint string | VsockEndpoint "32 word"

datatype effect =
    Write path string
  | CreateDirAll path
  | OpenTruncate path "32 word"
  | WriteAll path string
  | SyncAll path
  | Rename path path
  | Chown path "32 word option" "32 word option"
  | SetMode path "32 word"
  | RemoveFile path
  | Bind endpoint
  | Run path "string list"
  | Notify notification

record 'k env =
  read_bytes :: "path \<Rightarrow> 'k \<Rightarrow> 8 word list option"
  read_text :: "path \<Rightarrow> 'k \<Rightarrow> string option"
  path_exists :: "path \<Rightarrow> 'k \<Rightarrow> bool"
  path_is_file :: "path \<Rightarrow> 'k \<Rightarrow> bool"
  read_dir :: "path \<Rightarrow> 'k \<Rightarrow> string option list option"
  read_link :: "path \<Rightarrow> 'k \<Rightarrow> path option"
  canonicalize :: "path \<Rightarrow> 'k \<Rightarrow> path option"
  get_metadata :: "path \<Rightarrow> 'k \<Rightarrow> metadata option"
  perform :: "effect \<Rightarrow> 'k \<Rightarrow> unit result \<times> 'k"
  exec :: "path \<Rightarrow> string list \<Rightarrow> 'k \<Rightarrow> outcome \<times> 'k"
  hwdb :: "(string \<Rightarrow> string \<Rightarrow> string option) option"
  regex :: "string \<Rightarrow> (string \<Rightarrow> bool) option"
  modprobe :: "path \<Rightarrow> string \<Rightarrow> string option"
  modinfo :: "path \<Rightarrow> string \<Rightarrow> string option"
  input_devices :: "'k \<Rightarrow> input_device list result"
  lookup_user :: "string \<Rightarrow> 32 word option result"
  lookup_group :: "string \<Rightarrow> 32 word option result"

record 'k host =
  kern :: 'k
  history :: "(effect \<times> 'k) list"

type_synonym ('k, 'z, 'a) host_op = "(('k, 'z) host_scheme, 'a) oper"

section \<open>The primitive effects\<close>

definition issue ::
  "effect \<Rightarrow> ('k \<Rightarrow> 'a result \<times> 'k) \<Rightarrow> ('k, 'z, 'a) host_op" where
  "issue e f =
     (\<lambda>s. case f (kern s) of
        (r, k) \<Rightarrow> (r, s\<lparr>kern := k, history := history s @ [(e, kern s)]\<rparr>))"

text \<open>A system call with an effect; \<open>E\<close> decides its outcome.\<close>

definition sys :: "('k, 'y) env_scheme \<Rightarrow> effect \<Rightarrow> ('k, 'z, unit) host_op" where
  "sys E e = issue e (perform E e)"

definition fs_write :: "('k, 'y) env_scheme \<Rightarrow> path \<Rightarrow> string \<Rightarrow> ('k, 'z, unit) host_op" where
  "fs_write E p v = sys E (Write p v)"

text \<open>
  \<open>ProcessRunner::run\<close>: spawn the program and wait for it until the deadline.
\<close>

definition finished :: "path \<Rightarrow> outcome \<Rightarrow> cmd_output result" where
  "finished program oc =
     (case oc of
        SpawnError m \<Rightarrow> Inl (Context (''failed to execute '' @ path_str program) (Bail m))
      | TimedOut \<Rightarrow>
          Inl (Context (path_str program @ '' command timed out'') (Bail ''deadline has elapsed''))
      | WaitError m \<Rightarrow> Inl (Bail m)
      | Exited code out err \<Rightarrow>
          Inr \<lparr>status = (case code of None \<Rightarrow> -1 | Some c \<Rightarrow> c), stdout = out, stderr = err\<rparr>)"

definition run :: "('k, 'y) env_scheme \<Rightarrow> path \<Rightarrow> string list \<Rightarrow> ('k, 'z, cmd_output) host_op" where
  "run E program args =
     issue (Run program args) (\<lambda>k. (finished program (fst (exec E program args k)),
                                    snd (exec E program args k)))"

text \<open>A broadcast to the subscribed API clients: \<open>send\<close>'s result is ignored.\<close>

definition notify :: "notification \<Rightarrow> ('k, 'z, unit) host_op" where
  "notify n = issue (Notify n) (\<lambda>k. (Inr (), k))"

text \<open>\<open>user_id\<close> and \<open>group_id\<close> of \<open>src/unix_ids.rs\<close>.\<close>

definition user_id :: "('k, 'y) env_scheme \<Rightarrow> string \<Rightarrow> 32 word result" where
  "user_id E name =
     (case with_context (''failed to look up user '' @ name) (lookup_user E name) of
        Inl e \<Rightarrow> Inl e
      | Inr None \<Rightarrow> Inl (Bail (''unknown user '' @ name))
      | Inr (Some u) \<Rightarrow> Inr u)"

definition group_id :: "('k, 'y) env_scheme \<Rightarrow> string \<Rightarrow> 32 word result" where
  "group_id E name =
     (case with_context (''failed to look up group '' @ name) (lookup_group E name) of
        Inl e \<Rightarrow> Inl e
      | Inr None \<Rightarrow> Inl (Bail (''unknown group '' @ name))
      | Inr (Some g) \<Rightarrow> Inr g)"

text \<open>\<open>Option::transpose\<close>: an absent name needs no lookup.\<close>

definition transpose_lookup ::
  "(string \<Rightarrow> 32 word result) \<Rightarrow> string option \<Rightarrow> 32 word option result" where
  "transpose_lookup f name =
     (case name of
        None \<Rightarrow> Inr None
      | Some n \<Rightarrow> (case f n of Inl e \<Rightarrow> Inl e | Inr u \<Rightarrow> Inr (Some u)))"

text \<open>A read: a function of the kernel state, which it does not change.\<close>

definition look :: "('k \<Rightarrow> 'a) \<Rightarrow> ('k, 'z, 'a) host_op" where
  "look f = getE (\<lambda>s. f (kern s))"

text \<open>A read that may fail.\<close>

definition look_result :: "('k \<Rightarrow> 'a result) \<Rightarrow> ('k, 'z, 'a) host_op" where
  "look_result f = (\<lambda>s. (f (kern s), s))"

lemma issue_apply [op_simps]:
  "issue e f s = (fst (f (kern s)),
     s\<lparr>kern := snd (f (kern s)), history := history s @ [(e, kern s)]\<rparr>)"
  by (simp add: issue_def case_prod_beta)

lemmas host_defs = sys_def fs_write_def run_def notify_def look_def look_result_def

section \<open>What an operation issues\<close>

text \<open>
  \<open>emits A f\<close>: whatever the environment answers, every effect that \<open>f\<close> adds to the
  history satisfies \<open>A\<close>, and nothing already in the history changes. \<open>A\<close> sees the
  effect and the kernel state it was issued in.
\<close>

definition emits :: "(effect \<times> 'k \<Rightarrow> bool) \<Rightarrow> ('k, 'z, 'a) host_op \<Rightarrow> bool" where
  "emits A f \<longleftrightarrow>
     (\<forall>s. \<exists>new. history (snd (f s)) = history s @ new \<and> list_all A new)"

named_theorems emits_intro "effects an operation issues"

lemma emitsD:
  assumes "emits A f" and "f s = (r, s')"
  obtains new where "history s' = history s @ new" and "list_all A new"
  using assms unfolding emits_def by (metis snd_conv)

lemma emits_mono: "emits A f \<Longrightarrow> (\<And>x. A x \<Longrightarrow> B x) \<Longrightarrow> emits B f"
  unfolding emits_def by (metis list_all_iff)

lemma emits_basic [emits_intro]:
  "emits A (retE x)" "emits A (failE e)" "emits A (liftE r)" "emits A (getE g)"
  "emits A (look h)" "emits A (look_result h')"
  by (simp_all add: emits_def oper_defs host_defs)

lemma emits_modE [emits_intro]:
  "(\<And>s. history (h s) = history s) \<Longrightarrow> emits A (modE h)"
  by (simp add: emits_def modE_def)

lemma emits_bind [emits_intro]:
  assumes f: "emits A f" and g: "\<And>x. emits A (g x)"
  shows "emits A (bindE f g)"
  unfolding emits_def
proof
  fix s
  obtain r s1 where fs: "f s = (r, s1)" by fastforce
  obtain n1 where n1: "history s1 = history s @ n1" "list_all A n1"
    using emitsD [OF f fs] by blast
  show "\<exists>new. history (snd (bindE f g s)) = history s @ new \<and> list_all A new"
  proof (cases r)
    case (Inl e)
    then show ?thesis using fs n1 by (auto simp: bindE_def)
  next
    case (Inr x)
    obtain r2 s2 where gs: "g x s1 = (r2, s2)" by fastforce
    obtain n2 where "history s2 = history s1 @ n2" "list_all A n2"
      using emitsD [OF g gs] by blast
    then show ?thesis using fs gs n1 Inr by (auto simp: bindE_def)
  qed
qed

lemma emits_wrap [emits_intro]:
  "emits A f \<Longrightarrow> emits A (tryE f)"
  "emits A f \<Longrightarrow> emits A (ctxE m f)"
  "emits A f \<Longrightarrow> emits A (ignoreE f)"
  by (auto simp: emits_def tryE_def ctxE_def ignoreE_def case_prod_beta)

lemma emits_issue [emits_intro]: "(\<And>k. A (e, k)) \<Longrightarrow> emits A (issue e f)"
  by (simp add: emits_def issue_apply)

lemma emits_prims [emits_intro]:
  "(\<And>k. A (e, k)) \<Longrightarrow> emits A (sys E e)"
  "(\<And>k. A (Write p v, k)) \<Longrightarrow> emits A (fs_write E p v)"
  "(\<And>k. A (Run b args, k)) \<Longrightarrow> emits A (run E b args)"
  "(\<And>k. A (Notify n, k)) \<Longrightarrow> emits A (notify n)"
  by (auto simp: host_defs intro: emits_issue)

lemma emits_if [emits_intro]:
  "(b \<Longrightarrow> emits A f) \<Longrightarrow> (\<not> b \<Longrightarrow> emits A g) \<Longrightarrow> emits A (if b then f else g)"
  by simp

lemma emits_option [emits_intro]:
  "(x = None \<Longrightarrow> emits A f) \<Longrightarrow> (\<And>y. x = Some y \<Longrightarrow> emits A (g y)) \<Longrightarrow>
     emits A (case x of None \<Rightarrow> f | Some y \<Rightarrow> g y)"
  by (cases x) simp_all

lemma emits_sum [emits_intro]:
  "(\<And>e. x = Inl e \<Longrightarrow> emits A (f e)) \<Longrightarrow> (\<And>y. x = Inr y \<Longrightarrow> emits A (g y)) \<Longrightarrow>
     emits A (case x of Inl e \<Rightarrow> f e | Inr y \<Rightarrow> g y)"
  by (cases x) simp_all

lemma emits_list [emits_intro]:
  "(x = [] \<Longrightarrow> emits A f) \<Longrightarrow> (\<And>y ys. x = y # ys \<Longrightarrow> emits A (g y ys)) \<Longrightarrow>
     emits A (case x of [] \<Rightarrow> f | y # ys \<Rightarrow> g y ys)"
  by (cases x) simp_all

lemma emits_prod [emits_intro]:
  "(\<And>a b. x = (a, b) \<Longrightarrow> emits A (f a b)) \<Longrightarrow> emits A (case x of (a, b) \<Rightarrow> f a b)"
  by (cases x) simp

lemma emits_let [emits_intro]: "(\<And>y. y = x \<Longrightarrow> emits A (f y)) \<Longrightarrow> emits A (let y = x in f y)"
  by simp

lemma emits_forE [emits_intro]:
  "(\<And>d. d \<in> set ds \<Longrightarrow> emits A (f d)) \<Longrightarrow> emits A (forE ds f)"
  by (induction ds) (auto intro: emits_intro)

text \<open>The same from one given state, for effects that depend on what was read before them.\<close>

definition emits_at ::
  "(effect \<times> 'k \<Rightarrow> bool) \<Rightarrow> ('k, 'z, 'a) host_op \<Rightarrow> ('k, 'z) host_scheme \<Rightarrow> bool" where
  "emits_at A f s \<longleftrightarrow> (\<exists>new. history (snd (f s)) = history s @ new \<and> list_all A new)"

lemma emits_at_all: "emits A f \<longleftrightarrow> (\<forall>s. emits_at A f s)"
  by (simp add: emits_def emits_at_def)

lemma emits_at_emits: "emits A f \<Longrightarrow> emits_at A f s"
  by (simp add: emits_at_all)

lemma emits_atI:
  "(\<And>s. emits_at A f s) \<Longrightarrow> emits A f"
  by (simp add: emits_at_all)

lemma emits_at_cong_snd: "snd (f s) = snd (g s) \<Longrightarrow> emits_at A f s \<longleftrightarrow> emits_at A g s"
  by (simp add: emits_at_def)

lemma emits_atD:
  assumes "emits_at A f s" and "f s = (r, t)" and "x \<in> set (drop (length (history s)) (history t))"
  shows "A x"
  using assms by (auto simp: emits_at_def list_all_iff)

lemma emits_at_bind:
  assumes f: "emits_at A f s"
    and g: "\<And>x s1. f s = (Inr x, s1) \<Longrightarrow> emits_at A (g x) s1"
  shows "emits_at A (bindE f g) s"
proof -
  obtain r s1 where fs: "f s = (r, s1)" by fastforce
  obtain n1 where n1: "history s1 = history s @ n1" "list_all A n1"
    using f fs by (auto simp: emits_at_def)
  show ?thesis
  proof (cases r)
    case (Inl e)
    then show ?thesis using fs n1 by (auto simp: emits_at_def bindE_def)
  next
    case (Inr x)
    then obtain n2 where "history (snd (g x s1)) = history s1 @ n2" "list_all A n2"
      using g fs by (auto simp: emits_at_def)
    then show ?thesis using fs n1 Inr by (auto simp: emits_at_def bindE_def)
  qed
qed

lemma emits_at_pure:
  "emits_at A (bindE (look h) g) s \<longleftrightarrow> emits_at A (g (h (kern s))) s"
  "emits_at A (bindE (getE h') g') s \<longleftrightarrow> emits_at A (g' (h' s)) s"
  by (simp_all add: emits_at_def look_def bindE_def getE_def)

lemma emits_at_wrap:
  "emits_at A (ctxE m f) s \<longleftrightarrow> emits_at A f s"
  "emits_at A (ignoreE f) s \<longleftrightarrow> emits_at A f s"
  "emits_at A (tryE f) s \<longleftrightarrow> emits_at A f s"
  by (simp_all add: emits_at_def ctxE_apply ignoreE_apply tryE_apply)

lemma emits_at_write [simp]:
  "emits_at A (fs_write E p v) s \<longleftrightarrow> A (Write p v, kern s)"
  by (simp add: emits_at_def host_defs issue_apply)

text \<open>
  \<open>issues es f\<close>: \<open>f\<close> issues exactly \<open>es\<close> when it succeeds and a beginning of \<open>es\<close> when it
  fails, whatever the environment answers.
\<close>

definition issues :: "effect list \<Rightarrow> ('k, 'z, 'a) host_op \<Rightarrow> bool" where
  "issues es f \<longleftrightarrow>
     (\<forall>s. \<exists>new. history (snd (f s)) = history s @ new \<and> prefix (map fst new) es \<and>
        (is_ok (fst (f s)) \<longrightarrow> map fst new = es))"

lemma issuesD:
  assumes "issues es f" and "f s = (r, t)"
  shows "\<exists>new. history t = history s @ new \<and> prefix (map fst new) es \<and>
     (is_ok r \<longrightarrow> map fst new = es)"
  using assms unfolding issues_def by (metis fst_conv snd_conv)

named_theorems issues_intro "exact sequences of effects"

lemma issues_basic [issues_intro]:
  "issues [] (retE x)" "issues [] (getE g)" "issues es (failE err)" "issues [] (liftE r)"
  "issues [e] (sys E e)" "issues [Write p v] (fs_write E p v)"
  by (auto simp: issues_def oper_defs host_defs issue_apply issue_def case_prod_beta)

lemma issues_modE: "(\<And>s. history (h s) = history s) \<Longrightarrow> issues [] (modE h)"
  by (auto simp: issues_def modE_def)

lemma issues_ctxE [issues_intro]: "issues es f \<Longrightarrow> issues es (ctxE m f)"
  by (auto simp: issues_def ctxE_apply is_ok_def with_context_def split: sum.splits)

lemma issues_bind:
  assumes f: "issues es f" and g: "\<And>x. issues es' (g x)"
  shows "issues (es @ es') (bindE f g)"
  unfolding issues_def
proof
  fix s
  obtain r s1 where fs: "f s = (r, s1)" by fastforce
  obtain n1 where n1: "history s1 = history s @ n1" "prefix (map fst n1) es"
    "is_ok r \<longrightarrow> map fst n1 = es"
    using f fs unfolding issues_def by (metis fst_conv snd_conv)
  show "\<exists>new. history (snd (bindE f g s)) = history s @ new \<and> prefix (map fst new) (es @ es') \<and>
      (is_ok (fst (bindE f g s)) \<longrightarrow> map fst new = es @ es')"
  proof (cases r)
    case (Inl e)
    then show ?thesis using fs n1 by (auto simp: bindE_def)
  next
    case (Inr x)
    obtain n2 where "history (snd (g x s1)) = history s1 @ n2" "prefix (map fst n2) es'"
      "is_ok (fst (g x s1)) \<longrightarrow> map fst n2 = es'"
      using g unfolding issues_def by blast
    then show ?thesis
      using fs n1 Inr by (intro exI [of _ "n1 @ n2"]) (auto simp: bindE_def)
  qed
qed

lemma issues_bind_silent: "issues [] f \<Longrightarrow> (\<And>x. issues es (g x)) \<Longrightarrow> issues es (bindE f g)"
  using issues_bind [of "[]" f es g] by simp

lemma issues_bind_one: "issues [e] f \<Longrightarrow> (\<And>x. issues es (g x)) \<Longrightarrow> issues (e # es) (bindE f g)"
  using issues_bind [of "[e]" f es g] by simp

lemma issues_lift_bind:
  "(\<And>x. r = Inr x \<Longrightarrow> issues es (g x)) \<Longrightarrow> issues es (bindE (liftE r) g)"
  by (cases r) (auto simp: issues_def bindE_def liftE_def)

text \<open>An operation that issues nothing leaves the history as it was.\<close>

definition silent :: "('k, 'z, 'a) host_op \<Rightarrow> bool" where
  "silent f \<longleftrightarrow> (\<forall>s. history (snd (f s)) = history s)"

lemma list_all_False: "list_all (\<lambda>_. False) xs \<longleftrightarrow> xs = []"
  by (cases xs) auto

lemma emits_silent: "emits (\<lambda>_. False) f \<longleftrightarrow> silent f"
  by (auto simp: emits_def silent_def list_all_False)

section \<open>Verified changes\<close>

text \<open>
  The contract of an operation that changes something outside and looks until the change has
  taken place: when it succeeds, some effect it issued was answered by what the caller wanted
  to see. \<open>seen x\<close> says that an issued effect, in the kernel state it was issued in, got such
  an answer about \<open>x\<close>.
\<close>

definition fresh_effects :: "('k, 'z) host_scheme \<Rightarrow> ('k, 'z) host_scheme \<Rightarrow> (effect \<times> 'k) set" where
  "fresh_effects s t = set (drop (length (history s)) (history t))"

lemma fresh_effects_append:
  "history t = history s @ new \<Longrightarrow> fresh_effects s t = set new"
  by (simp add: fresh_effects_def)

locale verified_change =
  fixes change :: "'x \<Rightarrow> ('k, 'z, unit) host_op"
    and seen :: "'x \<Rightarrow> effect \<times> 'k \<Rightarrow> bool"
  assumes change_seen: "change x s = (Inr (), t) \<Longrightarrow> \<exists>e\<in>fresh_effects s t. seen x e"
    and change_extends: "emits (\<lambda>_. True) (change x)"
begin

lemma all_changes_seen:
  assumes "forE xs change s = (Inr (), t)" and "x \<in> set xs"
  shows "\<exists>e\<in>fresh_effects s t. seen x e"
  using assms
proof (induction xs arbitrary: s)
  case (Cons y ys)
  then obtain s1 where first: "change y s = (Inr (), s1)" and rest: "forE ys change s1 = (Inr (), t)"
    by (auto simp: bindE_Inr_iff)
  obtain n1 where n1: "history s1 = history s @ n1" using emitsD [OF change_extends first] by blast
  obtain n2 where n2: "history t = history s1 @ n2"
    using emitsD [OF emits_forE rest] change_extends by blast
  have "fresh_effects s t = fresh_effects s s1 \<union> fresh_effects s1 t"
    using n1 n2 by (simp add: fresh_effects_append)
  then show ?case
    using change_seen [OF first] Cons.IH [OF rest] Cons.prems(2) by auto
qed simp

lemma chosen_changes_seen:
  assumes "forE xs (\<lambda>x. if P x then retE () else change x) s = (Inr (), t)"
    and "x \<in> set xs" and "\<not> P x"
  shows "\<exists>e\<in>fresh_effects s t. seen x e"
proof -
  have "forE ys (\<lambda>x. if P x then retE () else change x) = forE (filter (\<lambda>x. \<not> P x) ys) change" for ys
    by (induction ys) (simp_all add: bind_pure)
  then show ?thesis using all_changes_seen [of "filter (\<lambda>x. \<not> P x) xs" s t x] assms by simp
qed

end

section \<open>Aggregating failures\<close>

text \<open>\<open>aggregate\<close> of \<open>src/manager.rs\<close>.\<close>

definition aggregate :: "string list \<Rightarrow> unit result" where
  "aggregate failures = (if failures = [] then Inr () else Inl (Bail (join ''; '' failures)))"

text \<open>
  The loop every multi-device operation shares: run the step on each device, collect
  \<open>name: error\<close> for those that fail, go on, and report them together at the end.
\<close>

fun each :: "('d \<Rightarrow> string) \<Rightarrow> ('d \<Rightarrow> ('s, unit) oper) \<Rightarrow> 'd list \<Rightarrow> ('s, string list) oper" where
  "each name step [] = retE []"
| "each name step (d # ds) =
     bindE (tryE (step d)) (\<lambda>r.
     bindE (each name step ds) (\<lambda>fs.
     retE (case r of Inl e \<Rightarrow> (name d @ '': '' @ error_msg e) # fs | Inr _ \<Rightarrow> fs)))"

definition for_each :: "('d \<Rightarrow> string) \<Rightarrow> ('d \<Rightarrow> ('s, unit) oper) \<Rightarrow> 'd list \<Rightarrow> ('s, unit) oper" where
  "for_each name step ds = bindE (each name step ds) (\<lambda>fs. liftE (aggregate fs))"

lemma emits_each [emits_intro]:
  "(\<And>d. d \<in> set ds \<Longrightarrow> emits A (step d)) \<Longrightarrow> emits A (each name step ds)"
  by (induction ds) (auto intro!: emits_intro split: sum.split)

lemma emits_for_each [emits_intro]:
  "(\<And>d. d \<in> set ds \<Longrightarrow> emits A (step d)) \<Longrightarrow> emits A (for_each name step ds)"
  by (auto simp: for_each_def intro!: emits_intro)

text \<open>A loop whose effects depend on an invariant that its steps keep.\<close>

lemma emits_at_each:
  assumes "\<And>d s. d \<in> set ds \<Longrightarrow> J s \<Longrightarrow> emits_at A (step d) s \<and> J (snd (step d s))" and "J s"
  shows "emits_at A (each name step ds) s \<and> J (snd (each name step ds s))"
  using assms
proof (induction ds arbitrary: s)
  case Nil
  then show ?case by (simp add: emits_at_def retE_def)
next
  case (Cons d ds)
  have d: "emits_at A (step d) s" "J (snd (step d s))" using Cons.prems by auto
  have rest: "emits_at A (each name step ds) (snd (step d s))"
    "J (snd (each name step ds (snd (step d s))))"
    using Cons.IH [OF _ d(2)] Cons.prems(1) by auto
  obtain n1 n2 where
    "history (snd (step d s)) = history s @ n1" "list_all A n1"
    "history (snd (each name step ds (snd (step d s)))) = history (snd (step d s)) @ n2"
    "list_all A n2"
    using d(1) rest(1) by (auto simp: emits_at_def)
  then show ?case
    using rest(2)
    by (cases "each name step ds (snd (step d s))")
      (auto simp: emits_at_def bindE_apply tryE_apply retE_def split: sum.split)
qed

lemma emits_at_for_each:
  assumes "\<And>d s. d \<in> set ds \<Longrightarrow> J s \<Longrightarrow> emits_at A (step d) s \<and> J (snd (step d s))" and "J s"
  shows "emits_at A (for_each name step ds) s \<and> J (snd (for_each name step ds s))"
  using emits_at_each [of ds J A step s name] assms
  by (cases "each name step ds s")
    (auto simp: for_each_def emits_at_def bindE_apply liftE_def split: sum.split)

lemma each_silent: "each name step ds s = (Inr [], t) \<longleftrightarrow> forE ds step s = (Inr (), t)"
proof (induction ds arbitrary: s)
  case Nil
  then show ?case by (auto simp: retE_def)
next
  case (Cons d ds)
  obtain r s1 where d: "step d s = (r, s1)" by fastforce
  obtain q s2 where rest: "each name step ds s1 = (q, s2)" by fastforce
  show ?case
    using Cons.IH [of s1] d rest
    by (cases r; cases q) (auto simp: bindE_apply tryE_apply retE_def)
qed

lemma for_each_Inr: "for_each name step ds s = (Inr (), t) \<longleftrightarrow> forE ds step s = (Inr (), t)"
proof -
  obtain q u where e: "each name step ds s = (q, u)" by fastforce
  show ?thesis
  proof (cases q)
    case (Inl err)
    then show ?thesis using each_silent [of name step ds s t] e by (simp add: for_each_def bindE_apply)
  next
    case (Inr fs)
    then show ?thesis
      using each_silent [of name step ds s t] e
      by (cases fs) (auto simp: for_each_def bindE_apply liftE_def aggregate_def)
  qed
qed

lemma triple_for_each:
  assumes "\<And>d. d \<in> set ds \<Longrightarrow> triple I (step d) (\<lambda>_. I) (\<lambda>_ _. True)"
  shows "triple I (for_each name step ds) (\<lambda>_. I) (\<lambda>_ _. True)"
  using triple_forE [of ds I step "\<lambda>_ _. True", OF assms] for_each_Inr [of name step ds]
  by (auto simp: triple_def split: prod.splits sum.splits)

lemma triple_for_each_last:
  assumes "\<And>d. d \<in> set ds \<Longrightarrow> triple I (step d) (\<lambda>_. J) (\<lambda>_ _. True)"
    and "ds \<noteq> []" and "\<And>s. J s \<Longrightarrow> I s"
  shows "triple I (for_each name step ds) (\<lambda>_. J) (\<lambda>_ _. True)"
proof -
  obtain d ds' where ds: "ds = d # ds'" using assms(2) by (cases ds) auto
  have "triple J (forE ds' step) (\<lambda>_. J) (\<lambda>_ _. True)"
    by (rule triple_forE, rule triple_conseq [OF assms(1)]) (simp_all add: ds assms(3))
  then have "triple I (forE ds step) (\<lambda>_. J) (\<lambda>_ _. True)"
    using assms(1) by (auto simp: ds intro: triple_bind)
  then show ?thesis
    using for_each_Inr [of name step ds] by (auto simp: triple_def split: prod.splits sum.splits)
qed

text \<open>A loop whose every step succeeds establishes, for each element, what its step does, if the
  other steps do not undo it.\<close>

lemma forE_keeps_ok:
  assumes "forE ds f s = (Inr (), t)" and "I s"
    and "\<And>d s t. d \<in> set ds \<Longrightarrow> I s \<Longrightarrow> f d s = (Inr (), t) \<Longrightarrow> I t"
  shows "I t"
  using assms
proof (induction ds arbitrary: s)
  case Nil
  then show ?case by (simp add: retE_def)
next
  case (Cons d ds)
  obtain s1 where d: "f d s = (Inr (), s1)" and rest: "forE ds f s1 = (Inr (), t)"
    using Cons.prems(1) by (auto simp: bindE_Inr_iff)
  have "I s1" using Cons.prems(3) [OF _ Cons.prems(2) d] by simp
  show ?case
    by (rule Cons.IH [OF rest \<open>I s1\<close>], rule Cons.prems(3); simp)
qed

lemma forE_all:
  assumes "forE ds f s = (Inr (), t)" and "I s"
    and step: "\<And>d s t. d \<in> set ds \<Longrightarrow> I s \<Longrightarrow> f d s = (Inr (), t) \<Longrightarrow> I t \<and> Q d t"
    and stable: "\<And>d d' s t. d' \<in> set ds \<Longrightarrow> I s \<Longrightarrow> Q d s \<Longrightarrow> f d' s = (Inr (), t) \<Longrightarrow> Q d t"
  shows "\<forall>d\<in>set ds. Q d t"
  using assms
proof (induction ds arbitrary: s)
  case Nil
  show ?case by simp
next
  case (Cons d ds)
  obtain s1 where d: "f d s = (Inr (), s1)" and rest: "forE ds f s1 = (Inr (), t)"
    using Cons.prems(1) by (auto simp: bindE_Inr_iff)
  have s1: "I s1 \<and> Q d s1" using Cons.prems(3) [OF _ Cons.prems(2) d] by simp
  have "I t \<and> Q d t"
  proof (rule forE_keeps_ok [where I = "\<lambda>s. I s \<and> Q d s", OF rest s1])
    fix e u u' assume e: "e \<in> set ds" "f e u = (Inr (), u')" and "I u \<and> Q d u"
    then show "I u' \<and> Q d u'"
      using Cons.prems(3) [of e u u'] Cons.prems(4) [of e u d u'] by simp
  qed
  moreover have "\<forall>e\<in>set ds. Q e t"
    by (rule Cons.IH [OF rest conjunct1 [OF s1]], rule Cons.prems(3), simp_all, rule Cons.prems(4), simp_all)
  ultimately show ?case by simp
qed

text \<open>The state in which such a loop comes to its \<open>i\<close>-th element.\<close>

definition at_turn :: "'d list \<Rightarrow> ('d \<Rightarrow> ('s, unit) oper) \<Rightarrow> nat \<Rightarrow> 's \<Rightarrow> 's" where
  "at_turn ds f i s = snd (forE (take i ds) f s)"

lemma forE_at_turn:
  assumes "forE ds f s = (Inr (), t)" and "i < length ds"
  shows "f (ds ! i) (at_turn ds f i s) = (Inr (), at_turn ds f (Suc i) s) \<and>
    forE (drop (Suc i) ds) f (at_turn ds f (Suc i) s) = (Inr (), t)"
  using assms
proof (induction ds arbitrary: s i)
  case (Cons d ds)
  obtain s1 where d: "f d s = (Inr (), s1)" and rest: "forE ds f s1 = (Inr (), t)"
    using Cons.prems(1) by (auto simp: bindE_Inr_iff)
  show ?case
    using d rest Cons.IH [OF rest] Cons.prems(2) by (cases i) (simp_all add: at_turn_def op_simps)
qed simp

lemma forE_notify:
  "\<exists>h. forE xs (\<lambda>(key, d). notify (f d)) s = (Inr (), s\<lparr>history := h\<rparr>)"
proof (induction xs arbitrary: s)
  case Nil
  show ?case by (rule exI [of _ "history s"]) (simp add: retE_def)
next
  case (Cons x xs)
  obtain key d where x: "x = (key, d)" by fastforce
  have "notify (f d) s = (Inr (), s\<lparr>history := history s @ [(Notify (f d), kern s)]\<rparr>)"
    by (simp add: notify_def issue_def)
  then show ?case
    using Cons.IH [of "s\<lparr>history := history s @ [(Notify (f d), kern s)]\<rparr>"]
    by (simp add: x bindE_apply)
qed

lemma keeps_each [keeps_intro]:
  "(\<And>d. d \<in> set ds \<Longrightarrow> keeps I (step d)) \<Longrightarrow> keeps I (each name step ds)"
  by (induction ds) (auto intro!: keeps_intro split: sum.split)

lemma keeps_for_each [keeps_intro]:
  "(\<And>d. d \<in> set ds \<Longrightarrow> keeps I (step d)) \<Longrightarrow> keeps I (for_each name step ds)"
  by (auto simp: for_each_def intro!: keeps_intro)

end
