(* ===== verification/Config.thy ===== *)
theory Config
  imports Host
begin

text \<open>
  Rule matching and validation, \<open>src/config.rs\<close>. Rules and selectors stay the JSON values
  the file holds. The regular-expression engine and the two module tools are fields of the
  environment; a pattern that does not compile matches nothing.
\<close>

section \<open>Selector primitives\<close>

definition auth_enabled :: "usb_authorization \<Rightarrow> bool" where
  "auth_enabled a =
     (case auth_enable a of
        Some b \<Rightarrow> b
      | None \<Rightarrow> (case auth_disable a of None \<Rightarrow> False | Some d \<Rightarrow> \<not> d))"

definition case_eq :: "string option \<Rightarrow> string option \<Rightarrow> bool" where
  "case_eq l r =
     (case (l, r) of (Some a, Some b) \<Rightarrow> eq_ignore_ascii_case a b | _ \<Rightarrow> False)"

definition regex_match ::
  "('k, 'y) env_scheme \<Rightarrow> string option \<Rightarrow> string option \<Rightarrow> bool" where
  "regex_match E pat v =
     (case (pat, v) of
        (Some p, Some x) \<Rightarrow>
          (case regex E (''^(?:'' @ p @ '')'') of None \<Rightarrow> False | Some m \<Rightarrow> m x)
      | _ \<Rightarrow> False)"

definition hex_text :: "string option \<Rightarrow> 32 word option" where
  "hex_text v = Option.bind v parse_hex_u32"

definition widen :: "32 word option \<Rightarrow> 64 word option" where
  "widen x = map_option ucast x"

definition none_or :: "64 word option \<Rightarrow> 32 word option \<Rightarrow> bool" where
  "none_or wanted actual = (case wanted of None \<Rightarrow> True | Some v \<Rightarrow> Some v = widen actual)"

section \<open>USB selectors\<close>

definition removable_excludes :: "json \<Rightarrow> usb_device \<Rightarrow> bool" where
  "removable_excludes sel d =
     (case get_array sel ''removable'' of
        None \<Rightarrow> False
      | Some vs \<Rightarrow>
          \<not> list_ex (\<lambda>v. case removable d of None \<Rightarrow> False | Some a \<Rightarrow> eq_ignore_ascii_case a v)
              (List.map_filter as_str vs))"

definition class_triple_matches ::
  "json \<Rightarrow> string \<Rightarrow> string \<Rightarrow> string \<Rightarrow> usb_interface \<Rightarrow> bool" where
  "class_triple_matches sel kc ks kp i =
     (get_u64 sel kc \<noteq> None \<and> get_u64 sel kc = widen (iclass i) \<and>
      none_or (get_u64 sel ks) (isubclass i) \<and> none_or (get_u64 sel kp) (iprotocol i))"

definition usb_selector_base :: "('k, 'y) env_scheme \<Rightarrow> json \<Rightarrow> usb_device \<Rightarrow> bool" where
  "usb_selector_base E sel d =
     (if \<not> enabled sel then False
      else if removable_excludes sel d then False
      else if case_eq (get_str sel ''vendorId'') (vid d) \<and>
              case_eq (get_str sel ''productId'') (pid d) then True
      else if regex_match E (get_str sel ''vendorName'') (vendor_name d) \<or>
              regex_match E (get_str sel ''productName'') (product_name d) then True
      else if get_u64 sel ''bus'' = widen (bus d) \<and> get_u64 sel ''port'' = widen (root_port d) \<and>
              get sel ''bus'' \<noteq> None \<and> get sel ''port'' \<noteq> None then True
      else if get_u64 sel ''deviceClass'' \<noteq> None \<and>
              get_u64 sel ''deviceClass'' = widen (device_class d) then
        none_or (get_u64 sel ''deviceSubclass'') (device_subclass d) \<and>
        none_or (get_u64 sel ''deviceProtocol'') (device_protocol d)
      else list_ex (class_triple_matches sel ''interfaceClass'' ''interfaceSubclass''
                      ''interfaceProtocol'') (interfaces d))"

section \<open>Module paths and their cache\<close>

text \<open>What \<open>modprobe -R\<close> and \<open>modinfo -n\<close> resolve a modalias to.\<close>

definition resolve_modules :: "('k, 'y) env_scheme \<Rightarrow> config \<Rightarrow> string \<Rightarrow> string list" where
  "resolve_modules E c alias =
     (let modules = (case modprobe E (modprobe_binary c) alias of None \<Rightarrow> [] | Some out \<Rightarrow> out)
      in filter (\<lambda>p. p \<noteq> [])
           (List.map_filter (\<lambda>m. map_option trim (modinfo E (modinfo_binary c) m))
              (lines modules)))"

type_synonym driver_cache = "string \<Rightarrow> string list option"

definition module_paths ::
  "('k, 'y) env_scheme \<Rightarrow> config \<Rightarrow> string \<Rightarrow> driver_cache \<Rightarrow> string list \<times> driver_cache" where
  "module_paths E c alias cache =
     (case cache alias of
        Some cached \<Rightarrow> (cached, cache)
      | None \<Rightarrow> (let paths = resolve_modules E c alias in (paths, cache(alias := Some paths))))"

definition cache_coherent ::
  "('k, 'y) env_scheme \<Rightarrow> config \<Rightarrow> driver_cache \<Rightarrow> bool" where
  "cache_coherent E c cache \<longleftrightarrow>
     (\<forall>alias paths. cache alias = Some paths \<longrightarrow> paths = resolve_modules E c alias)"

text \<open>
  Since a coherent cache returns what resolution returns (\<open>module_paths_coherent\<close>), the
  matching functions below resolve directly.
\<close>

lemma module_paths_coherent:
  assumes "cache_coherent E c cache" and "module_paths E c alias cache = (paths, cache')"
  shows "paths = resolve_modules E c alias" and "cache_coherent E c cache'"
  using assms
  by (auto simp: module_paths_def cache_coherent_def Let_def split: option.splits if_splits)

definition has_valid_interface :: "usb_device \<Rightarrow> bool" where
  "has_valid_interface d =
     list_ex (\<lambda>i. case iclass i of None \<Rightarrow> False | Some c \<Rightarrow> c \<noteq> 0 \<and> c \<noteq> 0xff) (interfaces d)"

definition usb_selector_matches ::
  "('k, 'y) env_scheme \<Rightarrow> config \<Rightarrow> json \<Rightarrow> usb_device \<Rightarrow> bool" where
  "usb_selector_matches E c sel d =
     (if usb_selector_base E sel d then True
      else case (if has_valid_interface d then None else get_str sel ''driverPath'') of
             None \<Rightarrow> False
           | Some p \<Rightarrow>
               (case regex E (''^(?:'' @ p @ '')'') of
                  None \<Rightarrow> False
                | Some m \<Rightarrow>
                    list_ex m (driver_paths d @
                      concat (map (resolve_modules E c) (modaliases d)))))"

section \<open>PCI selectors\<close>

definition pci_selector_matches :: "json \<Rightarrow> pci_device \<Rightarrow> bool" where
  "pci_selector_matches sel d =
     (if \<not> enabled sel then False
      else if case_eq (get_str sel ''address'') (Some (address d)) then True
      else if hex_text (get_str sel ''vendorId'') = vendor_id d \<and>
              hex_text (get_str sel ''deviceId'') = device_id d \<and>
              get sel ''vendorId'' \<noteq> None \<and> get sel ''deviceId'' \<noteq> None then True
      else if get_u64 sel ''deviceClass'' \<noteq> None \<and>
              get_u64 sel ''deviceClass'' = widen (pci_class d) then
        none_or (get_u64 sel ''deviceSubclass'') (pci_subclass d) \<and>
        none_or (get_u64 sel ''deviceProgIf'') (prog_if d)
      else False)"

section \<open>Rules\<close>

definition rule_matches :: "(json \<Rightarrow> 'd \<Rightarrow> bool) \<Rightarrow> json \<Rightarrow> 'd \<Rightarrow> bool" where
  "rule_matches matcher rule d =
     (if \<not> enabled rule then False
      else list_ex (\<lambda>s. matcher s d) (items rule ''allow'') \<and>
           \<not> list_ex (\<lambda>s. matcher s d) (items rule ''deny''))"

definition usb_rule_match :: "json \<Rightarrow> rule_match" where
  "usb_rule_match rule =
     \<lparr>target_vm = string_field rule ''targetVm'', allowed_vms_list = string_list rule ''allowedVms'',
      skip_on_suspend = bool_value rule ''skipOnSuspend'', iommu_add_all = False,
      iommu_skip_if_shared = False, crosvm_use_root_bus = False,
      tag = string_field rule ''tag'', order = 0\<rparr>"

definition usb_rule_applies ::
  "('k, 'y) env_scheme \<Rightarrow> config \<Rightarrow> usb_device \<Rightarrow> json \<Rightarrow> bool" where
  "usb_rule_applies E c d rule \<longleftrightarrow>
     rule_matches (usb_selector_matches E c) rule d \<and>
     (string_field rule ''targetVm'' \<noteq> None \<or> string_list rule ''allowedVms'' \<noteq> [])"

definition usb_rule :: "('k, 'y) env_scheme \<Rightarrow> config \<Rightarrow> usb_device \<Rightarrow> rule_match option" where
  "usb_rule E c d = map_option usb_rule_match (List.find (usb_rule_applies E c d) (usb_passthrough c))"

definition usb_authorization_host_allowed ::
  "('k, 'y) env_scheme \<Rightarrow> config \<Rightarrow> usb_device \<Rightarrow> bool" where
  "usb_authorization_host_allowed E c d \<longleftrightarrow>
     auth_enabled (authorization_policy c) \<and>
     list_ex (\<lambda>s. usb_selector_matches E c s d) (host_allow (authorization_policy c))"

text \<open>
  \<open>pci_rule\<close>: \<open>order\<close> counts the allow entries tried, over the enabled rules, up to the
  first that matches in each rule.
\<close>

fun try_allow :: "pci_device \<Rightarrow> nat \<Rightarrow> json list \<Rightarrow> bool \<times> nat" where
  "try_allow d n [] = (False, n)"
| "try_allow d n (a # as) =
     (if pci_selector_matches a d then (True, Suc n) else try_allow d (Suc n) as)"

definition pci_rule_match :: "json \<Rightarrow> string \<Rightarrow> nat \<Rightarrow> rule_match" where
  "pci_rule_match rule target n =
     \<lparr>target_vm = Some target, allowed_vms_list = [],
      skip_on_suspend = bool_value rule ''skipOnSuspend'',
      iommu_add_all = bool_value rule ''pciIommuAddAll'',
      iommu_skip_if_shared = bool_value rule ''pciIommuSkipIfShared'',
      crosvm_use_root_bus = bool_value rule ''crosvmUseRootBus'',
      tag = string_field rule ''tag'', order = n\<rparr>"

fun pci_rule_from :: "pci_device \<Rightarrow> nat \<Rightarrow> json list \<Rightarrow> rule_match option" where
  "pci_rule_from d n [] = None"
| "pci_rule_from d n (rule # rules) =
     (if \<not> enabled rule then pci_rule_from d n rules
      else case try_allow d n (items rule ''allow'') of
             (found, n') \<Rightarrow>
               (let found' = (if list_ex (\<lambda>s. pci_selector_matches s d) (items rule ''deny'')
                              then False else found)
                in case string_field rule ''targetVm'' of
                     Some target \<Rightarrow> if found' then Some (pci_rule_match rule target n')
                                    else pci_rule_from d n' rules
                   | None \<Rightarrow> pci_rule_from d n' rules))"

definition pci_rule :: "config \<Rightarrow> pci_device \<Rightarrow> rule_match option" where
  "pci_rule c d = pci_rule_from d 0 (pci_passthrough c)"

definition routes_usb :: "config \<Rightarrow> bool" where
  "routes_usb c = list_ex enabled (usb_passthrough c)"

definition has_pci_rules :: "config \<Rightarrow> string \<Rightarrow> bool" where
  "has_pci_rules c v =
     list_ex (\<lambda>r. enabled r \<and> get_str r ''targetVm'' = Some v) (pci_passthrough c)"

section \<open>Validation and lookup\<close>

fun check_vms :: "string list \<Rightarrow> vm list \<Rightarrow> unit result" where
  "check_vms seen [] = Inr ()"
| "check_vms seen (v # vs) =
     (if vm_name v = [] \<or> vm_socket v = [] then Inl (Bail ''VM name and socket must not be empty'')
      else if vm_name v \<in> set seen then Inl (Bail (''duplicate VM name '' @ vm_name v))
      else check_vms (vm_name v # seen) vs)"

definition validate :: "config \<Rightarrow> unit result" where
  "validate c =
     (if list_ex (\<lambda>v. vm_kind v \<noteq> CrosvmVm) (vms c)
      then Inl (Bail ''ghaf-device-manager supports only Crosvm VMs'')
      else check_vms [] (vms c))"

text \<open>\<open>Config::load\<close>; \<open>parse\<close> is \<open>serde_json\<close>'s reading of the file.\<close>

definition load_config ::
  "('k, 'y) env_scheme \<Rightarrow> (string \<Rightarrow> config result) \<Rightarrow> path \<Rightarrow> 'k \<Rightarrow> config result" where
  "load_config E parse p k =
     (case read_text E p k of
        None \<Rightarrow>
          Inl (Context (''failed to read configuration '' @ path_str p) (Bail ''read_to_string''))
      | Some input \<Rightarrow>
          (case with_context (''failed to parse configuration '' @ path_str p) (parse input) of
             Inl e \<Rightarrow> Inl e
           | Inr c \<Rightarrow> (case validate c of Inl e \<Rightarrow> Inl e | Inr _ \<Rightarrow> Inr c)))"

definition find_vm :: "config \<Rightarrow> string \<Rightarrow> vm result" where
  "find_vm c name =
     option_context (''VM '' @ name @ '' is not found in the configuration'')
       (List.find (\<lambda>v. vm_name v = name) (vms c))"

definition allowed_vms :: "rule_match \<Rightarrow> string list" where
  "allowed_vms r =
     (case target_vm r of None \<Rightarrow> [] | Some t \<Rightarrow> [t]) @ allowed_vms_list r"

section \<open>Facts about selectors\<close>

text \<open>
  The interface between rules and selectors: on the devices \<open>covers\<close> describes, a
  disabled selector matches nothing. It is all \<open>rule_matches\<close> needs.
\<close>

locale selector_family =
  fixes matcher :: "json \<Rightarrow> 'd \<Rightarrow> bool"
    and covers :: "'d \<Rightarrow> bool"
  assumes disabled_matches_nothing: "covers d \<Longrightarrow> \<not> enabled sel \<Longrightarrow> \<not> matcher sel d"
begin

lemma rule_matches_iff:
  assumes "covers d"
  shows "rule_matches matcher rule d \<longleftrightarrow>
     enabled rule \<and>
     (\<exists>a\<in>set (items rule ''allow''). enabled a \<and> matcher a d) \<and>
     (\<forall>s\<in>set (items rule ''deny''). enabled s \<longrightarrow> \<not> matcher s d)"
  using disabled_matches_nothing [OF assms]
  by (auto simp: rule_matches_def list_ex_iff)

lemma all_allows_disabled:
  assumes "covers d" and "\<forall>a\<in>set (items rule ''allow''). \<not> enabled a"
  shows "\<not> rule_matches matcher rule d"
  using assms by (simp add: rule_matches_iff)

end

text \<open>
  The law holds for PCI, and for USB devices with a classified interface. For the others
  the \<open>driverPath\<close> branch of \<open>usb_selector_matches\<close> does not ask whether the selector
  is enabled.
\<close>

interpretation pci_sel: selector_family pci_selector_matches "\<lambda>_. True"
  by unfold_locales (simp add: pci_selector_matches_def)

interpretation usb_sel: selector_family "usb_selector_matches E c" has_valid_interface for E c
  by unfold_locales (simp add: usb_selector_matches_def usb_selector_base_def)

section \<open>Facts about rules\<close>

lemma find_Some_split:
  "List.find P xs = Some x \<Longrightarrow> \<exists>ys zs. xs = ys @ x # zs \<and> P x \<and> (\<forall>y\<in>set ys. \<not> P y)"
proof (induction xs)
  case (Cons a xs)
  show ?case
  proof (cases "P a")
    case True
    with Cons.prems show ?thesis by (intro exI [of _ "[]"] exI [of _ xs]) auto
  next
    case False
    with Cons obtain ys zs where "xs = ys @ x # zs \<and> P x \<and> (\<forall>y\<in>set ys. \<not> P y)" by auto
    with False show ?thesis by (intro exI [of _ "a # ys"] exI [of _ zs]) auto
  qed
qed simp

lemma usb_rule_Some:
  assumes "usb_rule E c d = Some r"
  obtains ys rule zs where "usb_passthrough c = ys @ rule # zs"
    and "usb_rule_applies E c d rule" and "\<forall>y\<in>set ys. \<not> usb_rule_applies E c d y"
    and "r = usb_rule_match rule"
  using assms unfolding usb_rule_def by (auto dest!: find_Some_split)

lemma allowed_vms_usb_rule_match:
  "allowed_vms (usb_rule_match rule) =
     (case string_field rule ''targetVm'' of None \<Rightarrow> [] | Some t \<Rightarrow> [t]) @
     string_list rule ''allowedVms''"
  by (simp add: allowed_vms_def usb_rule_match_def)

lemma usb_rule_has_vm: "usb_rule E c d = Some r \<Longrightarrow> allowed_vms r \<noteq> []"
  by (erule usb_rule_Some) (auto simp: allowed_vms_usb_rule_match usb_rule_applies_def
      split: option.splits)

lemma usb_rule_routes: "usb_rule E c d = Some r \<Longrightarrow> routes_usb c"
  by (erule usb_rule_Some)
    (auto simp: routes_usb_def usb_rule_applies_def rule_matches_def split: if_splits)

lemma try_allow_count:
  "try_allow d n as = (f, m) \<Longrightarrow> n \<le> m \<and> m \<le> n + length as \<and> (f \<longrightarrow> n < m)"
proof (induction as arbitrary: n)
  case (Cons a as)
  show ?case
  proof (cases "pci_selector_matches a d")
    case True
    with Cons.prems show ?thesis by auto
  next
    case False
    with Cons.prems have "try_allow d (Suc n) as = (f, m)" by simp
    from Cons.IH [OF this] show ?thesis by auto
  qed
qed simp

lemma try_allow_found:
  "try_allow d n as = (f, m) \<Longrightarrow> f \<longleftrightarrow> (\<exists>a\<in>set as. pci_selector_matches a d)"
  by (induction as arbitrary: n) (auto split: if_splits)

lemma load_config_valid: "load_config E parse p k = Inr c \<Longrightarrow> validate c = Inr ()"
  by (auto simp: load_config_def split: option.splits sum.splits)

lemma check_vms_ok:
  "check_vms seen vs = Inr () \<longleftrightarrow>
     (\<forall>v\<in>set vs. vm_name v \<noteq> [] \<and> vm_socket v \<noteq> []) \<and>
     distinct (map vm_name vs) \<and> set seen \<inter> vm_name ` set vs = {}"
  by (induction vs arbitrary: seen) auto

lemma find_vm_Inr:
  assumes "find_vm c name = Inr v"
  shows "v \<in> set (vms c)" and "vm_name v = name"
  using assms find_Some_split [of "\<lambda>v. vm_name v = name" "vms c" v] by (auto simp: find_vm_def)

end
