(* ===== verification/Crosvm.thy ===== *)
theory Crosvm
  imports Host
begin

text \<open>
  The Crosvm control client, \<open>src/crosvm.rs\<close>: one external command per request, with its
  reply parsed and checked. \<open>B\<close> is the \<open>binary\<close> field; the answers of the control
  socket are whatever \<open>exec\<close> of the environment returns.
\<close>

section \<open>Running a command\<close>

fun debug_char :: "char \<Rightarrow> string" where
  "debug_char c =
     (let n = of_char c :: nat in
      if c = CHR 0x22 \<or> n = 92 then [char_of (92 :: nat), c]
      else if n = 9 then [char_of (92 :: nat), CHR ''t'']
      else if n = 10 then [char_of (92 :: nat), CHR ''n'']
      else if n = 13 then [char_of (92 :: nat), CHR ''r'']
      else if n = 0 then [char_of (92 :: nat), CHR ''0'']
      else if n < 32 \<or> n = 127 then
        [char_of (92 :: nat), CHR ''u'', CHR 0x7B] @ show_hex 1 n @ [CHR 0x7D]
      else [c])"

definition debug_args :: "string list \<Rightarrow> string" where
  "debug_args args =
     ''['' @ join '', '' (map (\<lambda>a. [CHR 0x22] @ concat (map debug_char a) @ [CHR 0x22]) args) @ '']''"

definition int_str :: "int \<Rightarrow> string" where
  "int_str i = (if i < 0 then CHR ''-'' # show_dec (nat (- i)) else show_dec (nat i))"

definition command_failed :: "string list \<Rightarrow> cmd_output \<Rightarrow> error" where
  "command_failed args out =
     Bail (''Crosvm command '' @ debug_args args @ '' failed with code '' @ int_str (status out) @ '': '' @
       (if trim (stderr out) = [] then trim (stdout out) else trim (stderr out)))"

definition command ::
  "('k, 'y) env_scheme \<Rightarrow> path \<Rightarrow> string list \<Rightarrow> ('k, 'z, string) host_op" where
  "command E B args =
     bindE (run E B (''--no-syslog'' # args)) (\<lambda>out.
     if status out \<noteq> 0 then failE (command_failed args out) else retE (stdout out))"

section \<open>USB requests\<close>

type_synonym usb_entry = "8 word \<times> string \<times> string"

fun int_error :: "nat \<Rightarrow> nat \<Rightarrow> nat \<Rightarrow> string \<Rightarrow> string" where
  "int_error base bits acc [] = ''cannot parse integer from empty string''"
| "int_error base bits acc (c # cs) =
     (case digit_val base c of
        None \<Rightarrow> ''invalid digit found in string''
      | Some d \<Rightarrow> if 2 ^ bits \<le> acc * base + d then ''number too large to fit in target type''
                  else int_error base bits (acc * base + d) cs)"

fun parse_entries :: "string list \<Rightarrow> usb_entry list result" where
  "parse_entries (p # v # i # rest) =
     (case parse_u8 p of
        None \<Rightarrow> Inl (Context ''invalid Crosvm USB port'' (Bail (int_error 10 8 0 p)))
      | Some n \<Rightarrow>
          (case parse_entries rest of Inl e \<Rightarrow> Inl e | Inr es \<Rightarrow> Inr ((n, v, i) # es)))"
| "parse_entries _ = Inr []"

definition parse_usb_list :: "string \<Rightarrow> usb_entry list result" where
  "parse_usb_list out =
     (let malformed = Inl (Bail (''malformed Crosvm USB list response: '' @ trim out)) in
      case split_whitespace out of
        [] \<Rightarrow> malformed
      | f # rest \<Rightarrow>
          if f \<noteq> ''devices'' \<or> length rest mod 3 \<noteq> 0 then malformed else parse_entries rest)"

definition usb_list ::
  "('k, 'y) env_scheme \<Rightarrow> path \<Rightarrow> path \<Rightarrow> ('k, 'z, usb_entry list) host_op" where
  "usb_list E B socket =
     bindE (command E B [''usb'', ''list'', path_str socket]) (\<lambda>out. liftE (parse_usb_list out))"

definition attach_args :: "string \<Rightarrow> path \<Rightarrow> string list" where
  "attach_args node socket = [''usb'', ''attach'', ''00:00:00:00'', node, path_str socket]"

text \<open>
  The reply to an attach: \<open>ok PORT\<close>, \<open>ok\<close> alone (the new port is then the one added
  to the list), or \<open>no_available_port\<close>, which is retried.
\<close>

definition identify_port ::
  "('k, 'y) env_scheme \<Rightarrow> path \<Rightarrow> path \<Rightarrow> 8 word list \<Rightarrow> ('k, 'z, 8 word) host_op" where
  "identify_port E B socket old =
     bindE (usb_list E B socket) (\<lambda>after.
     case filter (\<lambda>p. p \<notin> set old) (map fst after) of
       [p] \<Rightarrow> retE p
     | _ \<Rightarrow> failE (Bail ''Crosvm attached USB but did not identify one new port''))"

fun attach_attempts ::
  "nat \<Rightarrow> ('k, 'y) env_scheme \<Rightarrow> path \<Rightarrow> path \<Rightarrow> string \<Rightarrow> 8 word list \<Rightarrow>
     ('k, 'z, 8 word) host_op" where
  "attach_attempts 0 E B socket node old =
     failE (Bail ''Crosvm USB attach timed out waiting for a free port'')"
| "attach_attempts (Suc n) E B socket node old =
     bindE (command E B (attach_args node socket)) (\<lambda>out.
     case split_whitespace out of
       [] \<Rightarrow> failE (Bail (''unexpected Crosvm USB attach response: '' @ trim out))
     | f # fs \<Rightarrow>
         if f = ''ok'' then
           (case (case fs of [] \<Rightarrow> None | p # _ \<Rightarrow> parse_u8 p) of
              Some p \<Rightarrow> retE p
            | None \<Rightarrow> identify_port E B socket old)
         else if f \<noteq> ''no_available_port'' then
           failE (Bail (''unexpected Crosvm USB attach response: '' @ trim out))
         else attach_attempts n E B socket node old)"

definition max_attempts :: nat where
  "max_attempts = 6"

definition usb_attach ::
  "('k, 'y) env_scheme \<Rightarrow> path \<Rightarrow> path \<Rightarrow> string \<Rightarrow> ('k, 'z, 8 word) host_op" where
  "usb_attach E B socket node =
     bindE (usb_list E B socket) (\<lambda>listed.
     attach_attempts max_attempts E B socket node (map fst listed))"

definition detach_args :: "8 word \<Rightarrow> path \<Rightarrow> string list" where
  "detach_args p socket = [''usb'', ''detach'', show_dec (unat p), path_str socket]"

definition usb_detach ::
  "('k, 'y) env_scheme \<Rightarrow> path \<Rightarrow> path \<Rightarrow> 8 word \<Rightarrow> ('k, 'z, unit) host_op" where
  "usb_detach E B socket p =
     bindE (command E B (detach_args p socket)) (\<lambda>out.
     case split_whitespace out of
       f # _ \<Rightarrow> if f = ''ok'' then retE ()
                else failE (Bail (''unexpected Crosvm USB detach response: '' @ trim out))
     | [] \<Rightarrow> failE (Bail (''unexpected Crosvm USB detach response: '' @ trim out)))"

section \<open>VFIO requests\<close>

definition is_hex_digit :: "char \<Rightarrow> bool" where
  "is_hex_digit c \<longleftrightarrow> digit_val 16 c \<noteq> None"

definition vfio_prefix :: string where
  "vfio_prefix = ''/sys/bus/pci/devices/''"

text \<open>\<open>^/sys/bus/pci/devices/[0-9A-Fa-f]{4}:[0-9A-Fa-f]{2}:[0-9A-Fa-f]{2}\.[0-7]$\<close>\<close>

definition valid_vfio_entry :: "string \<Rightarrow> bool" where
  "valid_vfio_entry s \<longleftrightarrow>
     prefix vfio_prefix s \<and>
     (case drop (length vfio_prefix) s of
        [a, b, c, d, s1, e, f, s2, g, h, s3, i] \<Rightarrow>
          list_all is_hex_digit [a, b, c, d, e, f, g, h] \<and>
          s1 = CHR '':'' \<and> s2 = CHR '':'' \<and> s3 = CHR ''.'' \<and>
          (case digit_val 8 i of None \<Rightarrow> False | Some _ \<Rightarrow> True)
      | _ \<Rightarrow> False)"

definition parse_vfio_list :: "string \<Rightarrow> string list result" where
  "parse_vfio_list out =
     (let malformed = Inl (Bail (''malformed Crosvm VFIO list response: '' @ trim out)) in
      case split_whitespace out of
        [] \<Rightarrow> malformed
      | f # rest \<Rightarrow>
          if f \<noteq> ''devices'' then malformed
          else if list_ex (\<lambda>x. \<not> valid_vfio_entry x) rest then
            Inl (Bail ''unexpected entry in Crosvm VFIO list response'')
          else Inr rest)"

definition vfio_list ::
  "('k, 'y) env_scheme \<Rightarrow> path \<Rightarrow> path \<Rightarrow> ('k, 'z, string list) host_op" where
  "vfio_list E B socket =
     bindE (command E B [''vfio'', ''list'', path_str socket]) (\<lambda>out. liftE (parse_vfio_list out))"

definition vfio_path :: "string \<Rightarrow> string" where
  "vfio_path addr = vfio_prefix @ addr"

text \<open>Poll the list until the device is there (\<open>present\<close>) or gone, at most \<open>n\<close> times.\<close>

fun await_vfio ::
  "nat \<Rightarrow> ('k, 'y) env_scheme \<Rightarrow> path \<Rightarrow> path \<Rightarrow> string \<Rightarrow> bool \<Rightarrow> error \<Rightarrow>
     ('k, 'z, unit) host_op" where
  "await_vfio 0 E B socket p present e = failE e"
| "await_vfio (Suc n) E B socket p present e =
     bindE (vfio_list E B socket) (\<lambda>live.
     if (p \<in> set live) = present then retE ()
     else await_vfio n E B socket p present e)"

definition vfio_add ::
  "('k, 'y) env_scheme \<Rightarrow> path \<Rightarrow> path \<Rightarrow> string \<Rightarrow> ('k, 'z, unit) host_op" where
  "vfio_add E B socket addr =
     (let p = vfio_path addr in
      bindE (vfio_list E B socket) (\<lambda>live.
      if p \<in> set live then retE ()
      else
        bindE (command E B [''vfio'', ''add'', p, path_str socket]) (\<lambda>_.
        await_vfio max_attempts E B socket p True
          (Bail (''Crosvm accepted VFIO add but '' @ p @ '' did not appear'')))))"

definition vfio_remove ::
  "('k, 'y) env_scheme \<Rightarrow> path \<Rightarrow> path \<Rightarrow> string \<Rightarrow> ('k, 'z, unit) host_op" where
  "vfio_remove E B socket addr =
     (let p = vfio_path addr in
      bindE (vfio_list E B socket) (\<lambda>live.
      if p \<notin> set live then retE ()
      else
        bindE (command E B [''vfio'', ''remove'', p, path_str socket]) (\<lambda>_.
        await_vfio max_attempts E B socket p False
          (Bail (''Crosvm accepted VFIO remove but '' @ p @ '' is still attached'')))))"

section \<open>Binding a PCI device to vfio-pci\<close>

definition link_name :: "('k, 'y) env_scheme \<Rightarrow> path \<Rightarrow> 'k \<Rightarrow> string option" where
  "link_name E p k = Option.bind (read_link E p k) path_file_name"

definition fs_driver :: "('k, 'y) env_scheme \<Rightarrow> path \<Rightarrow> 'k \<Rightarrow> string option" where
  "fs_driver E d k = link_name E (d @ [''driver'']) k"

definition bind_vfio ::
  "('k, 'y) env_scheme \<Rightarrow> string \<Rightarrow> path \<Rightarrow> ('k, 'z, unit) host_op" where
  "bind_vfio E addr root =
     bindE (look (fs_driver E (root @ [addr]))) (\<lambda>current.
     if current = Some ''vfio-pci'' then retE ()
     else
       bindE (if current \<noteq> None
              then ctxE (''failed to unbind PCI device '' @ addr)
                     (fs_write E (root @ [addr, ''driver'', ''unbind'']) addr)
              else retE ()) (\<lambda>_.
       bindE (ctxE (''failed to set driver_override for '' @ addr)
                (fs_write E (root @ [addr, ''driver_override'']) ''vfio-pci'')) (\<lambda>_.
       bindE (liftE (option_context ''invalid PCI sysfs root'' (path_parent root))) (\<lambda>parent.
       ctxE (''failed to probe vfio-pci for '' @ addr)
         (fs_write E (parent @ [''drivers_probe'']) addr)))))"

section \<open>The list reply\<close>

definition render_usb_list :: "usb_entry list \<Rightarrow> string" where
  "render_usb_list es =
     join '' '' (''devices'' # concat (map (\<lambda>(p, v, i). [show_dec (unat p), v, i]) es))"

definition entry_words :: "usb_entry \<Rightarrow> bool" where
  "entry_words x = (case x of (p, v, i) \<Rightarrow> is_word v \<and> is_word i)"

lemma parse_entries_render:
  "parse_entries (concat (map (\<lambda>(p, v, i). [show_dec (unat p), v, i]) es)) = Inr es"
  by (induction es) (auto simp: parse_u8_show)

lemma length_entries:
  "length (concat (map (\<lambda>(p, v, i). [show_dec (unat p), v, i]) es)) = 3 * length es"
  by (induction es) auto

lemma parse_entries_Inr:
  "parse_entries fs = Inr es \<Longrightarrow> length fs mod 3 = 0 \<Longrightarrow> length es * 3 = length fs"
proof (induction fs arbitrary: es rule: parse_entries.induct)
  case (1 p v i rest)
  then show ?case by (auto split: option.splits sum.splits)
qed auto

section \<open>What a command does\<close>

text \<open>The reply of Crosvm to a request made in kernel state \<open>k\<close>, when it succeeds.\<close>

definition answer ::
  "('k, 'y) env_scheme \<Rightarrow> path \<Rightarrow> string list \<Rightarrow> 'k \<Rightarrow> string option" where
  "answer E B args k =
     (case fst (exec E B (''--no-syslog'' # args) k) of
        Exited (Some c) out err \<Rightarrow> if c = 0 then Some out else None
      | _ \<Rightarrow> None)"

definition request :: "path \<Rightarrow> string list \<Rightarrow> effect" where
  "request B args = Run B (''--no-syslog'' # args)"

lemma request_inject [simp]: "request B args = request B' args' \<longleftrightarrow> B = B' \<and> args = args'"
  by (auto simp: request_def)

lemma request_neq [simp]:
  "request B args \<noteq> Write p v" "request B args \<noteq> Notify n"
  "Write p v \<noteq> request B args" "Notify n \<noteq> request B args"
  by (auto simp: request_def)

lemma command_history:
  "history (snd (command E B args s)) = history s @ [(request B args, kern s)]"
  by (simp add: command_def bindE_def run_def issue_def request_def case_prod_beta op_simps
        split: sum.split)

lemma command_Inr:
  "fst (command E B args s) = Inr out \<longleftrightarrow> answer E B args (kern s) = Some out"
  by (auto simp: command_def bindE_def run_def issue_def answer_def finished_def op_simps
        split: outcome.splits option.splits if_splits)

lemma command_answer: "command E B args s = (Inr out, t) \<Longrightarrow> answer E B args (kern s) = Some out"
  by (rule command_Inr [THEN iffD1]) simp

lemma usb_list_Inr:
  "usb_list E B so s = (Inr live, t) \<Longrightarrow>
     \<exists>out. answer E B [''usb'', ''list'', path_str so] (kern s) = Some out \<and>
           parse_usb_list out = Inr live"
  by (auto simp: usb_list_def bindE_Inr_iff pure_Inr_iff dest: command_answer)

lemma vfio_list_Inr:
  "vfio_list E B so s = (Inr live, t) \<Longrightarrow>
     \<exists>out. answer E B [''vfio'', ''list'', path_str so] (kern s) = Some out \<and>
           parse_vfio_list out = Inr live"
  by (auto simp: vfio_list_def bindE_Inr_iff pure_Inr_iff dest: command_answer)

lemma detach_args_inject [simp]:
  "detach_args p so = detach_args q so' \<longleftrightarrow> p = q \<and> path_str so = path_str so'"
proof -
  have "p = q" if "show_dec (unat p) = show_dec (unat q)"
    using arg_cong [OF that, of parse_u8] unfolding parse_u8_show by (rule option.inject [THEN iffD1])
  then show ?thesis by (auto simp: detach_args_def)
qed

lemma emits_command [emits_intro]:
  "(\<And>k. A (request B args, k)) \<Longrightarrow> emits A (command E B args)"
  unfolding emits_def by (simp add: command_history)

lemma emits_usb_list [emits_intro]:
  "(\<And>k. A (request B [''usb'', ''list'', path_str so], k)) \<Longrightarrow> emits A (usb_list E B so)"
  unfolding usb_list_def by (intro emits_intro)

lemma emits_vfio_list [emits_intro]:
  "(\<And>k. A (request B [''vfio'', ''list'', path_str so], k)) \<Longrightarrow> emits A (vfio_list E B so)"
  unfolding vfio_list_def by (intro emits_intro)

lemma emits_usb_detach [emits_intro]:
  "(\<And>k. A (request B (detach_args p so), k)) \<Longrightarrow> emits A (usb_detach E B so p)"
  unfolding usb_detach_def by (intro emits_intro) auto

lemma emits_identify_port [emits_intro]:
  "(\<And>k. A (request B [''usb'', ''list'', path_str so], k)) \<Longrightarrow> emits A (identify_port E B so old)"
  unfolding identify_port_def by (intro emits_intro) auto

lemma emits_attach_attempts [emits_intro]:
  assumes "\<And>k. A (request B [''usb'', ''list'', path_str so], k)"
    and "\<And>k. A (request B (attach_args node so), k)"
  shows "emits A (attach_attempts n E B so node old)"
  by (induction n) (auto intro!: emits_intro assms)

lemma emits_usb_attach [emits_intro]:
  assumes "\<And>k. A (request B [''usb'', ''list'', path_str so], k)"
    and "\<And>k. A (request B (attach_args node so), k)"
  shows "emits A (usb_attach E B so node)"
  unfolding usb_attach_def by (intro emits_intro assms)

lemma emits_await_vfio [emits_intro]:
  assumes "\<And>k. A (request B [''vfio'', ''list'', path_str so], k)"
  shows "emits A (await_vfio n E B so p b e)"
  by (induction n) (auto intro!: emits_intro assms)

lemma emits_vfio_add [emits_intro]:
  assumes "\<And>k. A (request B [''vfio'', ''list'', path_str so], k)"
    and "\<And>k. A (request B [''vfio'', ''add'', vfio_path a, path_str so], k)"
  shows "emits A (vfio_add E B so a)"
  unfolding vfio_add_def Let_def by (intro emits_intro assms)

lemma emits_vfio_remove [emits_intro]:
  assumes "\<And>k. A (request B [''vfio'', ''list'', path_str so], k)"
    and "\<And>k. A (request B [''vfio'', ''remove'', vfio_path a, path_str so], k)"
  shows "emits A (vfio_remove E B so a)"
  unfolding vfio_remove_def Let_def by (intro emits_intro assms)

section \<open>Hotplug is a verified change\<close>

text \<open>A list reply in which the function is present, or absent.\<close>

definition shown ::
  "('k, 'y) env_scheme \<Rightarrow> path \<Rightarrow> path \<Rightarrow> bool \<Rightarrow> string \<Rightarrow> effect \<times> 'k \<Rightarrow> bool" where
  "shown E B so present a x \<longleftrightarrow>
     fst x = request B [''vfio'', ''list'', path_str so] \<and>
     (\<exists>out live. answer E B [''vfio'', ''list'', path_str so] (snd x) = Some out \<and>
        parse_vfio_list out = Inr live \<and> (vfio_path a \<in> set live \<longleftrightarrow> present))"

lemma vfio_list_history:
  "history (snd (vfio_list E B so s)) =
     history s @ [(request B [''vfio'', ''list'', path_str so], kern s)]"
  using command_history [of E B "[''vfio'', ''list'', path_str so]" s]
  by (auto simp: vfio_list_def bindE_def liftE_def split: prod.splits sum.splits)

lemma vfio_list_shown:
  assumes "vfio_list E B so s = (Inr live, t)"
  shows "\<exists>x\<in>fresh_effects s t. shown E B so (vfio_path a \<in> set live) a x"
  using vfio_list_Inr [OF assms] vfio_list_history [of E B so s] assms
  by (auto simp: fresh_effects_def shown_def)

lemma extends_fresh:
  assumes "f s = (r, s1)" and "emits (\<lambda>_. True) f" and "g s1 = (r', t)" and "emits (\<lambda>_. True) g"
  shows "fresh_effects s t = fresh_effects s s1 \<union> fresh_effects s1 t"
proof -
  obtain n1 where "history s1 = history s @ n1" using emitsD [OF assms(2,1)] by blast
  moreover obtain n2 where "history t = history s1 @ n2" using emitsD [OF assms(4,3)] by blast
  ultimately show ?thesis by (simp add: fresh_effects_append)
qed

lemma emits_True_vfio:
  "emits (\<lambda>_. True) (vfio_list E B so)" "emits (\<lambda>_. True) (command E B args)"
  "emits (\<lambda>_. True) (await_vfio n E B so p b e)"
  by (intro emits_intro; simp)+

lemma await_vfio_shown:
  "await_vfio n E B so (vfio_path a) b e s = (Inr (), t) \<Longrightarrow>
     \<exists>x\<in>fresh_effects s t. shown E B so b a x"
proof (induction n arbitrary: s)
  case 0
  then show ?case by (simp add: failE_def)
next
  case (Suc n)
  then obtain live s1 where l: "vfio_list E B so s = (Inr live, s1)"
    and rest: "(if (vfio_path a \<in> set live) = b then retE ()
                else await_vfio n E B so (vfio_path a) b e) s1 = (Inr (), t)"
    by (auto simp: bindE_Inr_iff)
  show ?case
  proof (cases "(vfio_path a \<in> set live) = b")
    case True
    then show ?thesis using rest vfio_list_shown [OF l, of a] by (auto simp: retE_def)
  next
    case False
    then have w: "await_vfio n E B so (vfio_path a) b e s1 = (Inr (), t)" using rest by simp
    show ?thesis
      using Suc.IH [OF w] extends_fresh [OF l emits_True_vfio(1) w emits_True_vfio(3)] by auto
  qed
qed

lemma command_then_await:
  assumes "bindE (command E B args) (\<lambda>_. await_vfio n E B so (vfio_path a) b e) s = (Inr (), t)"
  shows "\<exists>x\<in>fresh_effects s t. shown E B so b a x"
proof -
  obtain out s1 where c: "command E B args s = (Inr out, s1)"
    and w: "await_vfio n E B so (vfio_path a) b e s1 = (Inr (), t)"
    using assms by (auto simp: bindE_Inr_iff)
  show ?thesis
    using await_vfio_shown [OF w] extends_fresh [OF c emits_True_vfio(2) w emits_True_vfio(3)]
    by auto
qed

lemma listed_or_changed:
  assumes "bindE (vfio_list E B so) (\<lambda>live.
      if (vfio_path a \<in> set live) = b then retE ()
      else bindE (command E B args) (\<lambda>_. await_vfio n E B so (vfio_path a) b e)) s = (Inr (), t)"
  shows "\<exists>x\<in>fresh_effects s t. shown E B so b a x"
proof -
  obtain live s1 where l: "vfio_list E B so s = (Inr live, s1)"
    and rest: "(if (vfio_path a \<in> set live) = b then retE ()
      else bindE (command E B args) (\<lambda>_. await_vfio n E B so (vfio_path a) b e)) s1 = (Inr (), t)"
    using assms by (auto simp: bindE_Inr_iff)
  show ?thesis
  proof (cases "(vfio_path a \<in> set live) = b")
    case True
    then show ?thesis using rest vfio_list_shown [OF l, of a] by (auto simp: retE_def)
  next
    case False
    then have c: "bindE (command E B args) (\<lambda>_. await_vfio n E B so (vfio_path a) b e) s1 = (Inr (), t)"
      using rest by simp
    show ?thesis
      using command_then_await [OF c]
        extends_fresh [OF l emits_True_vfio(1) c emits_bind [OF emits_True_vfio(2,3)]]
      by auto
  qed
qed

interpretation hotplug: verified_change "vfio_add E B so" "shown E B so True" for E B so
proof
  fix a s t
  assume "vfio_add E B so a s = (Inr (), t)"
  then show "\<exists>x\<in>fresh_effects s t. shown E B so True a x"
    by (intro listed_or_changed) (auto simp: vfio_add_def Let_def cong: if_cong)
next
  fix a
  show "emits (\<lambda>_. True) (vfio_add E B so a)" by (intro emits_intro; simp)
qed

interpretation hotunplug: verified_change "vfio_remove E B so" "shown E B so False" for E B so
proof
  fix a s t
  assume "vfio_remove E B so a s = (Inr (), t)"
  then show "\<exists>x\<in>fresh_effects s t. shown E B so False a x"
    by (intro listed_or_changed) (auto simp: vfio_remove_def Let_def cong: if_cong)
next
  fix a
  show "emits (\<lambda>_. True) (vfio_remove E B so a)" by (intro emits_intro; simp)
qed

end
