(* ===== verification/Usb_Gate.thy ===== *)
theory Usb_Gate
  imports Host
begin

text \<open>
  The sysfs writes of \<open>src/usb_gate.rs\<close>: the bus-wide autoprobe attribute, the
  per-device authorization attribute, binding (\<open>drivers_probe\<close>) and releasing
  (\<open>driver/unbind\<close>) host drivers, and the reads that list devices and interfaces.
  \<open>devices\<close> is the directory of device links, \<open>b\<close> the bus directory above it.
\<close>

definition AUTOPROBE :: string where "AUTOPROBE = ''drivers_autoprobe''"
definition AUTHORIZED :: string where "AUTHORIZED = ''authorized''"
definition AUTHORIZED_DEFAULT :: string where "AUTHORIZED_DEFAULT = ''authorized_default''"
definition CLAIM :: string where "CLAIM = ''usbfs''"
definition HUB :: string where "HUB = ''hub''"

definition usb_devices_root :: path where
  "usb_devices_root = [''/'', ''sys'', ''bus'', ''usb'', ''devices'']"

definition usbcore_authorized_default :: path where
  "usbcore_authorized_default =
     [''/'', ''sys'', ''module'', ''usbcore'', ''parameters'', AUTHORIZED_DEFAULT]"

definition flag :: "bool \<Rightarrow> string" where
  "flag v = (if v then ''1'' else ''0'')"

section \<open>The autoprobe attribute\<close>

definition autoprobe :: "('k, 'y) env_scheme \<Rightarrow> path \<Rightarrow> string \<Rightarrow> ('k, 'z, unit) host_op" where
  "autoprobe E b v =
     ctxE (''failed to write '' @ path_str (b @ [AUTOPROBE])) (fs_write E (b @ [AUTOPROBE]) v)"

definition close_gate :: "('k, 'y) env_scheme \<Rightarrow> path \<Rightarrow> ('k, 'z, unit) host_op" where
  "close_gate E b = autoprobe E b ''0''"

definition open_gate :: "('k, 'y) env_scheme \<Rightarrow> path \<Rightarrow> ('k, 'z, unit) host_op" where
  "open_gate E b = autoprobe E b ''1''"

definition is_closed :: "('k, 'y) env_scheme \<Rightarrow> path \<Rightarrow> 'k \<Rightarrow> bool" where
  "is_closed E b k =
     (case read_text E (b @ [AUTOPROBE]) k of None \<Rightarrow> False | Some v \<Rightarrow> trim v = ''0'')"

section \<open>Names\<close>

definition entry_names :: "string option list \<Rightarrow> string list" where
  "entry_names es = List.map_filter id es"

definition device_names ::
  "('k, 'y) env_scheme \<Rightarrow> path \<Rightarrow> 'k \<Rightarrow> string list result" where
  "device_names E devices k =
     (case read_dir E devices k of
        None \<Rightarrow> Inl (Context (''failed to scan '' @ path_str devices) (Bail ''read_dir''))
      | Some es \<Rightarrow> Inr (sort (filter (\<lambda>n. CHR '':'' \<notin> set n) (entry_names es))))"

definition is_ascii_digit :: "char \<Rightarrow> bool" where
  "is_ascii_digit c \<longleftrightarrow> 48 \<le> (of_char c :: nat) \<and> (of_char c :: nat) \<le> 57"

definition interface_prefix :: "string \<Rightarrow> string" where
  "interface_prefix name =
     (if prefix ''usb'' name \<and> drop 3 name \<noteq> [] \<and> list_all is_ascii_digit (drop 3 name)
      then drop 3 name @ ''-0:'' else name @ '':'')"

definition interface_names ::
  "('k, 'y) env_scheme \<Rightarrow> path \<Rightarrow> string \<Rightarrow> 'k \<Rightarrow> string list result" where
  "interface_names E devices name k =
     (case read_dir E devices k of
        None \<Rightarrow> Inl (Context (''failed to scan '' @ path_str devices) (Bail ''read_dir''))
      | Some es \<Rightarrow> Inr (sort (filter (prefix (interface_prefix name)) (entry_names es))))"

section \<open>Authorization\<close>

definition set_default_at ::
  "('k, 'y) env_scheme \<Rightarrow> bool \<Rightarrow> path \<Rightarrow> ('k, 'z, unit) host_op" where
  "set_default_at E authorized p =
     bindE (look (path_exists E p)) (\<lambda>present.
     if present then ignoreE (fs_write E p (flag authorized)) else retE ())"

definition set_authorized_default ::
  "('k, 'y) env_scheme \<Rightarrow> path \<Rightarrow> bool \<Rightarrow> ('k, 'z, unit) host_op" where
  "set_authorized_default E devices authorized =
     bindE (if devices = usb_devices_root
            then set_default_at E authorized usbcore_authorized_default else retE ()) (\<lambda>_.
     bindE (look (device_names E devices)) (\<lambda>names.
     case names of
       Inl e \<Rightarrow> retE ()
     | Inr ns \<Rightarrow>
         forE ns (\<lambda>n. set_default_at E authorized (devices @ [n, AUTHORIZED_DEFAULT]))))"

definition authorization ::
  "('k, 'y) env_scheme \<Rightarrow> path \<Rightarrow> string \<Rightarrow> 'k \<Rightarrow> bool option" where
  "authorization E devices name k =
     (case read_text E (devices @ [name, AUTHORIZED]) k of
        None \<Rightarrow> None
      | Some v \<Rightarrow>
          if trim v = ''0'' then Some False
          else if trim v = ''1'' then Some True else None)"

definition authorize ::
  "('k, 'y) env_scheme \<Rightarrow> path \<Rightarrow> string \<Rightarrow> bool \<Rightarrow> ('k, 'z, unit) host_op" where
  "authorize E devices name authorized =
     (let p = devices @ [name, AUTHORIZED] in
      bindE (look (path_exists E p)) (\<lambda>present.
      if \<not> present then failE (Bail (''USB device '' @ name @ '' has no authorized attribute''))
      else ctxE (''failed to write '' @ path_str p) (fs_write E p (flag authorized))))"

section \<open>Binding and releasing host drivers\<close>

definition probe :: "('k, 'y) env_scheme \<Rightarrow> path \<Rightarrow> string \<Rightarrow> ('k, 'z, unit) host_op" where
  "probe E b name =
     ctxE (''failed to write '' @ name @ '' to drivers_probe'')
       (fs_write E (b @ [''drivers_probe'']) name)"

definition unbind_path :: "path \<Rightarrow> string \<Rightarrow> path" where
  "unbind_path devices name = devices @ [name, ''driver'', ''unbind'']"

definition release :: "('k, 'y) env_scheme \<Rightarrow> path \<Rightarrow> string \<Rightarrow> ('k, 'z, unit) host_op" where
  "release E devices name =
     ctxE (''failed to unbind the host driver from '' @ name)
       (fs_write E (unbind_path devices name) name)"

definition driver :: "('k, 'y) env_scheme \<Rightarrow> path \<Rightarrow> string \<Rightarrow> 'k \<Rightarrow> string option" where
  "driver E devices name k =
     Option.bind (read_link E (devices @ [name, ''driver'']) k) path_file_name"

definition releasable :: "string \<Rightarrow> bool" where
  "releasable d \<longleftrightarrow> d \<noteq> CLAIM \<and> d \<noteq> HUB"

section \<open>What they issue\<close>

lemmas gate_consts = AUTOPROBE_def AUTHORIZED_def AUTHORIZED_DEFAULT_def CLAIM_def HUB_def

lemma emits_autoprobe [emits_intro]:
  "(\<And>k. A (Write (b @ [AUTOPROBE]) ''0'', k)) \<Longrightarrow> emits A (close_gate E b)"
  "(\<And>k. A (Write (b @ [AUTOPROBE]) ''1'', k)) \<Longrightarrow> emits A (open_gate E b)"
  unfolding close_gate_def open_gate_def autoprobe_def by (intro emits_intro; assumption)+

lemma emits_authorize [emits_intro]:
  "(\<And>k. A (Write (devs @ [n, AUTHORIZED]) (flag v), k)) \<Longrightarrow> emits A (authorize E devs n v)"
  unfolding authorize_def Let_def by (intro emits_intro)

lemma emits_probe [emits_intro]:
  "(\<And>k. A (Write (b @ [''drivers_probe'']) n, k)) \<Longrightarrow> emits A (probe E b n)"
  unfolding probe_def by (intro emits_intro)

lemma emits_release [emits_intro]:
  "(\<And>k. A (Write (unbind_path devs n) n, k)) \<Longrightarrow> emits A (release E devs n)"
  unfolding release_def by (intro emits_intro)

lemma emits_set_default_at [emits_intro]:
  "(\<And>k. A (Write p (flag v), k)) \<Longrightarrow> emits A (set_default_at E v p)"
  unfolding set_default_at_def by (intro emits_intro)

lemma emits_set_authorized_default [emits_intro]:
  assumes "\<And>k. A (Write usbcore_authorized_default (flag v), k)"
    and "\<And>n k. A (Write (devs @ [n, AUTHORIZED_DEFAULT]) (flag v), k)"
  shows "emits A (set_authorized_default E devs v)"
  unfolding set_authorized_default_def by (intro emits_intro assms)

section \<open>What they leave in the history\<close>

lemma look_bind: "bindE (look f) g s = g (f (kern s)) s"
  by (simp add: look_def bindE_def getE_def)

lemma fs_write_history: "history (snd (fs_write E p v s)) = history s @ [(Write p v, kern s)]"
  by (simp add: host_defs issue_apply)

lemma ctxE_snd [simp]: "snd (ctxE m f s) = snd (f s)"
  by (simp add: ctxE_apply)

lemma ignoreE_snd [simp]: "snd (ignoreE f s) = snd (f s)"
  by (simp add: ignoreE_apply)

lemma authorize_history:
  "history (snd (authorize E devs n v s)) =
     (if path_exists E (devs @ [n, AUTHORIZED]) (kern s)
      then history s @ [(Write (devs @ [n, AUTHORIZED]) (flag v), kern s)] else history s)"
  "\<not> path_exists E (devs @ [n, AUTHORIZED]) (kern s) \<Longrightarrow> snd (authorize E devs n v s) = s"
  by (simp_all add: authorize_def Let_def look_bind fs_write_history failE_def)

lemma probe_history:
  "history (snd (probe E b n s)) = history s @ [(Write (b @ [''drivers_probe'']) n, kern s)]"
  by (simp add: probe_def fs_write_history)

lemma release_history:
  "history (snd (release E devs n s)) = history s @ [(Write (unbind_path devs n) n, kern s)]"
  by (simp add: release_def fs_write_history)

lemma emits_at_gate [simp]:
  "emits_at A (probe E b n) s \<longleftrightarrow> A (Write (b @ [''drivers_probe'']) n, kern s)"
  "emits_at A (release E devs n) s \<longleftrightarrow> A (Write (unbind_path devs n) n, kern s)"
  by (simp_all add: probe_def release_def emits_at_wrap)

lemma emits_at_authorize:
  "A (Write (devs @ [n, AUTHORIZED]) (flag v), kern s) \<Longrightarrow> emits_at A (authorize E devs n v) s"
  by (simp add: emits_at_def authorize_history)

section \<open>Names of interfaces and devices\<close>

lemma prefix_colon_append:
  assumes "CHR '':'' \<notin> set a" "CHR '':'' \<notin> set b"
    and "prefix (a @ '':'') (x :: string)" "prefix (b @ '':'') x"
  shows "a = b"
  using assms
proof (induction a arbitrary: b x)
  case Nil
  then show ?case by (cases b; cases x) auto
next
  case (Cons c a)
  then show ?case by (cases b; cases x) auto
qed

lemma interface_names_prefix:
  "interface_names E devices name k = Inr ns \<Longrightarrow> i \<in> set ns \<Longrightarrow> prefix (interface_prefix name) i"
  by (auto simp: interface_names_def split: option.splits)

end
