(* ===== verification/State_Store.thy ===== *)
theory State_Store
  imports Host
begin

text \<open>
  The manager's mutable state and its persistence, \<open>src/state.rs\<close>, with the mutable
  fields of \<open>DeviceManager\<close> (\<open>src/manager.rs\<close>) it sits among. Encoding and decoding
  the file is \<open>serde_json\<close>'s work: two fields of the static context \<open>dm\<close>, which also
  holds the configuration and the two sysfs roots.
\<close>

record 'k dm = "'k env" +
  cfg :: config
  usb_root :: path
  pci_root :: path
  encode_state :: "persistent_state \<Rightarrow> string result"
  decode_state :: "string \<Rightarrow> persistent_state result"

record 'k manager = "'k host" +
  persistent :: persistent_state
  usb_vms :: "string \<Rightarrow> string option"
  pci_vms :: "string \<Rightarrow> string option"
  observed_usb :: "(string \<times> usb_device) list"
  observed_pci :: "(string \<times> pci_device) list"
  pending_usb_selection :: "string list"
  usb_routing_cache :: "string \<Rightarrow> bool option"
  reported_usb_hubs :: "string list"
  deferred :: bool

type_synonym ('k, 'a) manager_op = "('k manager, 'a) oper"

section \<open>Loading\<close>

definition load_persistent :: "'k dm \<Rightarrow> 'k \<Rightarrow> persistent_state" where
  "load_persistent D k =
     (let p = state_path (cfg D) in
      if persistency (cfg D) \<and> path_exists D p k then
        (case read_text D p k of
           None \<Rightarrow> default_persistent
         | Some input \<Rightarrow>
             (case decode_state D input of Inl _ \<Rightarrow> default_persistent | Inr st \<Rightarrow> st))
      else default_persistent)"

text \<open>The state a manager starts in: \<open>DeviceManager::with_roots\<close> after validation.\<close>

definition initial_manager :: "'k dm \<Rightarrow> 'k \<Rightarrow> 'k manager" where
  "initial_manager D k =
     \<lparr>kern = k, history = [], persistent = load_persistent D k,
      usb_vms = (\<lambda>_. None), pci_vms = (\<lambda>_. None), observed_usb = [], observed_pci = [],
      pending_usb_selection = [], usb_routing_cache = (\<lambda>_. None), reported_usb_hubs = [],
      deferred = False\<rparr>"

section \<open>Saving\<close>

definition temporary_name :: "path \<Rightarrow> string" where
  "temporary_name p =
     ''.'' @ (case path_file_name p of None \<Rightarrow> ''state'' | Some n \<Rightarrow> n) @ ''.tmp''"

definition save :: "'k dm \<Rightarrow> ('k, unit) manager_op" where
  "save D =
     (if \<not> persistency (cfg D) then retE ()
      else
        bindE (liftE (option_context ''state path has no parent''
                 (path_parent (state_path (cfg D))))) (\<lambda>parent.
        bindE (sys D (CreateDirAll parent)) (\<lambda>_.
        (let tmp = parent @ [temporary_name (state_path (cfg D))] in
         bindE (sys D (OpenTruncate tmp 0x180)) (\<lambda>_.
         bindE (getE persistent) (\<lambda>st.
         bindE (liftE (encode_state D st)) (\<lambda>text.
         bindE (sys D (WriteAll tmp text)) (\<lambda>_.
         bindE (sys D (WriteAll tmp [newline])) (\<lambda>_.
         bindE (sys D (SyncAll tmp)) (\<lambda>_.
         sys D (Rename tmp (state_path (cfg D)))))))))))))"

lemma temporary_differs: "dir @ [temporary_name final] \<noteq> final"
proof
  assume "dir @ [temporary_name final] = final"
  then have f: "final \<noteq> []" "last final = temporary_name final" by (metis snoc_eq_iff_butlast)+
  show False
  proof (cases "path_file_name final")
    case None
    then have "last final = ''/'' \<or> last final = ''..''" using f(1) by (simp add: path_file_name_def split: if_splits)
    moreover have "temporary_name final = ''.state.tmp''" by (simp add: temporary_name_def None)
    ultimately show False using f(2) by auto
  next
    case (Some n)
    then have "last final = n" by (simp add: path_file_name_def split: if_splits)
    moreover have "length (temporary_name final) = length n + 5" by (simp add: temporary_name_def Some)
    ultimately show False using arg_cong [OF f(2), of length] by simp
  qed
qed

section \<open>The disconnected mark and the remembered choice\<close>

definition disconnected :: "persistent_state \<Rightarrow> string \<Rightarrow> bool" where
  "disconnected st i \<longleftrightarrow> list_ex (\<lambda>item. item = i) (disconnected_devices st)"

definition mark_disconnected :: "string \<Rightarrow> bool \<Rightarrow> persistent_state \<Rightarrow> persistent_state" where
  "mark_disconnected i v st =
     (let kept = filter (\<lambda>item. item \<noteq> i) (disconnected_devices st)
      in st\<lparr>disconnected_devices := if v then sort (kept @ [i]) else kept\<rparr>)"

definition set_disconnected :: "'k dm \<Rightarrow> string \<Rightarrow> bool \<Rightarrow> ('k, unit) manager_op" where
  "set_disconnected D i v =
     bindE (modE (\<lambda>s. s\<lparr>persistent := mark_disconnected i v (persistent s)\<rparr>)) (\<lambda>_. save D)"

definition remember_vm :: "string \<Rightarrow> string \<Rightarrow> persistent_state \<Rightarrow> persistent_state" where
  "remember_vm i v st = st\<lparr>selected_vms := (selected_vms st)(i := Some v)\<rparr>"

definition select_vm :: "'k dm \<Rightarrow> string \<Rightarrow> string \<Rightarrow> ('k, unit) manager_op" where
  "select_vm D i v =
     bindE (modE (\<lambda>s. s\<lparr>persistent := remember_vm i v (persistent s)\<rparr>)) (\<lambda>_. save D)"

section \<open>Laws of the marks\<close>

text \<open>
  The interface the manager relies on: a set of marks with a lookup and an update, whatever
  the representation. \<open>wf\<close> is the representation invariant.
\<close>

locale marks =
  fixes lookup :: "'st \<Rightarrow> string \<Rightarrow> bool"
    and put :: "string \<Rightarrow> bool \<Rightarrow> 'st \<Rightarrow> 'st"
    and wf :: "'st \<Rightarrow> bool"
  assumes lookup_put: "lookup (put i v st) j = (if j = i then v else lookup st j)"
    and wf_put: "wf st \<Longrightarrow> wf (put i v st)"
begin

lemma lookup_put_same: "lookup (put i v st) i = v"
  by (simp add: lookup_put)

lemma lookup_put_other: "j \<noteq> i \<Longrightarrow> lookup (put i v st) j = lookup st j"
  by (simp add: lookup_put)

lemma lookup_fold:
  "lookup (fold (\<lambda>(i, v). put i v) ms st) j =
     (case map_of (rev ms) j of None \<Rightarrow> lookup st j | Some v \<Rightarrow> v)"
  by (induction ms arbitrary: st) (auto simp: lookup_put map_of_append split: option.split)

lemma wf_fold: "wf st \<Longrightarrow> wf (fold (\<lambda>(i, v). put i v) ms st)"
  by (induction ms arbitrary: st) (auto intro: wf_put)

end

definition marks_wf :: "persistent_state \<Rightarrow> bool" where
  "marks_wf st \<longleftrightarrow> distinct (disconnected_devices st) \<and> sorted (disconnected_devices st)"

lemma disconnected_iff: "disconnected st i \<longleftrightarrow> i \<in> set (disconnected_devices st)"
  by (auto simp: disconnected_def list_ex_iff)

interpretation disc: marks disconnected mark_disconnected marks_wf
  by unfold_locales
    (auto simp: disconnected_iff mark_disconnected_def marks_wf_def Let_def sorted_filter
      distinct_filter intro: sorted_wrt_filter)

lemma mark_disconnected_frame [simp]:
  "selected_vms (mark_disconnected i v st) = selected_vms st"
  "crosvm_usb_ports (mark_disconnected i v st) = crosvm_usb_ports st"
  by (simp_all add: mark_disconnected_def Let_def)

lemma remember_vm_frame [simp]:
  "disconnected_devices (remember_vm i v st) = disconnected_devices st"
  "crosvm_usb_ports (remember_vm i v st) = crosvm_usb_ports st"
  "selected_vms (remember_vm i v st) = (selected_vms st)(i := Some v)"
  by (simp_all add: remember_vm_def)

lemma disconnected_remember [simp]: "disconnected (remember_vm i v st) = disconnected st"
  by (simp add: disconnected_iff fun_eq_iff)

lemma disconnected_ports [simp]: "disconnected (st\<lparr>crosvm_usb_ports := p\<rparr>) = disconnected st"
  by (simp add: disconnected_iff fun_eq_iff)

section \<open>What saving touches\<close>

text \<open>Saving changes only the kernel and the history.\<close>

definition same_memory :: "'k manager \<Rightarrow> 'k manager \<Rightarrow> bool" where
  "same_memory s t \<longleftrightarrow>
     t = s\<lparr>kern := kern t, history := history t\<rparr>"

definition kernel_only :: "('k, 'a) manager_op \<Rightarrow> bool" where
  "kernel_only f \<longleftrightarrow> (\<forall>s. same_memory s (snd (f s)))"

named_theorems kernel_only_intro "operations that leave the manager's memory alone"

lemma same_memory_refl [simp]: "same_memory s s"
  by (simp add: same_memory_def)

lemma same_memory_trans: "same_memory s t \<Longrightarrow> same_memory t u \<Longrightarrow> same_memory s u"
  by (cases s; cases t; cases u) (simp add: same_memory_def)

lemma same_memory_fields:
  assumes "same_memory s t"
  shows "persistent t = persistent s" and "usb_vms t = usb_vms s" and "pci_vms t = pci_vms s"
    and "observed_usb t = observed_usb s" and "observed_pci t = observed_pci s"
    and "pending_usb_selection t = pending_usb_selection s"
    and "usb_routing_cache t = usb_routing_cache s"
    and "reported_usb_hubs t = reported_usb_hubs s" and "deferred t = deferred s"
  using assms by (cases s; cases t; simp add: same_memory_def)+

lemma kernel_onlyD: "kernel_only f \<Longrightarrow> f s = (r, s') \<Longrightarrow> same_memory s s'"
  by (metis kernel_only_def snd_conv)

lemma kernel_only_basic [kernel_only_intro]:
  "kernel_only (retE x)" "kernel_only (failE e)" "kernel_only (liftE r)" "kernel_only (getE g)"
  "kernel_only (look h)" "kernel_only (look_result h')"
  by (simp_all add: kernel_only_def oper_defs host_defs)

lemma kernel_only_bind [kernel_only_intro]:
  assumes "kernel_only f" and "\<And>x. kernel_only (g x)"
  shows "kernel_only (bindE f g)"
  using assms
  by (auto simp: kernel_only_def bindE_def case_prod_beta split: sum.split
      intro: same_memory_trans)

lemma kernel_only_wrap [kernel_only_intro]:
  "kernel_only f \<Longrightarrow> kernel_only (tryE f)"
  "kernel_only f \<Longrightarrow> kernel_only (ctxE m f)"
  "kernel_only f \<Longrightarrow> kernel_only (ignoreE f)"
  by (auto simp: kernel_only_def tryE_def ctxE_def ignoreE_def case_prod_beta)

lemma kernel_only_issue [kernel_only_intro]: "kernel_only (issue e f)"
  by (simp add: kernel_only_def issue_apply same_memory_def)

lemma kernel_only_prims [kernel_only_intro]:
  "kernel_only (sys E e)" "kernel_only (fs_write E p v)" "kernel_only (run E b args)"
  "kernel_only (notify n)"
  by (simp_all add: host_defs run_def kernel_only_issue)

lemma kernel_only_if [kernel_only_intro]:
  "(b \<Longrightarrow> kernel_only f) \<Longrightarrow> (\<not> b \<Longrightarrow> kernel_only g) \<Longrightarrow> kernel_only (if b then f else g)"
  by simp

lemma kernel_only_option [kernel_only_intro]:
  "(x = None \<Longrightarrow> kernel_only f) \<Longrightarrow> (\<And>y. x = Some y \<Longrightarrow> kernel_only (g y)) \<Longrightarrow>
     kernel_only (case x of None \<Rightarrow> f | Some y \<Rightarrow> g y)"
  by (cases x) simp_all

lemma kernel_only_sum [kernel_only_intro]:
  "(\<And>e. x = Inl e \<Longrightarrow> kernel_only (f e)) \<Longrightarrow> (\<And>y. x = Inr y \<Longrightarrow> kernel_only (g y)) \<Longrightarrow>
     kernel_only (case x of Inl e \<Rightarrow> f e | Inr y \<Rightarrow> g y)"
  by (cases x) simp_all

lemma kernel_only_list [kernel_only_intro]:
  "(x = [] \<Longrightarrow> kernel_only f) \<Longrightarrow> (\<And>y ys. x = y # ys \<Longrightarrow> kernel_only (g y ys)) \<Longrightarrow>
     kernel_only (case x of [] \<Rightarrow> f | y # ys \<Rightarrow> g y ys)"
  by (cases x) simp_all

lemma kernel_only_forE [kernel_only_intro]:
  "(\<And>d. d \<in> set ds \<Longrightarrow> kernel_only (f d)) \<Longrightarrow> kernel_only (forE ds f)"
  by (induction ds) (auto intro: kernel_only_intro)

lemma kernel_only_save [kernel_only_intro]: "kernel_only (save D)"
  unfolding save_def Let_def by (intro kernel_only_intro)

text \<open>Every effect of saving is on the state file or its temporary sibling.\<close>

definition state_file_effect :: "config \<Rightarrow> effect \<Rightarrow> bool" where
  "state_file_effect c e =
     (case path_parent (state_path c) of
        None \<Rightarrow> False
      | Some parent \<Rightarrow>
          (let tmp = parent @ [temporary_name (state_path c)] in
           case e of
             CreateDirAll p \<Rightarrow> p = parent
           | OpenTruncate p m \<Rightarrow> p = tmp \<and> m = 0x180
           | WriteAll p v \<Rightarrow> p = tmp
           | SyncAll p \<Rightarrow> p = tmp
           | Rename p q \<Rightarrow> p = tmp \<and> q = state_path c
           | _ \<Rightarrow> False))"

lemma emits_lift_bind:
  "(\<And>x. r = Inr x \<Longrightarrow> emits A (g x)) \<Longrightarrow> emits A (bindE (liftE r) g)"
  by (cases r) (auto simp: emits_def bindE_def liftE_def)

lemma emits_save_state_file: "emits (\<lambda>x. state_file_effect (cfg D) (fst x)) (save D)"
  unfolding save_def Let_def
  by (intro emits_intro emits_lift_bind) (simp_all add: state_file_effect_def Let_def)

lemma emits_save [emits_intro]:
  assumes "\<And>e k. state_file_effect (cfg D) e \<Longrightarrow> A (e, k)"
  shows "emits A (save D)"
  by (rule emits_mono [OF emits_save_state_file]) (use assms in auto)

lemma emits_set_disconnected [emits_intro]:
  assumes "\<And>e k. state_file_effect (cfg D) e \<Longrightarrow> A (e, k)"
  shows "emits A (set_disconnected D i v)"
  unfolding set_disconnected_def by (intro emits_intro assms) simp_all

lemma emits_select_vm [emits_intro]:
  assumes "\<And>e k. state_file_effect (cfg D) e \<Longrightarrow> A (e, k)"
  shows "emits A (select_vm D i v)"
  unfolding select_vm_def by (intro emits_intro assms) simp_all

lemma save_memory: "save D s = (r, s') \<Longrightarrow> same_memory s s'"
  by (rule kernel_onlyD [OF kernel_only_save])

lemma set_disconnected_memory:
  "set_disconnected D i v s = (r, s') \<Longrightarrow>
     same_memory (s\<lparr>persistent := mark_disconnected i v (persistent s)\<rparr>) s'"
  by (simp add: set_disconnected_def bindE_def modE_def save_memory)

lemma select_vm_memory:
  "select_vm D i v s = (r, s') \<Longrightarrow>
     same_memory (s\<lparr>persistent := remember_vm i v (persistent s)\<rparr>) s'"
  by (simp add: select_vm_def bindE_def modE_def save_memory)

end
