(* ===== verification/Device_Scan.thy ===== *)
theory Device_Scan
  imports Host
begin

unbundle bit_operations_syntax

text \<open>
  The device scans of \<open>src/device.rs\<close>: the USB scan with its descriptor parser and its
  host-storage exclusion, the PCI scan and IOMMU groups. Every function reads one kernel
  state; the text of an operating-system error is the name of the call that failed.
\<close>

definition io_error :: "string \<Rightarrow> error" where
  "io_error call = Bail call"

definition read_trimmed :: "('k, 'y) env_scheme \<Rightarrow> path \<Rightarrow> 'k \<Rightarrow> string option" where
  "read_trimmed E p k = map_option trim (read_text E p k)"

definition decimal :: "('k, 'y) env_scheme \<Rightarrow> path \<Rightarrow> 'k \<Rightarrow> 32 word option" where
  "decimal E p k = Option.bind (read_trimmed E p k) parse_u32"

definition hex :: "('k, 'y) env_scheme \<Rightarrow> path \<Rightarrow> 'k \<Rightarrow> 32 word option" where
  "hex E p k = Option.bind (read_trimmed E p k) parse_hex_u32"

section \<open>The descriptor blob\<close>

text \<open>
  \<open>descriptor_interfaces\<close>: walk the type-length-value records from \<open>offset\<close>. The walk
  stops at a record shorter than its own header or longer than what is left.
\<close>

definition interface_at :: "8 word list \<Rightarrow> nat \<Rightarrow> 8 word \<times> usb_interface" where
  "interface_at ds off =
     (ds ! (off + 2),
      \<lparr>iclass = Some (ucast (ds ! (off + 5))), isubclass = Some (ucast (ds ! (off + 6))),
       iprotocol = Some (ucast (ds ! (off + 7)))\<rparr>)"

function parse_descriptors :: "8 word list \<Rightarrow> nat \<Rightarrow> (8 word \<times> usb_interface) list" where
  "parse_descriptors ds off =
     (if off + 2 \<le> length ds then
        (let len = unat (ds ! off) in
         if len < 2 \<or> length ds < off + len then []
         else (if ds ! (off + 1) = 4 \<and> 9 \<le> len then [interface_at ds off] else [])
              @ parse_descriptors ds (off + len))
      else [])"
  by pat_completeness auto
termination
  by (relation "measure (\<lambda>(ds, off). length ds - off)") auto

declare parse_descriptors.simps [simp del]

definition descriptor_interfaces ::
  "('k, 'y) env_scheme \<Rightarrow> path \<Rightarrow> 'k \<Rightarrow> (8 word \<times> usb_interface) list" where
  "descriptor_interfaces E p k =
     (case read_bytes E (p @ [''descriptors'']) k of
        None \<Rightarrow> []
      | Some ds \<Rightarrow> parse_descriptors ds 0)"

section \<open>Names derived from descriptors\<close>

definition opt_hex2 :: "32 word option \<Rightarrow> string option" where
  "opt_hex2 x = map_option (\<lambda>v. show_HEX 2 (unat v)) x"

definition device_modalias :: "string \<Rightarrow> string \<Rightarrow> string" where
  "device_modalias v p = ''usb:v'' @ to_uppercase v @ ''p'' @ to_uppercase p"

definition interface_modalias ::
  "string \<Rightarrow> string \<Rightarrow> 32 word \<Rightarrow> 32 word \<Rightarrow> 32 word \<Rightarrow> 32 word \<Rightarrow> usb_interface \<Rightarrow> nat \<Rightarrow>
     string option" where
  "interface_modalias v p bcd dc dsc dp i number =
     (case (opt_hex2 (iclass i), opt_hex2 (isubclass i), opt_hex2 (iprotocol i)) of
        (Some ic, Some isc, Some ip) \<Rightarrow>
          Some (device_modalias v p @ ''d'' @ show_HEX 4 (unat bcd) @ ''dc'' @ show_HEX 2 (unat dc)
            @ ''dsc'' @ show_HEX 2 (unat dsc) @ ''dp'' @ show_HEX 2 (unat dp) @ ''ic'' @ ic
            @ ''isc'' @ isc @ ''ip'' @ ip @ ''in'' @ show_HEX 2 number)
      | _ \<Rightarrow> None)"

definition hwdb_names ::
  "('k, 'y) env_scheme \<Rightarrow> string option \<Rightarrow> string option \<Rightarrow> string option \<times> string option" where
  "hwdb_names E v p =
     (case (hwdb E, v, p) of
        (Some query, Some v', Some p') \<Rightarrow>
          (query (device_modalias v' p') ''ID_VENDOR_FROM_DATABASE'',
           query (device_modalias v' p') ''ID_MODEL_FROM_DATABASE'')
      | _ \<Rightarrow> (None, None))"

definition or_else :: "'a option \<Rightarrow> 'a option \<Rightarrow> 'a option" where
  "or_else x y = (case x of None \<Rightarrow> y | Some _ \<Rightarrow> x)"

lemma or_else_simps [simp]: "or_else None y = y" "or_else (Some a) y = Some a"
  by (simp_all add: or_else_def)

section \<open>Host storage\<close>

definition linux_major :: "64 word \<Rightarrow> 64 word" where
  "linux_major d = (drop_bit 8 d AND 0xfff) OR (drop_bit 32 d AND 0xfffff000)"

definition linux_minor :: "64 word \<Rightarrow> 64 word" where
  "linux_minor d = (d AND 0xff) OR (drop_bit 12 d AND 0xfffff00)"

definition path_of_str :: "string \<Rightarrow> path" where
  "path_of_str s =
     (if prefix ''/'' s then [''/''] else []) @
     filter (\<lambda>c. c \<noteq> [] \<and> c \<noteq> ''.'') (split_char (CHR ''/'') s)"

definition nth_word :: "nat \<Rightarrow> string \<Rightarrow> string option" where
  "nth_word n line = (let ws = split_whitespace line in if n < length ws then Some (ws ! n) else None)"

definition device_number :: "metadata \<Rightarrow> string" where
  "device_number m =
     (let raw = (if is_block_device m then rdev m else dev m)
      in show_dec (unat (linux_major raw)) @ '':'' @ show_dec (unat (linux_minor raw)))"

definition active_host_storage_device_ids ::
  "('k, 'y) env_scheme \<Rightarrow> 'k \<Rightarrow> string set result" where
  "active_host_storage_device_ids E k =
     (case read_text E [''/'', ''proc'', ''self'', ''mountinfo''] k of
        None \<Rightarrow> Inl (Context ''failed to read mounted host filesystems'' (io_error ''read''))
      | Some mountinfo \<Rightarrow>
          (case read_text E [''/'', ''proc'', ''swaps''] k of
             None \<Rightarrow> Inl (Context ''failed to read active host swaps'' (io_error ''read''))
           | Some swaps \<Rightarrow>
               Inr (set (List.map_filter (nth_word 2) (lines mountinfo)) \<union>
                    set (List.map_filter (\<lambda>source. map_option device_number
                           (get_metadata E (path_of_str source) k))
                         (List.map_filter (nth_word 0) (drop 1 (lines swaps)))))))"

record block_device =
  block_id :: string
  sys_path :: path
  slaves :: "string list"
  has_holders :: bool

definition dir_names :: "('k, 'y) env_scheme \<Rightarrow> path \<Rightarrow> 'k \<Rightarrow> string list" where
  "dir_names E p k =
     (case read_dir E p k of None \<Rightarrow> [] | Some es \<Rightarrow> List.map_filter id es)"

definition block_of ::
  "('k, 'y) env_scheme \<Rightarrow> path \<Rightarrow> 'k \<Rightarrow> string \<Rightarrow> (string \<times> block_device) option" where
  "block_of E root k name =
     (case (canonicalize E (root @ [name]) k, read_trimmed E (root @ [name, ''dev'']) k) of
        (Some sp, Some i) \<Rightarrow>
          Some (name, \<lparr>block_id = i, sys_path = sp,
                       slaves = dir_names E (root @ [name, ''slaves'']) k,
                       has_holders = (case read_dir E (root @ [name, ''holders'']) k of
                                        None \<Rightarrow> False | Some es \<Rightarrow> es \<noteq> [])\<rparr>)
      | _ \<Rightarrow> None)"

text \<open>A loop over directory entries that leaves at the first entry that cannot be read.\<close>

fun read_entries :: "string option list \<Rightarrow> string list result" where
  "read_entries [] = Inr []"
| "read_entries (None # es) = Inl (io_error ''read_dir entry'')"
| "read_entries (Some n # es) =
     (case read_entries es of Inl e \<Rightarrow> Inl e | Inr ns \<Rightarrow> Inr (n # ns))"

definition scan_dir :: "('k, 'y) env_scheme \<Rightarrow> path \<Rightarrow> 'k \<Rightarrow> string list result" where
  "scan_dir E p k =
     (case read_dir E p k of
        None \<Rightarrow> Inl (Context (''failed to scan '' @ path_str p) (io_error ''read_dir''))
      | Some es \<Rightarrow> read_entries es)"

text \<open>The closure under \<open>slaves\<close>: a block device stacked on a backing one is backing.\<close>

definition dependents :: "(string \<times> block_device) list \<Rightarrow> string list \<Rightarrow> string list" where
  "dependents blocks backing =
     map fst (filter (\<lambda>(n, b). n \<notin> set backing \<and> list_ex (\<lambda>s. s \<in> set backing) (slaves b)) blocks)"

lemma dependents_mem:
  "n \<in> set (dependents blocks backing) \<longleftrightarrow>
     (\<exists>b. (n, b) \<in> set blocks \<and> n \<notin> set backing \<and> (\<exists>s\<in>set (slaves b). s \<in> set backing))"
  by (force simp: dependents_def list_ex_iff)

function close_backing :: "(string \<times> block_device) list \<Rightarrow> string list \<Rightarrow> string list" where
  "close_backing blocks backing =
     (let new = dependents blocks backing in
      if new = [] then backing else close_backing blocks (backing @ new))"
  by pat_completeness auto
termination
proof (relation "measure (\<lambda>(blocks, backing). card (fst ` set blocks - set backing))")
  fix blocks and backing new :: "string list"
  assume new: "new = dependents blocks backing" and ne: "new \<noteq> []"
  then obtain n where n: "n \<in> set new" by (meson last_in_set)
  then have "n \<in> fst ` set blocks - set backing"
    using new dependents_mem [of n blocks backing] by force
  then have "fst ` set blocks - set (backing @ new) \<subset> fst ` set blocks - set backing"
    using n by auto
  then show "((blocks, backing @ new), blocks, backing)
      \<in> measure (\<lambda>(blocks, backing). card (fst ` set blocks - set backing))"
    by (simp add: psubset_card_mono)
qed simp

declare close_backing.simps [simp del]

definition backs_active ::
  "path \<Rightarrow> (string \<times> block_device) list \<Rightarrow> string set \<Rightarrow> bool" where
  "backs_active device blocks active =
     (let start = map fst (filter (\<lambda>(n, b). prefix device (sys_path b)) blocks);
          block = (\<lambda>p n. case map_of blocks n of None \<Rightarrow> False | Some b \<Rightarrow> p b) in
      if list_ex (block has_holders) start then True
      else list_ex (block (\<lambda>b. block_id b \<in> active)) (close_backing blocks start))"

definition usb_backs_active_storage ::
  "('k, 'y) env_scheme \<Rightarrow> path \<Rightarrow> path \<Rightarrow> string set \<Rightarrow> 'k \<Rightarrow> bool result" where
  "usb_backs_active_storage E device block_root active k =
     (case canonicalize E device k of
        None \<Rightarrow> Inl (Context (''failed to resolve USB device '' @ path_str device)
                  (io_error ''canonicalize''))
      | Some dev' \<Rightarrow>
          (case scan_dir E block_root k of
             Inl e \<Rightarrow> Inl e
           | Inr names \<Rightarrow>
               Inr (backs_active dev' (List.map_filter (block_of E block_root k) names) active)))"

definition class_block :: path where
  "class_block = [''/'', ''sys'', ''class'', ''block'']"

definition usb_backs_host_storage ::
  "('k, 'y) env_scheme \<Rightarrow> path \<Rightarrow> 'k \<Rightarrow> bool result" where
  "usb_backs_host_storage E device k =
     (case active_host_storage_device_ids E k of
        Inl e \<Rightarrow> Inl e
      | Inr active \<Rightarrow> usb_backs_active_storage E device class_block active k)"

section \<open>Scanning USB\<close>

definition numbered_interface ::
  "('k, 'y) env_scheme \<Rightarrow> path \<Rightarrow> 'k \<Rightarrow> string \<Rightarrow> (8 word \<times> usb_interface) option" where
  "numbered_interface E root k child =
     (case rsplit_once (CHR ''.'') child of
        None \<Rightarrow> None
      | Some (_, number) \<Rightarrow>
          map_option (\<lambda>n.
            (n, \<lparr>iclass = hex E (root @ [child, ''bInterfaceClass'']) k,
                 isubclass = hex E (root @ [child, ''bInterfaceSubClass'']) k,
                 iprotocol = hex E (root @ [child, ''bInterfaceProtocol'']) k\<rparr>))
            (parse_u8 number))"

definition push_new :: "'a \<Rightarrow> 'a list \<Rightarrow> 'a list" where
  "push_new x xs = (if x \<in> set xs then xs else xs @ [x])"

definition root_port_of :: "string \<Rightarrow> 32 word option" where
  "root_port_of name =
     (case split_once (CHR ''-'') name of
        None \<Rightarrow> None
      | Some (_, ports) \<Rightarrow> parse_u32 (hd (split_char (CHR ''.'') ports)))"

definition node_of :: "32 word option \<Rightarrow> 32 word option \<Rightarrow> string option" where
  "node_of b p =
     (case (b, p) of
        (Some b', Some p') \<Rightarrow>
          Some (''/dev/bus/usb/'' @ show_dec_w 3 (unat b') @ ''/'' @ show_dec_w 3 (unat p'))
      | _ \<Rightarrow> None)"

definition triple_text :: "usb_interface \<Rightarrow> string" where
  "triple_text i =
     (let h = (\<lambda>x. show_hex 2 (case x of None \<Rightarrow> 0 | Some v \<Rightarrow> unat v))
      in h (iclass i) @ h (isubclass i) @ h (iprotocol i))"

definition descriptor_modaliases ::
  "('k, 'y) env_scheme \<Rightarrow> path \<Rightarrow> 'k \<Rightarrow> string option \<Rightarrow> string option \<Rightarrow>
     (8 word \<times> usb_interface) list \<Rightarrow> string list" where
  "descriptor_modaliases E p k v i numbered =
     (case (v, i, hex E (p @ [''bcdDevice'']) k, hex E (p @ [''bDeviceClass'']) k,
            hex E (p @ [''bDeviceSubClass'']) k, hex E (p @ [''bDeviceProtocol'']) k) of
        (Some v', Some i', Some bcd, Some dc, Some dsc, Some dp) \<Rightarrow>
          List.map_filter (\<lambda>(n, x). interface_modalias v' i' bcd dc dsc dp x (unat n)) numbered
      | _ \<Rightarrow> [])"

definition usb_device_at ::
  "('k, 'y) env_scheme \<Rightarrow> path \<Rightarrow> 'k \<Rightarrow> string \<Rightarrow> usb_device" where
  "usb_device_at E root k name =
     (let p = root @ [name];
          b = decimal E (p @ [''busnum'']) k;
          n = decimal E (p @ [''devnum'']) k;
          children = filter (prefix (name @ '':'')) (dir_names E root k);
          sysfs = List.map_filter (numbered_interface E root k) children;
          cached = descriptor_interfaces E p k;
          numbered = (if cached \<noteq> [] then cached else sysfs);
          ifs = (if cached \<noteq> [] then fold (\<lambda>(_, i). push_new i) numbered [] else map snd numbered);
          v = read_trimmed E (p @ [''idVendor'']) k;
          i = read_trimmed E (p @ [''idProduct'']) k;
          aliases = List.map_filter (\<lambda>c. read_trimmed E (root @ [c, ''modalias'']) k) children;
          (hv, hp) = hwdb_names E v i
      in \<lparr>sys_name = name,
          device_node = node_of b n,
          bus = b, port = n,
          root_port = root_port_of name,
          vid = v, pid = i,
          vendor_name = or_else hv (read_trimmed E (p @ [''manufacturer'']) k),
          product_name =
            or_else (or_else hp (read_trimmed E (p @ [''product'']) k))
              (case (v, i) of
                 (Some v', Some i') \<Rightarrow> Some (''USB device '' @ v' @ '':'' @ i')
               | _ \<Rightarrow> None),
          serial = read_trimmed E (p @ [''serial'']) k,
          removable = read_trimmed E (p @ [''removable'']) k,
          device_class = hex E (p @ [''bDeviceClass'']) k,
          device_subclass = hex E (p @ [''bDeviceSubClass'']) k,
          device_protocol = hex E (p @ [''bDeviceProtocol'']) k,
          interfaces_text =
            (if ifs = [] then None else Some ('':'' @ join '':'' (map triple_text ifs) @ '':'')),
          interfaces = ifs,
          driver_paths = map path_str
            (List.map_filter (\<lambda>c. canonicalize E (root @ [c, ''driver'']) k) children),
          modaliases = fold push_new (descriptor_modaliases E p k v i numbered) aliases\<rparr>)"

text \<open>
  Only directories with both identity attributes are devices; on the real sysfs root, a
  device backing active host storage is left out.
\<close>

definition is_usb_device :: "('k, 'y) env_scheme \<Rightarrow> path \<Rightarrow> 'k \<Rightarrow> string \<Rightarrow> bool" where
  "is_usb_device E root k name \<longleftrightarrow>
     path_exists E (root @ [name, ''idVendor'']) k \<and> path_exists E (root @ [name, ''busnum'']) k"

fun scan_usb_entries ::
  "('k, 'y) env_scheme \<Rightarrow> path \<Rightarrow> bool \<Rightarrow> 'k \<Rightarrow> string option list \<Rightarrow> usb_device list result" where
  "scan_usb_entries E root protect k [] = Inr []"
| "scan_usb_entries E root protect k (None # es) = Inl (io_error ''read_dir entry'')"
| "scan_usb_entries E root protect k (Some n # es) =
     (if \<not> is_usb_device E root k n then scan_usb_entries E root protect k es
      else case (if protect then usb_backs_host_storage E (root @ [n]) k else Inr False) of
             Inl e \<Rightarrow> Inl e
           | Inr True \<Rightarrow> scan_usb_entries E root protect k es
           | Inr False \<Rightarrow>
               (case scan_usb_entries E root protect k es of
                  Inl e \<Rightarrow> Inl e
                | Inr ds \<Rightarrow> Inr (usb_device_at E root k n # ds)))"

definition real_usb_root :: path where
  "real_usb_root = [''/'', ''sys'', ''bus'', ''usb'', ''devices'']"

definition scan_usb :: "('k, 'y) env_scheme \<Rightarrow> path \<Rightarrow> 'k \<Rightarrow> usb_device list result" where
  "scan_usb E root k =
     (case read_dir E root k of
        None \<Rightarrow> Inl (Context (''failed to scan '' @ path_str root) (io_error ''read_dir''))
      | Some es \<Rightarrow>
          (case scan_usb_entries E root (root = real_usb_root) k es of
             Inl e \<Rightarrow> Inl e
           | Inr ds \<Rightarrow> Inr (sort_key sys_name ds)))"

section \<open>Scanning PCI\<close>

definition hex4_text :: "32 word option \<Rightarrow> string option" where
  "hex4_text x = map_option (\<lambda>v. show_hex 4 (unat v)) x"

definition pci_device_at :: "('k, 'y) env_scheme \<Rightarrow> path \<Rightarrow> 'k \<Rightarrow> string \<Rightarrow> pci_device" where
  "pci_device_at E root k name =
     (let p = root @ [name];
          vendor = hex E (p @ [''vendor'']) k;
          device = hex E (p @ [''device'']) k;
          class_code = hex E (p @ [''class'']) k
      in \<lparr>address = name,
          pci_driver = Option.bind (read_link E (p @ [''driver'']) k) path_file_name,
          vendor_id = vendor,
          device_id = device,
          vendor_id_text = hex4_text vendor,
          device_id_text = hex4_text device,
          pci_vendor_name = map_option (\<lambda>t. ''PCI vendor '' @ t) (hex4_text vendor),
          pci_device_name = map_option (\<lambda>t. ''PCI device '' @ t) (hex4_text device),
          pci_class = map_option (\<lambda>v. drop_bit 16 v AND 0xff) class_code,
          pci_subclass = map_option (\<lambda>v. drop_bit 8 v AND 0xff) class_code,
          prog_if = map_option (\<lambda>v. v AND 0xff) class_code,
          pci_subsystem_vendor_id = hex4_text (hex E (p @ [''subsystem_vendor'']) k),
          pci_subsystem_id = hex4_text (hex E (p @ [''subsystem_device'']) k)\<rparr>)"

definition scan_pci :: "('k, 'y) env_scheme \<Rightarrow> path \<Rightarrow> 'k \<Rightarrow> pci_device list result" where
  "scan_pci E root k =
     (case scan_dir E root k of
        Inl e \<Rightarrow> Inl e
      | Inr names \<Rightarrow> Inr (sort_key address (map (pci_device_at E root k) names)))"

definition iommu_group ::
  "('k, 'y) env_scheme \<Rightarrow> string \<Rightarrow> path \<Rightarrow> 'k \<Rightarrow> string list result" where
  "iommu_group E addr root k =
     (let link = root @ [addr, ''iommu_group''] in
      if \<not> path_exists E link k then Inr []
      else case canonicalize E link k of
             None \<Rightarrow> Inl (io_error ''canonicalize'')
           | Some g \<Rightarrow>
               (case read_dir E (g @ [''devices'']) k of
                  None \<Rightarrow> Inl (io_error ''read_dir'')
                | Some es \<Rightarrow> Inr (sort (List.map_filter id es))))"

end
