(* ===== verification/Manager_Base.thy ===== *)
theory Manager_Base
  imports Config Crosvm Usb_Gate State_Store Device_Scan
begin

text \<open>
  What the operations of \<open>src/manager.rs\<close> share: the devices with the rule that routes
  them, selection by an API selector, the listing replies, and the identity of a VM's
  control socket.
\<close>

section \<open>Routed devices\<close>

definition usb_devices :: "'k dm \<Rightarrow> 'k \<Rightarrow> (usb_device \<times> rule_match) list result" where
  "usb_devices D k =
     (case scan_usb D (usb_root D) k of
        Inl e \<Rightarrow> Inl e
      | Inr ds \<Rightarrow>
          Inr (List.map_filter (\<lambda>d. map_option (\<lambda>r. (d, r)) (usb_rule D (cfg D) d)) ds))"

definition usb_bus :: "'k dm \<Rightarrow> 'k \<Rightarrow> path option" where
  "usb_bus D k =
     (case path_parent (usb_root D) of
        None \<Rightarrow> None
      | Some b \<Rightarrow> if path_exists D (b @ [AUTOPROBE]) k then Some b else None)"

fun pci_candidates ::
  "'k dm \<Rightarrow> 'k \<Rightarrow> pci_device list \<Rightarrow> (pci_device \<times> rule_match) list result" where
  "pci_candidates D k [] = Inr []"
| "pci_candidates D k (d # ds) =
     (case pci_rule (cfg D) d of
        None \<Rightarrow> pci_candidates D k ds
      | Some r \<Rightarrow>
          (case (if iommu_skip_if_shared r then iommu_group D (address d) (pci_root D) k
                 else Inr []) of
             Inl e \<Rightarrow> Inl e
           | Inr g \<Rightarrow>
               if iommu_skip_if_shared r \<and> 1 < length g then pci_candidates D k ds
               else (case pci_candidates D k ds of
                       Inl e \<Rightarrow> Inl e
                     | Inr rest \<Rightarrow> Inr ((d, r) # rest))))"

text \<open>The key \<open>sort_by\<close> compares by: the order of the rule, then the address.\<close>

datatype pci_key = PciKey nat string

instantiation pci_key :: linorder
begin

fun less_eq_pci_key :: "pci_key \<Rightarrow> pci_key \<Rightarrow> bool" where
  "less_eq_pci_key (PciKey m a) (PciKey n b) \<longleftrightarrow> m < n \<or> m = n \<and> a \<le> b"

definition less_pci_key :: "pci_key \<Rightarrow> pci_key \<Rightarrow> bool" where
  "less_pci_key x y \<longleftrightarrow> x \<le> y \<and> \<not> y \<le> x"

instance
proof
  fix x y z :: pci_key
  show "x < y \<longleftrightarrow> x \<le> y \<and> \<not> y \<le> x" by (rule less_pci_key_def)
  show "x \<le> x" by (cases x) simp
  show "x \<le> z" if "x \<le> y" and "y \<le> z" using that by (cases x; cases y; cases z) auto
  show "x = y" if "x \<le> y" and "y \<le> x" using that by (cases x; cases y) auto
  show "x \<le> y \<or> y \<le> x" by (cases x; cases y) auto
qed

end

fun pci_key_of :: "pci_device \<times> rule_match \<Rightarrow> pci_key" where
  "pci_key_of (d, r) = PciKey (order r) (address d)"

definition pci_sort :: "(pci_device \<times> rule_match) list \<Rightarrow> (pci_device \<times> rule_match) list" where
  "pci_sort = sort_key pci_key_of"

definition pci_devices :: "'k dm \<Rightarrow> 'k \<Rightarrow> (pci_device \<times> rule_match) list result" where
  "pci_devices D k =
     (case scan_pci D (pci_root D) k of
        Inl e \<Rightarrow> Inl e
      | Inr ds \<Rightarrow>
          (case pci_candidates D k ds of Inl e \<Rightarrow> Inl e | Inr xs \<Rightarrow> Inr (pci_sort xs)))"

section \<open>Listing\<close>

record usb_list_device =
  listed_usb :: usb_device
  listed_usb_allowed :: "string list"
  listed_usb_vm :: "string option"
  listed_usb_disconnected :: bool

record pci_list_device =
  listed_pci :: pci_device
  listed_pci_allowed :: "string list"
  listed_pci_vm :: "string option"
  listed_pci_disconnected :: bool

definition listed ::
  "bool option \<Rightarrow> string option \<Rightarrow> bool \<Rightarrow> rule_match \<Rightarrow> bool" where
  "listed wanted wanted_tag is_disc r =
     (\<not> ((case wanted of None \<Rightarrow> False | Some w \<Rightarrow> w \<noteq> is_disc) \<or>
          (case wanted_tag of None \<Rightarrow> False | Some t \<Rightarrow> tag r \<noteq> Some t)))"

definition list_usb ::
  "'k dm \<Rightarrow> bool option \<Rightarrow> string option \<Rightarrow> 'k manager \<Rightarrow> usb_list_device list result" where
  "list_usb D wanted wanted_tag s =
     (case usb_devices D (kern s) of
        Inl e \<Rightarrow> Inl e
      | Inr ds \<Rightarrow>
          Inr (List.map_filter (\<lambda>(d, r).
                 let is_disc = disconnected (persistent s) (usb_persistent_id d) in
                 if listed wanted wanted_tag is_disc r
                 then Some \<lparr>listed_usb = d, listed_usb_allowed = allowed_vms r,
                            listed_usb_vm = Option.bind (device_node d) (usb_vms s),
                            listed_usb_disconnected = is_disc\<rparr>
                 else None) ds))"

definition list_pci ::
  "'k dm \<Rightarrow> bool option \<Rightarrow> string option \<Rightarrow> 'k manager \<Rightarrow> pci_list_device list result" where
  "list_pci D wanted wanted_tag s =
     (case pci_devices D (kern s) of
        Inl e \<Rightarrow> Inl e
      | Inr ds \<Rightarrow>
          Inr (List.map_filter (\<lambda>(d, r).
                 let is_disc = disconnected (persistent s) (pci_persistent_id d) in
                 if listed wanted wanted_tag is_disc r
                 then Some \<lparr>listed_pci = d, listed_pci_allowed = allowed_vms r,
                            listed_pci_vm = pci_vms s (address d),
                            listed_pci_disconnected = is_disc\<rparr>
                 else None) ds))"

section \<open>Selecting\<close>

definition some_and :: "'a option \<Rightarrow> ('a \<Rightarrow> bool) \<Rightarrow> bool" where
  "some_and x p = (case x of None \<Rightarrow> False | Some a \<Rightarrow> p a)"

definition zip_option :: "'a option \<Rightarrow> 'b option \<Rightarrow> ('a \<times> 'b) option" where
  "zip_option x y = (case (x, y) of (Some a, Some b) \<Rightarrow> Some (a, b) | _ \<Rightarrow> None)"

definition usb_selected :: "selector \<Rightarrow> usb_device \<times> rule_match \<Rightarrow> bool" where
  "usb_selected sel x =
     (case x of (d, r) \<Rightarrow>
        some_and (sel_device_node sel) (\<lambda>v. device_node d = Some v) \<or>
        some_and (zip_option (sel_bus sel) (sel_port sel))
          (\<lambda>(b, p). bus d = Some b \<and> root_port d = Some p) \<or>
        some_and (zip_option (sel_vid sel) (sel_pid sel))
          (\<lambda>(v, p). some_and (vid d) (\<lambda>a. eq_ignore_ascii_case a v) \<and>
                     some_and (pid d) (\<lambda>a. eq_ignore_ascii_case a p)) \<or>
        some_and (sel_tag sel) (\<lambda>t. tag r = Some t))"

definition selected_usb ::
  "'k dm \<Rightarrow> selector \<Rightarrow> 'k \<Rightarrow> (usb_device \<times> rule_match) list result" where
  "selected_usb D sel k =
     (case usb_devices D k of
        Inl e \<Rightarrow> Inl e
      | Inr ds \<Rightarrow>
          (let result = filter (usb_selected sel) ds in
           if result = [] then Inl (Bail ''no matching USB device found'') else Inr result))"

definition pci_selected :: "selector \<Rightarrow> pci_device \<times> rule_match \<Rightarrow> bool" where
  "pci_selected sel x =
     (case x of (d, r) \<Rightarrow>
        some_and (sel_address sel) (\<lambda>v. eq_ignore_ascii_case (address d) v) \<or>
        some_and (zip_option (sel_vid sel) (sel_did sel))
          (\<lambda>(v, p). some_and (vendor_id_text d) (\<lambda>a. eq_ignore_ascii_case a v) \<and>
                     some_and (device_id_text d) (\<lambda>a. eq_ignore_ascii_case a p)) \<or>
        some_and (sel_tag sel) (\<lambda>t. tag r = Some t))"

definition selected_pci ::
  "'k dm \<Rightarrow> selector \<Rightarrow> 'k \<Rightarrow> (pci_device \<times> rule_match) list result" where
  "selected_pci D sel k =
     (case pci_devices D k of
        Inl e \<Rightarrow> Inl e
      | Inr ds \<Rightarrow>
          (let result = filter (pci_selected sel) ds in
           if result = [] then Inl (Bail ''no matching PCI device found'') else Inr result))"

section \<open>Control sockets\<close>

definition policy_enabled :: "'k dm \<Rightarrow> bool" where
  "policy_enabled D = auth_enabled (authorization_policy (cfg D))"

definition socket_generation :: "'k dm \<Rightarrow> path \<Rightarrow> 'k \<Rightarrow> string option" where
  "socket_generation D so k =
     map_option (\<lambda>m. show_dec (unat (dev m)) @ '':'' @ show_dec (unat (ino m)) @ '':'' @
                     int_str (ctime_nsec m))
       (get_metadata D so k)"

definition generation_or_default :: "'k dm \<Rightarrow> path \<Rightarrow> 'k \<Rightarrow> string" where
  "generation_or_default D so k =
     (case socket_generation D so k of None \<Rightarrow> [] | Some g \<Rightarrow> g)"

text \<open>Whether Crosvm lists a device with these identifiers on a port.\<close>

definition live_has ::
  "usb_entry list \<Rightarrow> 8 word \<Rightarrow> string option \<Rightarrow> string option \<Rightarrow> bool" where
  "live_has live p v i = list_ex (\<lambda>(q, a, b). q = p \<and> Some a = v \<and> Some b = i) live"

definition crosvm :: "'k dm \<Rightarrow> path" where
  "crosvm D = crosvm_binary (cfg D)"

text \<open>\<open>vm_stopped\<close>: a control socket exists only while its VM runs.\<close>

definition vm_stopped :: "'k dm \<Rightarrow> string option \<Rightarrow> 'k \<Rightarrow> bool" where
  "vm_stopped D name k =
     (case name of
        None \<Rightarrow> False
      | Some n \<Rightarrow>
          (case find_vm (cfg D) n of
             Inl _ \<Rightarrow> False
           | Inr v \<Rightarrow> \<not> path_exists D (vm_socket v) k))"

section \<open>Facts\<close>

lemma usb_devices_rule:
  "usb_devices D k = Inr xs \<Longrightarrow> (d, r) \<in> set xs \<Longrightarrow> usb_rule D (cfg D) d = Some r"
  by (auto simp: usb_devices_def List.map_filter_def split: sum.splits)

lemma selected_usb_sub:
  "selected_usb D sel k = Inr xs \<Longrightarrow> x \<in> set xs \<Longrightarrow>
     \<exists>ys. usb_devices D k = Inr ys \<and> x \<in> set ys \<and> usb_selected sel x"
  by (auto simp: selected_usb_def Let_def split: sum.splits if_splits)

lemma pci_candidates_rule:
  "pci_candidates D k ds = Inr xs \<Longrightarrow> (d, r) \<in> set xs \<Longrightarrow>
     d \<in> set ds \<and> pci_rule (cfg D) d = Some r"
  by (induction ds arbitrary: xs) (auto split: option.splits sum.splits if_splits)

lemma set_pci_sort [simp]: "set (pci_sort xs) = set xs"
  by (simp add: pci_sort_def)

lemma pci_devices_rule:
  "pci_devices D k = Inr xs \<Longrightarrow> (d, r) \<in> set xs \<Longrightarrow> pci_rule (cfg D) d = Some r"
  by (auto simp: pci_devices_def split: sum.splits dest: pci_candidates_rule)

lemma live_has_iff:
  "live_has live p v i \<longleftrightarrow> (\<exists>a b. (p, a, b) \<in> set live \<and> v = Some a \<and> i = Some b)"
  by (force simp: live_has_def list_ex_iff)

end
