(* ===== verification/Manager_Usb.thy ===== *)
theory Manager_Usb
  imports Manager_Base
begin

text \<open>
  Attaching and detaching USB devices: \<open>attach_one_usb\<close>, \<open>detach_one_usb\<close>, the
  authorization guard, and the selector, suspend and resume loops over them
  (\<open>src/manager.rs\<close>). \<open>attach_one_usb\<close> is split at its stages, composed in the order of
  the code: choose the VM, check it, move the device away from another VM, authorize, claim,
  record.
\<close>

section \<open>The authorization guard\<close>

text \<open>
  \<open>UsbAuthorizationGuard\<close>: armed when the manager itself authorizes the device; dropping
  an armed guard writes the attribute back, and a failure to do so is only logged.
\<close>

definition drop_guard :: "'k dm \<Rightarrow> usb_device \<Rightarrow> bool \<Rightarrow> ('k, unit) manager_op" where
  "drop_guard D d armed =
     (if armed then ignoreE (authorize D (usb_root D) (sys_name d) False) else retE ())"

definition usb_authorization_guard :: "'k dm \<Rightarrow> usb_device \<Rightarrow> ('k, bool) manager_op" where
  "usb_authorization_guard D d =
     bindE (look (authorization D (usb_root D) (sys_name d))) (\<lambda>current.
     (let armed = policy_enabled D \<and> \<not> is_hub d \<and> current \<noteq> Some True in
      if \<not> armed then retE False
      else
        bindE (tryE (ctxE (''cannot authorize '' @ sys_name d)
                 (authorize D (usb_root D) (sys_name d) True))) (\<lambda>r.
        case r of
          Inl e \<Rightarrow> bindE (drop_guard D d True) (\<lambda>_. failE e)
        | Inr _ \<Rightarrow> retE True)))"

text \<open>
  The part of the attach that runs under the guard. \<open>f\<close> ends in an error or in a skip,
  which drop the guard armed, or in a claim, which commits it before \<open>g\<close> goes on.
\<close>

definition under_guard ::
  "'k dm \<Rightarrow> usb_device \<Rightarrow> bool \<Rightarrow> ('k, 'c option) manager_op \<Rightarrow> ('c \<Rightarrow> ('k, unit) manager_op) \<Rightarrow>
     ('k, unit) manager_op" where
  "under_guard D d armed f g =
     bindE (tryE f) (\<lambda>r.
     case r of
       Inl e \<Rightarrow> bindE (drop_guard D d armed) (\<lambda>_. failE e)
     | Inr None \<Rightarrow> drop_guard D d armed
     | Inr (Some c) \<Rightarrow> g c)"

section \<open>Detaching\<close>

definition no_node :: error where
  "no_node = Bail ''USB device has no device node''"

definition detach_by_binding ::
  "'k dm \<Rightarrow> usb_device \<Rightarrow> path \<Rightarrow> usb_port_binding \<Rightarrow> ('k, unit) manager_op" where
  "detach_by_binding D d so b =
     bindE (usb_list D (crosvm D) so) (\<lambda>live.
     case List.find (\<lambda>item. fst item = binding_port b) live of
       None \<Rightarrow> retE ()
     | Some (_, v, i) \<Rightarrow>
         if Some v \<noteq> vid d \<or> Some i \<noteq> pid d then
           failE (Bail ''Crosvm USB port contains a different device; refusing to detach'')
         else usb_detach D (crosvm D) so (binding_port b))"

definition detach_by_identity ::
  "'k dm \<Rightarrow> usb_device \<Rightarrow> path \<Rightarrow> ('k, unit) manager_op" where
  "detach_by_identity D d so =
     bindE (usb_list D (crosvm D) so) (\<lambda>live.
     case filter (\<lambda>(_, v, i). Some v = vid d \<and> Some i = pid d) live of
       [] \<Rightarrow> retE ()
     | [item] \<Rightarrow> usb_detach D (crosvm D) so (fst item)
     | _ \<Rightarrow> failE (Bail ''multiple matching USB devices are attached; refusing an ambiguous detach''))"

text \<open>Ask the VM's Crosvm to let the device go, as far as it can still be asked.\<close>

definition detach_from_vm ::
  "'k dm \<Rightarrow> usb_device \<Rightarrow> string \<Rightarrow> string \<Rightarrow> usb_port_binding option \<Rightarrow> ('k, unit) manager_op" where
  "detach_from_vm D d node name binding =
     bindE (liftE (find_vm (cfg D) name)) (\<lambda>v.
     bindE (look (\<lambda>k. (path_exists D (vm_socket v) k, generation_or_default D (vm_socket v) k)))
       (\<lambda>(present, generation).
     bindE (if \<not> present then retE ()
            else case binding of
                   None \<Rightarrow> detach_by_identity D d (vm_socket v)
                 | Some b \<Rightarrow>
                     if socket_gen b = generation then detach_by_binding D d (vm_socket v) b
                     else detach_by_identity D d (vm_socket v)) (\<lambda>_.
     notify (UsbDetached node name))))"

definition forget_attachment :: "string \<Rightarrow> string \<Rightarrow> 'k manager \<Rightarrow> 'k manager" where
  "forget_attachment node name s =
     s\<lparr>usb_vms := (usb_vms s)(node := None),
       persistent := (persistent s)\<lparr>crosvm_usb_ports :=
         (crosvm_usb_ports (persistent s))(name := None)\<rparr>\<rparr>"

definition forget_pending :: "string \<Rightarrow> 'k manager \<Rightarrow> 'k manager" where
  "forget_pending i s =
     s\<lparr>pending_usb_selection := filter (\<lambda>x. x \<noteq> i) (pending_usb_selection s)\<rparr>"

definition deauthorize_detached :: "'k dm \<Rightarrow> usb_device \<Rightarrow> ('k, unit) manager_op" where
  "deauthorize_detached D d =
     bindE (look (authorization D (usb_root D) (sys_name d))) (\<lambda>a.
     if policy_enabled D \<and> \<not> is_hub d \<and> a \<noteq> None
     then ignoreE (authorize D (usb_root D) (sys_name d) False)
     else retE ())"

definition detach_one_usb :: "'k dm \<Rightarrow> usb_device \<Rightarrow> bool \<Rightarrow> ('k, unit) manager_op" where
  "detach_one_usb D d permanent =
     (case device_node d of
        None \<Rightarrow> failE no_node
      | Some node \<Rightarrow>
          bindE (getE (\<lambda>s. (usb_vms s node, crosvm_usb_ports (persistent s) (sys_name d))))
            (\<lambda>(holder, binding).
          bindE (case or_else holder (map_option binding_vm binding) of
                   None \<Rightarrow> retE ()
                 | Some name \<Rightarrow> detach_from_vm D d node name binding) (\<lambda>_.
          bindE (modE (forget_attachment node (sys_name d))) (\<lambda>_.
          bindE (tryE (bindE (set_disconnected D (usb_persistent_id d) permanent)
                   (\<lambda>_. save D))) (\<lambda>persistence.
          bindE (modE (forget_pending (usb_persistent_id d))) (\<lambda>_.
          bindE (deauthorize_detached D d) (\<lambda>_.
          liftE persistence)))))))"

section \<open>Claiming\<close>

definition choose_vm ::
  "rule_match \<Rightarrow> string option \<Rightarrow> persistent_state \<Rightarrow> string \<Rightarrow> string option" where
  "choose_vm r requested st i =
     or_else requested (or_else (target_vm r) (or_else (selected_vms st i)
       (if length (allowed_vms_list r) = 1 then Some (hd (allowed_vms_list r)) else None)))"

definition ask_selection ::
  "usb_device \<Rightarrow> rule_match \<Rightarrow> ('k, unit) manager_op" where
  "ask_selection d r =
     bindE (getE pending_usb_selection) (\<lambda>pending.
     if usb_persistent_id d \<in> set pending then retE ()
     else
       bindE (modE (\<lambda>s. s\<lparr>pending_usb_selection := usb_persistent_id d # pending_usb_selection s\<rparr>))
         (\<lambda>_. notify (UsbSelectVm d (allowed_vms_list r))))"

definition configure_device :: "'k dm \<Rightarrow> usb_device \<Rightarrow> ('k, unit) manager_op" where
  "configure_device D d =
     bindE (look (\<lambda>k. (usb_bus D k, driver D (usb_root D) (sys_name d) k))) (\<lambda>(b, bound).
     case b of
       None \<Rightarrow> retE ()
     | Some p \<Rightarrow>
         if bound = None
         then ctxE (''cannot configure '' @ sys_name d) (probe D p (sys_name d))
         else retE ())"

text \<open>
  Take host drivers off the interfaces. A hub ends the attach without an error
  (\<open>False\<close>); a \<open>usbfs\<close> binding is a VM's own claim and stays.
\<close>

definition report_hub :: "string \<Rightarrow> ('k, unit) manager_op" where
  "report_hub i =
     modE (\<lambda>s. if i \<in> set (reported_usb_hubs s) then s
               else s\<lparr>reported_usb_hubs := i # reported_usb_hubs s\<rparr>)"

fun release_interfaces ::
  "'k dm \<Rightarrow> usb_device \<Rightarrow> string list \<Rightarrow> ('k, bool) manager_op" where
  "release_interfaces D d [] = retE True"
| "release_interfaces D d (i # is) =
     bindE (look (driver D (usb_root D) i)) (\<lambda>bound.
     if bound = Some HUB then bindE (report_hub (usb_persistent_id d)) (\<lambda>_. retE False)
     else if bound \<noteq> None \<and> bound \<noteq> Some CLAIM then
       bindE (ctxE (''cannot claim '' @ sys_name d) (release D (usb_root D) i))
         (\<lambda>_. release_interfaces D d is)
     else release_interfaces D d is)"

record claim =
  claimed_port :: "8 word"
  stale :: "8 word option"
  generation :: string
  changed :: bool

text \<open>The port an earlier binding of this device to this very socket still occupies.\<close>

definition stale_port ::
  "usb_port_binding option \<Rightarrow> string \<Rightarrow> string \<Rightarrow> usb_entry list \<Rightarrow> 8 word option" where
  "stale_port known name gen live =
     (case known of
        None \<Rightarrow> None
      | Some b \<Rightarrow>
          if binding_vm b = name \<and> socket_gen b = gen \<and>
             live_has live (binding_port b) (binding_vid b) (binding_pid b)
          then Some (binding_port b) else None)"

definition binding_current ::
  "usb_device \<Rightarrow> string \<Rightarrow> string \<Rightarrow> usb_port_binding \<Rightarrow> bool" where
  "binding_current d name gen b \<longleftrightarrow>
     binding_vm b = name \<and> socket_gen b = gen \<and> binding_vid b = vid d \<and>
     binding_pid b = pid d \<and> binding_serial b = serial d"

text \<open>Reuse the live port of a current binding, or attach.\<close>

definition obtain_port ::
  "'k dm \<Rightarrow> usb_device \<Rightarrow> string \<Rightarrow> vm \<Rightarrow> string \<Rightarrow> usb_entry list \<Rightarrow> bool \<Rightarrow>
     ('k, claim) manager_op" where
  "obtain_port D d node v gen live moved =
     bindE (getE (\<lambda>s. crosvm_usb_ports (persistent s) (sys_name d))) (\<lambda>known.
     (let left = stale_port known (vm_name v) gen live;
          attach = bindE (usb_attach D (crosvm D) (vm_socket v) node) (\<lambda>p.
            retE \<lparr>claimed_port = p, stale = (if left = Some p then None else left),
                  generation = gen, changed = True\<rparr>)
      in case known of
           Some b \<Rightarrow>
             if binding_current d (vm_name v) gen b \<and>
                live_has live (binding_port b) (vid d) (pid d)
             then retE \<lparr>claimed_port = binding_port b, stale = None,
                        generation = gen, changed = moved\<rparr>
             else attach
         | None \<Rightarrow> attach))"

definition query_vm ::
  "'k dm \<Rightarrow> vm \<Rightarrow> ('k, string \<times> usb_entry list) manager_op" where
  "query_vm D v =
     bindE (look (generation_or_default D (vm_socket v))) (\<lambda>gen.
     bindE (usb_list D (crosvm D) (vm_socket v)) (\<lambda>live.
     retE (gen, live)))"

definition claim_usb ::
  "'k dm \<Rightarrow> usb_device \<Rightarrow> string \<Rightarrow> vm \<Rightarrow> (string \<times> usb_entry list) option \<Rightarrow> bool \<Rightarrow>
     ('k, claim option) manager_op" where
  "claim_usb D d node v preflight moved =
     bindE (configure_device D d) (\<lambda>_.
     bindE (ctxE (''cannot claim '' @ sys_name d)
              (look_result (interface_names D (usb_root D) (sys_name d)))) (\<lambda>is.
     bindE (release_interfaces D d is) (\<lambda>free.
     if \<not> free then retE None
     else
       bindE (case preflight of Some p \<Rightarrow> retE p | None \<Rightarrow> query_vm D v) (\<lambda>(gen, live).
       bindE (obtain_port D d node v gen live moved) (\<lambda>c. retE (Some c))))))"

section \<open>Recording\<close>

definition record_port ::
  "usb_device \<Rightarrow> string \<Rightarrow> claim \<Rightarrow> 'k manager \<Rightarrow> 'k manager" where
  "record_port d name c s =
     s\<lparr>persistent := (persistent s)\<lparr>crosvm_usb_ports :=
         (crosvm_usb_ports (persistent s))(sys_name d := Some
           \<lparr>binding_vm = name, binding_port = claimed_port c, socket_gen = generation c,
            binding_vid = vid d, binding_pid = pid d, binding_serial = serial d\<rparr>)\<rparr>\<rparr>"

definition record_attachment ::
  "'k dm \<Rightarrow> usb_device \<Rightarrow> string \<Rightarrow> vm \<Rightarrow> claim \<Rightarrow> ('k, unit) manager_op" where
  "record_attachment D d node v c =
     bindE (case stale c of
              None \<Rightarrow> retE ()
            | Some p \<Rightarrow> usb_detach D (crosvm D) (vm_socket v) p) (\<lambda>_.
     bindE (modE (\<lambda>s. s\<lparr>usb_vms := (usb_vms s)(node := Some (vm_name v))\<rparr>)) (\<lambda>_.
     bindE (select_vm D (usb_persistent_id d) (vm_name v)) (\<lambda>_.
     bindE (set_disconnected D (usb_persistent_id d) False) (\<lambda>_.
     bindE (modE (record_port d (vm_name v) c)) (\<lambda>_.
     bindE (save D) (\<lambda>_.
     bindE (modE (forget_pending (usb_persistent_id d))) (\<lambda>_.
     if changed c then notify (UsbAttached d (vm_name v)) else retE ())))))))"

section \<open>Attaching\<close>

definition not_allowed :: "string \<Rightarrow> usb_device \<Rightarrow> error" where
  "not_allowed name d =
     Bail (''VM '' @ name @ '' is not allowed for USB device '' @ sys_name d)"

definition preflight_vm ::
  "'k dm \<Rightarrow> usb_device \<Rightarrow> vm \<Rightarrow> ('k, (string \<times> usb_entry list) option) manager_op" where
  "preflight_vm D d v =
     bindE (look (path_exists D (vm_socket v))) (\<lambda>present.
     if policy_enabled D \<and> \<not> present then
       failE (Bail (''VM '' @ vm_name v @ '' socket is absent; deferring USB authorization''))
     else if policy_enabled D \<and> \<not> is_hub d then
       bindE (query_vm D v) (\<lambda>p. retE (Some p))
     else retE None)"

definition attach_to_vm ::
  "'k dm \<Rightarrow> usb_device \<Rightarrow> vm \<Rightarrow> ('k, unit) manager_op" where
  "attach_to_vm D d v =
     bindE (preflight_vm D d v) (\<lambda>preflight.
     case device_node d of
       None \<Rightarrow> failE no_node
     | Some node \<Rightarrow>
         bindE (getE (\<lambda>s. usb_vms s node)) (\<lambda>holder.
         bindE (if holder \<noteq> None \<and> holder \<noteq> Some (vm_name v)
                then detach_one_usb D d False else retE ()) (\<lambda>_.
         bindE (usb_authorization_guard D d) (\<lambda>armed.
         under_guard D d armed
           (claim_usb D d node v preflight (holder \<noteq> Some (vm_name v)))
           (record_attachment D d node v)))))"

definition attach_one_usb ::
  "'k dm \<Rightarrow> usb_device \<Rightarrow> rule_match \<Rightarrow> string option \<Rightarrow> ('k, unit) manager_op" where
  "attach_one_usb D d r requested =
     bindE (getE (\<lambda>s. choose_vm r requested (persistent s) (usb_persistent_id d))) (\<lambda>chosen.
     case chosen of
       None \<Rightarrow> ask_selection d r
     | Some name \<Rightarrow>
         if name \<notin> set (allowed_vms r) then failE (not_allowed name d)
         else
           bindE (liftE (find_vm (cfg D) name)) (\<lambda>v. attach_to_vm D d v))"

section \<open>Operations over the selected devices\<close>

definition attach_usb :: "'k dm \<Rightarrow> selector \<Rightarrow> string option \<Rightarrow> ('k, unit) manager_op" where
  "attach_usb D sel requested =
     bindE (look_result (selected_usb D sel)) (\<lambda>ds.
     for_each (\<lambda>(d, r). sys_name d) (\<lambda>(d, r). attach_one_usb D d r requested) ds)"

definition detach_usb :: "'k dm \<Rightarrow> selector \<Rightarrow> bool \<Rightarrow> ('k, unit) manager_op" where
  "detach_usb D sel permanent =
     bindE (look_result (selected_usb D sel)) (\<lambda>ds.
     for_each (\<lambda>(d, r). sys_name d) (\<lambda>(d, r). detach_one_usb D d permanent) ds)"

definition in_vm :: "string option \<Rightarrow> string option \<Rightarrow> bool" where
  "in_vm wanted holder \<longleftrightarrow>
     (case holder of None \<Rightarrow> False
      | Some name \<Rightarrow> (case wanted of None \<Rightarrow> True | Some w \<Rightarrow> w = name))"

definition suspend_one_usb :: "'k dm \<Rightarrow> string option \<Rightarrow> usb_device \<Rightarrow> ('k, unit) manager_op" where
  "suspend_one_usb D wanted d =
     bindE (getE (\<lambda>s. usb_vms s (case device_node d of None \<Rightarrow> [] | Some n \<Rightarrow> n))) (\<lambda>holder.
     if in_vm wanted holder then detach_one_usb D d False else retE ())"

definition suspend_usb :: "'k dm \<Rightarrow> string option \<Rightarrow> ('k, unit) manager_op" where
  "suspend_usb D wanted =
     bindE (look_result (usb_devices D)) (\<lambda>ds.
     for_each (\<lambda>(d, r). sys_name d) (\<lambda>(d, r). suspend_one_usb D wanted d)
       (filter (\<lambda>(d, r). \<not> skip_on_suspend r) ds))"

text \<open>A failure to attach because the VM is not running is deferred, not reported.\<close>

definition defer_if_stopped ::
  "'k dm \<Rightarrow> string option \<Rightarrow> ('k, unit) manager_op \<Rightarrow> ('k, unit) manager_op" where
  "defer_if_stopped D target f =
     bindE (tryE f) (\<lambda>r.
     case r of
       Inr _ \<Rightarrow> retE ()
     | Inl e \<Rightarrow>
         bindE (look (vm_stopped D target)) (\<lambda>stopped.
         if stopped then modE (\<lambda>s. s\<lparr>deferred := True\<rparr>) else failE e))"

definition in_scope :: "string option \<Rightarrow> string option \<Rightarrow> bool" where
  "in_scope wanted target =
     (case (wanted, target) of
        (Some w, Some n) \<Rightarrow> w = n
      | (Some _, None) \<Rightarrow> False
      | (None, _) \<Rightarrow> True)"

definition resume_one_usb ::
  "'k dm \<Rightarrow> string option \<Rightarrow> usb_device \<Rightarrow> rule_match \<Rightarrow> ('k, unit) manager_op" where
  "resume_one_usb D wanted d r =
     bindE (getE persistent) (\<lambda>st.
     if disconnected st (usb_persistent_id d) then retE ()
     else
       (let target = or_else (target_vm r) (selected_vms st (usb_persistent_id d)) in
        if in_scope wanted target
        then defer_if_stopped D target (attach_one_usb D d r target)
        else retE ()))"

definition resume_usb :: "'k dm \<Rightarrow> string option \<Rightarrow> ('k, unit) manager_op" where
  "resume_usb D wanted =
     bindE (look_result (usb_devices D)) (\<lambda>ds.
     for_each (\<lambda>(d, r). sys_name d) (\<lambda>(d, r). resume_one_usb D wanted d r) ds)"

end
