(* ===== verification/Usb_Effects.thy ===== *)
theory Usb_Effects
  imports Manager_Usb
begin

text \<open>
  What the USB operations issue. Each operation gets one lemma that lists its effects; the
  properties about effects are instances of these lemmas.
\<close>

definition auth_path :: "'k dm \<Rightarrow> usb_device \<Rightarrow> path" where
  "auth_path D d = usb_root D @ [sys_name d, AUTHORIZED]"

text \<open>Effects that neither attach a device nor touch the sysfs.\<close>

definition bookkeeping :: "'k dm \<Rightarrow> effect \<Rightarrow> bool" where
  "bookkeeping D e \<longleftrightarrow>
     state_file_effect (cfg D) e \<or> (\<exists>n. e = Notify n) \<or>
     (\<exists>v\<in>set (vms (cfg D)). e = request (crosvm D) [''usb'', ''list'', path_str (vm_socket v)]) \<or>
     (\<exists>v\<in>set (vms (cfg D)). \<exists>p. e = request (crosvm D) (detach_args p (vm_socket v)))"

lemma bookkeepingI [simp]:
  "state_file_effect (cfg D) e \<Longrightarrow> bookkeeping D e"
  "bookkeeping D (Notify n)"
  "v \<in> set (vms (cfg D)) \<Longrightarrow>
     bookkeeping D (request (crosvm D) [''usb'', ''list'', path_str (vm_socket v)])"
  "v \<in> set (vms (cfg D)) \<Longrightarrow> bookkeeping D (request (crosvm D) (detach_args p (vm_socket v)))"
  by (auto simp: bookkeeping_def)

lemma state_file_effect_not [simp]:
  "\<not> state_file_effect c (Write p v)" "\<not> state_file_effect c (Run b args)"
  "\<not> state_file_effect c (Notify n)"
  by (auto simp: state_file_effect_def Let_def split: option.split)

lemma bookkeeping_not_write [simp]: "\<not> bookkeeping D (Write p v)"
  by (auto simp: bookkeeping_def)

fun is_usb_attach :: "effect \<Rightarrow> bool" where
  "is_usb_attach (Run b (s # u # a # args)) \<longleftrightarrow> u = ''usb'' \<and> a = ''attach''"
| "is_usb_attach _ = False"

lemma is_usb_attach_simps [simp]:
  "is_usb_attach (request b (attach_args n so))"
  "\<not> is_usb_attach (request b [''usb'', ''list'', x])"
  "\<not> is_usb_attach (request b (detach_args p so))"
  "\<not> is_usb_attach (request b (''vfio'' # args))"
  by (cases args; simp add: request_def attach_args_def detach_args_def)+

lemma bookkeeping_not_attach [simp]: "bookkeeping D e \<Longrightarrow> \<not> is_usb_attach e"
  by (auto simp: bookkeeping_def) (cases e; simp)

lemma state_file_not_attach: "state_file_effect c e \<Longrightarrow> \<not> is_usb_attach e"
  by (cases e) simp_all

section \<open>Detaching\<close>

lemma emits_notify_op [emits_intro]: "(\<And>k. A (Notify n, k)) \<Longrightarrow> emits A (notify n)"
  by (rule emits_prims)

lemma emits_drop_guard [emits_intro]:
  "(\<And>k. A (Write (auth_path D d) ''0'', k)) \<Longrightarrow> emits A (drop_guard D d armed)"
  unfolding drop_guard_def by (intro emits_intro) (simp_all add: auth_path_def flag_def)

lemma emits_detach_from_vm:
  assumes "\<And>e k. bookkeeping D e \<Longrightarrow> A (e, k)"
  shows "emits A (detach_from_vm D d node name binding)"
  unfolding detach_from_vm_def detach_by_binding_def detach_by_identity_def
  by (intro emits_lift_bind emits_intro) (auto intro!: assms dest: find_vm_Inr)

lemma emits_detach_one_usb:
  assumes "\<And>e k. bookkeeping D e \<Longrightarrow> A (e, k)"
    and "\<And>k. A (Write (auth_path D d) ''0'', k)"
  shows "emits A (detach_one_usb D d permanent)"
  using assms(2) unfolding detach_one_usb_def deauthorize_detached_def
  by (intro emits_intro emits_detach_from_vm)
    (auto intro: assms(1) simp: forget_attachment_def forget_pending_def auth_path_def flag_def)

section \<open>Attaching\<close>

text \<open>
  The effects an attach of \<open>d\<close> to \<open>v\<close> can have: bookkeeping, its own authorization
  attribute, the probe that configures it, unbinding drivers from interfaces, and the attach
  command for its node on the socket of \<open>v\<close>.
\<close>

definition attach_effect :: "'k dm \<Rightarrow> usb_device \<Rightarrow> vm \<Rightarrow> effect \<Rightarrow> bool" where
  "attach_effect D d v e \<longleftrightarrow>
     bookkeeping D e \<or>
     (\<exists>f. e = Write (auth_path D d) (flag f)) \<or>
     (\<exists>b. path_parent (usb_root D) = Some b \<and> e = Write (b @ [''drivers_probe'']) (sys_name d)) \<or>
     (\<exists>i. e = Write (unbind_path (usb_root D) i) i) \<or>
     (\<exists>n. device_node d = Some n \<and> e = request (crosvm D) (attach_args n (vm_socket v)))"

lemma attach_effectI [simp]:
  "bookkeeping D e \<Longrightarrow> attach_effect D d v e"
  "attach_effect D d v (Write (auth_path D d) ''0'')"
  "attach_effect D d v (Write (auth_path D d) ''1'')"
  "attach_effect D d v (Write (unbind_path (usb_root D) i) i)"
  "device_node d = Some n \<Longrightarrow> attach_effect D d v (request (crosvm D) (attach_args n (vm_socket v)))"
  by (auto simp: attach_effect_def flag_def intro: exI [of _ False] exI [of _ True])

lemma attach_effect_probe [simp]:
  "path_parent (usb_root D) = Some b \<Longrightarrow> attach_effect D d v (Write (b @ [''drivers_probe'']) (sys_name d))"
  by (auto simp: attach_effect_def)

lemma emits_guard:
  assumes "\<And>k. A (Write (auth_path D d) ''0'', k)" and "\<And>k. A (Write (auth_path D d) ''1'', k)"
  shows "emits A (usb_authorization_guard D d)"
  unfolding usb_authorization_guard_def Let_def
  by (intro emits_intro) (use assms in \<open>auto simp: auth_path_def flag_def\<close>)

lemma emits_under_guard:
  assumes "emits A f" and "\<And>c. emits A (g c)" and "\<And>k. A (Write (auth_path D d) ''0'', k)"
  shows "emits A (under_guard D d armed f g)"
  unfolding under_guard_def by (intro emits_intro assms)

lemma emits_release_interfaces:
  assumes "\<And>i k. i \<in> set is \<Longrightarrow> A (Write (unbind_path (usb_root D) i) i, k)"
  shows "emits A (release_interfaces D d is)"
  using assms
  by (induction "is") (auto simp: report_hub_def intro!: emits_intro)

lemma usb_bus_parent: "usb_bus D k = Some b \<Longrightarrow> path_parent (usb_root D) = Some b"
  by (auto simp: usb_bus_def split: option.splits if_splits)

lemma emits_look_bind:
  "(\<And>k. emits A (g (f k))) \<Longrightarrow> emits A (bindE (look f) g)"
  unfolding emits_def look_bind by blast

lemma emits_configure_device:
  assumes "\<And>b k. path_parent (usb_root D) = Some b \<Longrightarrow> A (Write (b @ [''drivers_probe'']) (sys_name d), k)"
  shows "emits A (configure_device D d)"
  unfolding configure_device_def
  by (rule emits_look_bind) (auto intro!: emits_intro assms dest: usb_bus_parent)

lemma emits_query_vm:
  assumes "\<And>k. A (request (crosvm D) [''usb'', ''list'', path_str (vm_socket v)], k)"
  shows "emits A (query_vm D v)"
  unfolding query_vm_def by (intro emits_intro assms)

lemma emits_obtain_port:
  assumes "\<And>k. A (request (crosvm D) [''usb'', ''list'', path_str (vm_socket v)], k)"
    and "\<And>k. A (request (crosvm D) (attach_args node (vm_socket v)), k)"
  shows "emits A (obtain_port D d node v gen live moved)"
  unfolding obtain_port_def Let_def by (intro emits_intro assms)

lemma emits_claim_usb:
  assumes "device_node d = Some node" and "v \<in> set (vms (cfg D))"
  shows "emits (\<lambda>x. attach_effect D d v (fst x)) (claim_usb D d node v preflight moved)"
  unfolding claim_usb_def
  by (intro emits_intro emits_configure_device emits_release_interfaces emits_query_vm
      emits_obtain_port) (auto simp: assms)

lemma emits_record_attachment:
  assumes "\<And>e k. bookkeeping D e \<Longrightarrow> A (e, k)" and "v \<in> set (vms (cfg D))"
  shows "emits A (record_attachment D d node v c)"
  unfolding record_attachment_def
  by (intro emits_intro) (use assms(2) in \<open>auto intro!: assms(1)
      simp: record_port_def forget_pending_def\<close>)

lemma emits_attach_to_vm:
  assumes "v \<in> set (vms (cfg D))"
  shows "emits (\<lambda>x. attach_effect D d v (fst x)) (attach_to_vm D d v)"
  unfolding attach_to_vm_def preflight_vm_def
  by (intro emits_intro emits_query_vm emits_detach_one_usb emits_guard emits_under_guard
      emits_claim_usb emits_record_attachment) (use assms in auto)

text \<open>The guarded part only adds to the history, whatever VM it is for.\<close>

lemma extends_last:
  "emits (\<lambda>_. True)
     (under_guard D d armed (claim_usb D d node v p moved) (record_attachment D d node v))"
proof -
  have "emits (\<lambda>_. True) (claim_usb D d node v p moved)"
    unfolding claim_usb_def
    by (intro emits_intro emits_configure_device emits_release_interfaces emits_query_vm
        emits_obtain_port) simp_all
  moreover have "emits (\<lambda>_. True) (record_attachment D d node v c)" for c
    unfolding record_attachment_def
    by (intro emits_intro) (simp_all add: record_port_def forget_pending_def)
  ultimately show ?thesis by (intro emits_under_guard) simp_all
qed

text \<open>The history grew without an attach command. When a quiet operation comes first, an attach
  command of the whole belongs to the rest, so the first succeeded.\<close>

definition quiet :: "'k manager \<Rightarrow> 'k manager \<Rightarrow> bool" where
  "quiet s t \<longleftrightarrow>
     (\<exists>new. history t = history s @ new \<and> list_all (\<lambda>x. \<not> is_usb_attach (fst x)) new)"

lemma quiet_refl: "quiet s s"
  by (simp add: quiet_def)

lemma quiet_trans: "quiet s t \<Longrightarrow> quiet t u \<Longrightarrow> quiet s u"
  unfolding quiet_def by fastforce

lemma emits_quiet: "emits (\<lambda>x. \<not> is_usb_attach (fst x)) f \<Longrightarrow> f s = (r, t) \<Longrightarrow> quiet s t"
  unfolding quiet_def by (erule (1) emitsD) blast

lemma quiet_stage:
  assumes "emits (\<lambda>x. \<not> is_usb_attach (fst x)) f" and "\<And>a. emits (\<lambda>_. True) (g a)"
    and "bindE f g s = (res, t)"
    and "x \<in> set (drop (length (history s)) (history t))" and "is_usb_attach (fst x)"
  obtains a u where "f s = (Inr a, u)" and "quiet s u" and "g a u = (res, t)"
    and "x \<in> set (drop (length (history u)) (history t))"
proof -
  obtain r u where f: "f s = (r, u)" by fastforce
  have q: "quiet s u" by (rule emits_quiet [OF assms(1) f])
  then obtain n where n: "history u = history s @ n" "list_all (\<lambda>x. \<not> is_usb_attach (fst x)) n"
    by (auto simp: quiet_def)
  show thesis
  proof (cases r)
    case (Inl e)
    then have "history t = history u" using assms(3) f by (simp add: bindE_apply)
    then show thesis using assms(4,5) n by (auto simp: list_all_iff)
  next
    case (Inr a)
    then have g: "g a u = (res, t)" using assms(3) f by (simp add: bindE_apply)
    obtain m where m: "history t = history u @ m" using emitsD [OF assms(2) g] by blast
    then have "x \<in> set m" using assms(4,5) n by (auto simp: list_all_iff)
    then show thesis using that f Inr q g m by simp
  qed
qed

text \<open>The effects of attaching by a rule: those of one VM the rule allows.\<close>

definition permitted_attach :: "'k dm \<Rightarrow> usb_device \<Rightarrow> rule_match \<Rightarrow> effect \<Rightarrow> bool" where
  "permitted_attach D d r e \<longleftrightarrow>
     bookkeeping D e \<or>
     (\<exists>v\<in>set (vms (cfg D)). vm_name v \<in> set (allowed_vms r) \<and> attach_effect D d v e)"

lemma emits_attach_one_usb:
  "emits (\<lambda>x. permitted_attach D d r (fst x)) (attach_one_usb D d r requested)"
proof -
  let ?A = "\<lambda>x. permitted_attach D d r (fst x)"
  have ask: "emits ?A (ask_selection d r)"
    unfolding ask_selection_def by (intro emits_intro) (auto simp: permitted_attach_def)
  have go: "emits ?A (bindE (liftE (find_vm (cfg D) name)) (\<lambda>v. attach_to_vm D d v))"
    if "name \<in> set (allowed_vms r)" for name
  proof (rule emits_lift_bind)
    fix v assume "find_vm (cfg D) name = Inr v"
    then have "v \<in> set (vms (cfg D))" and "vm_name v \<in> set (allowed_vms r)"
      using find_vm_Inr [of "cfg D" name v] that by auto
    then show "emits ?A (attach_to_vm D d v)"
      by (auto intro: emits_mono [OF emits_attach_to_vm] simp: permitted_attach_def)
  qed
  show ?thesis
    unfolding attach_one_usb_def by (intro emits_intro ask go) auto
qed

end
