(* ===== verification/Protocol.thy ===== *)
theory Protocol
  imports Manager_Base
begin

text \<open>The API messages and their conversions, \<open>src/protocol.rs\<close>.\<close>

datatype usb_selector =
    ByDeviceNode string
  | ByBusPort "32 word" "32 word"
  | ByVidPid string string
  | ByUsbTag string

datatype pci_selector =
    ByAddress string
  | ByVidDid string string
  | ByPciTag string

datatype action =
    EnableNotifications
  | UsbList "bool option" "string option"
  | UsbAttach usb_selector "string option"
  | UsbDetach usb_selector
  | UsbSuspend "string option"
  | UsbResume "string option"
  | PciList "bool option" "string option"
  | PciAttach pci_selector "string option"
  | PciDetach pci_selector
  | PciSuspend "string option"
  | PciResume "string option"
  | VmmArgs string "string option" "32 word option" bool

datatype payload =
    UsbListPayload "usb_list_device list"
  | PciListPayload "pci_list_device list"
  | VmmArgsPayload "string list"
  | EmptyPayload

datatype response = OkResponse payload | FailedResponse string

fun selector_of_usb :: "usb_selector \<Rightarrow> selector" where
  "selector_of_usb (ByDeviceNode n) = default_selector\<lparr>sel_device_node := Some n\<rparr>"
| "selector_of_usb (ByBusPort b p) = default_selector\<lparr>sel_bus := Some b, sel_port := Some p\<rparr>"
| "selector_of_usb (ByVidPid v p) = default_selector\<lparr>sel_vid := Some v, sel_pid := Some p\<rparr>"
| "selector_of_usb (ByUsbTag t) = default_selector\<lparr>sel_tag := Some t\<rparr>"

fun selector_of_pci :: "pci_selector \<Rightarrow> selector" where
  "selector_of_pci (ByAddress a) = default_selector\<lparr>sel_address := Some a\<rparr>"
| "selector_of_pci (ByVidDid v d) = default_selector\<lparr>sel_vid := Some v, sel_did := Some d\<rparr>"
| "selector_of_pci (ByPciTag t) = default_selector\<lparr>sel_tag := Some t\<rparr>"

text \<open>\<open>From<Result<ResponsePayload>>\<close> and \<open>TryInto<ResponsePayload>\<close>.\<close>

definition response_of :: "payload result \<Rightarrow> response" where
  "response_of r =
     (case r of Inl e \<Rightarrow> FailedResponse (error_msg e) | Inr p \<Rightarrow> OkResponse p)"

fun payload_of :: "response \<Rightarrow> payload result" where
  "payload_of (OkResponse p) = Inr p"
| "payload_of (FailedResponse m) = Inl (Bail m)"

end
