(* ===== verification/Manager_Pci.thy ===== *)
theory Manager_Pci
  imports Manager_Usb
begin

text \<open>
  Attaching and detaching PCI devices with their IOMMU group (\<open>src/manager.rs\<close>), and the
  selector, suspend and resume loops over them.
\<close>

definition group_or_self :: "string \<Rightarrow> string list \<Rightarrow> string list" where
  "group_or_self addr g = (if g = [] then [addr] else g)"

definition add_missing ::
  "'k dm \<Rightarrow> path \<Rightarrow> string list \<Rightarrow> string \<Rightarrow> ('k, unit) manager_op" where
  "add_missing D so live addr =
     (if vfio_path addr \<in> set live then retE ()
      else ctxE (''failed to attach '' @ addr @
                 ''; its IOMMU group remains quarantined under vfio-pci'')
             (vfio_add D (crosvm D) so addr))"

text \<open>With its message around it, adding a function is still a verified change.\<close>

interpretation add_step: verified_change
  "\<lambda>a. ctxE (''failed to attach '' @ a @ ''; its IOMMU group remains quarantined under vfio-pci'')
          (vfio_add D (crosvm D) so a)"
  "shown D (crosvm D) so True" for D :: "'k dm" and so
proof
  fix a s t
  assume "ctxE (''failed to attach '' @ a @ ''; its IOMMU group remains quarantined under vfio-pci'')
      (vfio_add D (crosvm D) so a) s = (Inr (), t)"
  then have "vfio_add D (crosvm D) so a s = (Inr (), t)" by (simp add: ctxE_apply prod_eq_iff)
  then show "\<exists>x\<in>fresh_effects s t. shown D (crosvm D) so True a x" by (rule hotplug.change_seen)
next
  fix a
  show "emits (\<lambda>_. True) (ctxE (''failed to attach '' @ a @
      ''; its IOMMU group remains quarantined under vfio-pci'') (vfio_add D (crosvm D) so a))"
    by (rule emits_wrap(2) [OF hotplug.change_extends])
qed

definition record_pci :: "string list \<Rightarrow> string \<Rightarrow> 'k manager \<Rightarrow> 'k manager" where
  "record_pci addrs name s =
     s\<lparr>pci_vms := (\<lambda>a. if a \<in> set addrs then Some name else pci_vms s a)\<rparr>"

definition attach_pci_to ::
  "'k dm \<Rightarrow> pci_device \<Rightarrow> rule_match \<Rightarrow> vm \<Rightarrow> ('k, unit) manager_op" where
  "attach_pci_to D d r v =
     bindE (ctxE ''VFIO hotplug preflight failed'' (vfio_list D (crosvm D) (vm_socket v))) (\<lambda>live.
     bindE (look_result (iommu_group D (address d) (pci_root D))) (\<lambda>group.
     if iommu_skip_if_shared r \<and> 1 < length group
     then failE (Bail (''IOMMU group for '' @ address d @ '' is shared''))
     else
       (let quarantine = group_or_self (address d) group;
            attach = (if iommu_add_all r then quarantine else [address d]) in
        bindE (forE quarantine (\<lambda>a. bind_vfio D a (pci_root D))) (\<lambda>_.
        bindE (getE (\<lambda>s. list_ex (\<lambda>a. pci_vms s a \<noteq> Some (vm_name v)) attach)) (\<lambda>unrecorded.
        bindE (forE attach (add_missing D (vm_socket v) live)) (\<lambda>_.
        bindE (modE (record_pci attach (vm_name v))) (\<lambda>_.
        bindE (set_disconnected D (pci_persistent_id d) False) (\<lambda>_.
        if unrecorded \<or> list_ex (\<lambda>a. vfio_path a \<notin> set live) attach
        then notify (PciAttached d (vm_name v)) else retE ()))))))))"

definition attach_one_pci ::
  "'k dm \<Rightarrow> pci_device \<Rightarrow> rule_match \<Rightarrow> string option \<Rightarrow> ('k, unit) manager_op" where
  "attach_one_pci D d r requested =
     bindE (liftE (option_context ''PCI rule has no targetVm'' (target_vm r))) (\<lambda>target.
     (let name = (case requested of None \<Rightarrow> target | Some n \<Rightarrow> n) in
      if name \<noteq> target then
        failE (Bail (''VM '' @ name @ '' is not allowed for PCI device '' @ address d))
      else
        bindE (liftE (find_vm (cfg D) name)) (\<lambda>v. attach_pci_to D d r v)))"

definition forget_pci :: "string list \<Rightarrow> 'k manager \<Rightarrow> 'k manager" where
  "forget_pci addrs s = s\<lparr>pci_vms := (\<lambda>a. if a \<in> set addrs then None else pci_vms s a)\<rparr>"

definition detach_pci_from ::
  "'k dm \<Rightarrow> pci_device \<Rightarrow> rule_match \<Rightarrow> string \<Rightarrow> ('k, unit) manager_op" where
  "detach_pci_from D d r name =
     bindE (liftE (find_vm (cfg D) name)) (\<lambda>v.
     bindE (look_result (iommu_group D (address d) (pci_root D))) (\<lambda>group.
     (let detach = (if iommu_add_all r \<and> group \<noteq> [] then group else [address d]) in
      bindE (look (path_exists D (vm_socket v))) (\<lambda>present.
      bindE (if present
             then forE detach (\<lambda>a. vfio_remove D (crosvm D) (vm_socket v) a)
             else retE ()) (\<lambda>_.
      bindE (modE (forget_pci detach)) (\<lambda>_.
      notify (PciDetached d name)))))))"

definition detach_one_pci ::
  "'k dm \<Rightarrow> pci_device \<Rightarrow> rule_match \<Rightarrow> bool \<Rightarrow> ('k, unit) manager_op" where
  "detach_one_pci D d r permanent =
     bindE (getE (\<lambda>s. or_else (pci_vms s (address d)) (target_vm r))) (\<lambda>holder.
     bindE (case holder of None \<Rightarrow> retE () | Some name \<Rightarrow> detach_pci_from D d r name) (\<lambda>_.
     set_disconnected D (pci_persistent_id d) permanent))"

definition attach_pci :: "'k dm \<Rightarrow> selector \<Rightarrow> string option \<Rightarrow> ('k, unit) manager_op" where
  "attach_pci D sel requested =
     bindE (look_result (selected_pci D sel)) (\<lambda>ds.
     for_each (\<lambda>(d, r). address d) (\<lambda>(d, r). attach_one_pci D d r requested) ds)"

definition detach_pci :: "'k dm \<Rightarrow> selector \<Rightarrow> bool \<Rightarrow> ('k, unit) manager_op" where
  "detach_pci D sel permanent =
     bindE (look_result (selected_pci D sel)) (\<lambda>ds.
     for_each (\<lambda>(d, r). address d) (\<lambda>(d, r). detach_one_pci D d r permanent) ds)"

definition suspend_one_pci ::
  "'k dm \<Rightarrow> string option \<Rightarrow> pci_device \<Rightarrow> rule_match \<Rightarrow> ('k, unit) manager_op" where
  "suspend_one_pci D wanted d r =
     bindE (getE (\<lambda>s. pci_vms s (address d))) (\<lambda>holder.
     if in_vm wanted holder then detach_one_pci D d r False else retE ())"

definition suspend_pci :: "'k dm \<Rightarrow> string option \<Rightarrow> ('k, unit) manager_op" where
  "suspend_pci D wanted =
     bindE (look_result (pci_devices D)) (\<lambda>ds.
     for_each (\<lambda>(d, r). address d) (\<lambda>(d, r). suspend_one_pci D wanted d r)
       (filter (\<lambda>(d, r). \<not> skip_on_suspend r) ds))"

definition resume_one_pci ::
  "'k dm \<Rightarrow> string option \<Rightarrow> pci_device \<Rightarrow> rule_match \<Rightarrow> ('k, unit) manager_op" where
  "resume_one_pci D wanted d r =
     bindE (getE persistent) (\<lambda>st.
     if disconnected st (pci_persistent_id d) then retE ()
     else if in_vm wanted (target_vm r)
     then defer_if_stopped D (target_vm r) (attach_one_pci D d r (target_vm r))
     else retE ())"

definition resume_pci :: "'k dm \<Rightarrow> string option \<Rightarrow> ('k, unit) manager_op" where
  "resume_pci D wanted =
     bindE (look_result (pci_devices D)) (\<lambda>ds.
     for_each (\<lambda>(d, r). address d) (\<lambda>(d, r). resume_one_pci D wanted d r) ds)"

end
