(* ===== verification/Manager_Gate.thy ===== *)
theory Manager_Gate
  imports Manager_Base
begin

text \<open>
  Host driver binding and USB authorization (\<open>src/manager.rs\<close>): closing the gate,
  authorizing for the host, settling drivers on every reconcile, deauthorizing what no rule
  claims, and handing binding back.
\<close>

section \<open>Closing the gate and the default-deny policy\<close>

text \<open>\<open>usb_bus().filter(|_| routes_usb())\<close>\<close>

definition gated_bus :: "'k dm \<Rightarrow> 'k \<Rightarrow> path option" where
  "gated_bus D k = (if routes_usb (cfg D) then usb_bus D k else None)"

definition close_usb_gate :: "'k dm \<Rightarrow> ('k, bool) manager_op" where
  "close_usb_gate D =
     bindE (look (gated_bus D)) (\<lambda>b.
     case b of
       None \<Rightarrow> retE False
     | Some p \<Rightarrow> bindE (close_gate D p) (\<lambda>_. retE True))"

definition host_authorized :: "'k dm \<Rightarrow> usb_device \<Rightarrow> bool" where
  "host_authorized D d \<longleftrightarrow> is_hub d \<or> usb_authorization_host_allowed D (cfg D) d"

definition authorize_one_for_host :: "'k dm \<Rightarrow> usb_device \<Rightarrow> ('k, unit) manager_op" where
  "authorize_one_for_host D d =
     bindE (look (authorization D (usb_root D) (sys_name d))) (\<lambda>a.
     if host_authorized D d \<and> a = Some False
     then ignoreE (authorize D (usb_root D) (sys_name d) True)
     else retE ())"

definition authorize_usb_for_host :: "'k dm \<Rightarrow> ('k, unit) manager_op" where
  "authorize_usb_for_host D =
     (if \<not> policy_enabled D then retE ()
      else
        bindE (look_result (scan_usb D (usb_root D))) (\<lambda>ds.
        forE ds (authorize_one_for_host D)))"

definition enable_usb_authorization :: "'k dm \<Rightarrow> ('k, bool) manager_op" where
  "enable_usb_authorization D =
     (if \<not> policy_enabled D then retE False
      else
        bindE (set_authorized_default D (usb_root D) False) (\<lambda>_.
        bindE (authorize_usb_for_host D) (\<lambda>_. retE True)))"

definition usb_attached :: "'k manager \<Rightarrow> usb_device \<Rightarrow> bool" where
  "usb_attached s d \<longleftrightarrow> some_and (device_node d) (\<lambda>n. usb_vms s n \<noteq> None)"

definition deauthorize_one_unmatched :: "'k dm \<Rightarrow> usb_device \<Rightarrow> ('k, unit) manager_op" where
  "deauthorize_one_unmatched D d =
     bindE (getE (\<lambda>s. usb_attached s d)) (\<lambda>attached.
     if is_hub d \<or> attached \<or> usb_authorization_host_allowed D (cfg D) d then retE ()
     else
       bindE (look (authorization D (usb_root D) (sys_name d))) (\<lambda>a.
       if a = Some True
       then ctxE (''cannot deauthorize '' @ sys_name d)
              (authorize D (usb_root D) (sys_name d) False)
       else retE ()))"

definition deauthorize_unmatched_usb :: "'k dm \<Rightarrow> ('k, unit) manager_op" where
  "deauthorize_unmatched_usb D =
     (if \<not> policy_enabled D \<or> \<not> deauthorize_unmatched (authorization_policy (cfg D)) then retE ()
      else
        bindE (look_result (scan_usb D (usb_root D))) (\<lambda>ds.
        forE ds (deauthorize_one_unmatched D)))"

section \<open>Handing binding back\<close>

definition usb_held_by_vms :: "'k dm \<Rightarrow> 'k manager \<Rightarrow> string set" where
  "usb_held_by_vms D s =
     (case scan_usb D (usb_root D) (kern s) of
        Inl _ \<Rightarrow> {}
      | Inr ds \<Rightarrow> set (map sys_name (filter (usb_attached s) ds)))"

definition probe_if_driverless :: "'k dm \<Rightarrow> path \<Rightarrow> string \<Rightarrow> ('k, unit) manager_op" where
  "probe_if_driverless D b name =
     bindE (look (driver D (usb_root D) name)) (\<lambda>bound.
     if bound = None then ignoreE (probe D b name) else retE ())"

definition unauthorized :: "'k dm \<Rightarrow> string \<Rightarrow> 'k \<Rightarrow> bool" where
  "unauthorized D name k \<longleftrightarrow>
     policy_enabled D \<and> authorization D (usb_root D) name k = Some False"

definition hand_back_one ::
  "'k dm \<Rightarrow> path \<Rightarrow> string set \<Rightarrow> string \<Rightarrow> ('k, unit) manager_op" where
  "hand_back_one D b held name =
     (if name \<in> held then retE ()
      else
        bindE (look (unauthorized D name)) (\<lambda>denied.
        if denied then retE ()
        else
          bindE (probe_if_driverless D b name) (\<lambda>_.
          bindE (look (interface_names D (usb_root D) name)) (\<lambda>is.
          case is of
            Inl _ \<Rightarrow> retE ()
          | Inr ns \<Rightarrow> forE ns (probe_if_driverless D b)))))"

definition open_usb_gate :: "'k dm \<Rightarrow> ('k, unit) manager_op" where
  "open_usb_gate D =
     bindE (look (gated_bus D)) (\<lambda>bus.
     case bus of
       None \<Rightarrow> retE ()
     | Some b \<Rightarrow>
         bindE (look (is_closed D b)) (\<lambda>closed.
         if \<not> closed then retE ()
         else
           bindE (getE (usb_held_by_vms D)) (\<lambda>held.
           bindE (open_gate D b) (\<lambda>_.
           bindE (look_result (device_names D (usb_root D))) (\<lambda>names.
           forE names (hand_back_one D b held))))))"

section \<open>Routing verdicts\<close>

text \<open>
  \<open>usb_routing\<close>: a verdict is what the rules say now, or what they said before while the
  device stayed plugged in; devices not seen now are forgotten.
\<close>

definition routing_verdict :: "'k dm \<Rightarrow> (string \<Rightarrow> bool option) \<Rightarrow> usb_device \<Rightarrow> bool" where
  "routing_verdict D cache d \<longleftrightarrow>
     usb_rule D (cfg D) d \<noteq> None \<or> cache (usb_persistent_id d) = Some True"

definition new_verdicts ::
  "'k dm \<Rightarrow> (string \<Rightarrow> bool option) \<Rightarrow> usb_device list \<Rightarrow> string \<Rightarrow> bool option" where
  "new_verdicts D cache ds =
     fold (\<lambda>d seen. seen(usb_persistent_id d := Some (routing_verdict D cache d))) ds (\<lambda>_. None)"

definition routed_names ::
  "'k dm \<Rightarrow> (string \<Rightarrow> bool option) \<Rightarrow> persistent_state \<Rightarrow> usb_device list \<Rightarrow> string set" where
  "routed_names D cache st ds =
     set (map sys_name (filter (\<lambda>d. routing_verdict D cache d \<and>
                                    \<not> disconnected st (usb_persistent_id d)) ds))"

definition usb_routing :: "'k dm \<Rightarrow> usb_device list \<Rightarrow> ('k, string set) manager_op" where
  "usb_routing D ds =
     bindE (getE (\<lambda>s. routed_names D (usb_routing_cache s) (persistent s) ds)) (\<lambda>routed.
     bindE (modE (\<lambda>s. s\<lparr>usb_routing_cache := new_verdicts D (usb_routing_cache s) ds\<rparr>)) (\<lambda>_.
     retE routed))"

section \<open>Settling host drivers\<close>

definition configure_authorized :: "'k dm \<Rightarrow> path \<Rightarrow> string \<Rightarrow> ('k, unit) manager_op" where
  "configure_authorized D b name =
     bindE (look (unauthorized D name)) (\<lambda>denied.
     if denied then retE () else probe_if_driverless D b name)"

definition settle_interface ::
  "'k dm \<Rightarrow> path \<Rightarrow> bool \<Rightarrow> string \<Rightarrow> ('k, unit) manager_op" where
  "settle_interface D b is_routed i =
     bindE (look (driver D (usb_root D) i)) (\<lambda>bound.
     ignoreE
       (case bound of
          Some dr \<Rightarrow>
            if is_routed \<and> releasable dr then release D (usb_root D) i else retE ()
        | None \<Rightarrow> if \<not> is_routed then probe D b i else retE ()))"

definition settle_device ::
  "'k dm \<Rightarrow> path \<Rightarrow> string set \<Rightarrow> string \<Rightarrow> ('k, unit) manager_op" where
  "settle_device D b routed name =
     bindE (look (interface_names D (usb_root D) name)) (\<lambda>is.
     case is of
       Inl _ \<Rightarrow> retE ()
     | Inr ns \<Rightarrow> forE ns (settle_interface D b (name \<in> routed)))"

definition apply_usb_gate :: "'k dm \<Rightarrow> ('k, unit) manager_op" where
  "apply_usb_gate D =
     bindE (look (usb_bus D)) (\<lambda>bus.
     bindE (case bus of
              None \<Rightarrow> retE ()
            | Some b \<Rightarrow> if routes_usb (cfg D) then close_gate D b else retE ()) (\<lambda>_.
     bindE (authorize_usb_for_host D) (\<lambda>_.
     case bus of
       None \<Rightarrow> retE ()
     | Some b \<Rightarrow>
         if \<not> routes_usb (cfg D) then retE ()
         else
           bindE (look_result (device_names D (usb_root D))) (\<lambda>names.
           bindE (forE names (configure_authorized D b)) (\<lambda>_.
           bindE (look_result (scan_usb D (usb_root D))) (\<lambda>ds.
           bindE (usb_routing D ds) (\<lambda>routed.
           bindE (look_result (device_names D (usb_root D))) (\<lambda>names'.
           forE names' (settle_device D b routed)))))))))"

end
