(* ===== verification/Manager_Reconcile.thy ===== *)
theory Manager_Reconcile
  imports Manager_Pci Manager_Gate
begin

text \<open>
  \<open>observe\<close>, which compares the devices present with those seen before, and
  \<open>reconcile\<close>, the pass the daemon runs on every event (\<open>src/manager.rs\<close>). The two
  observed tables are lists of keyed devices; their order stands for the hash map's.
\<close>

definition keyed_usb :: "(usb_device \<times> rule_match) list \<Rightarrow> (string \<times> usb_device) list" where
  "keyed_usb xs = map (\<lambda>(d, r). (sys_name d, d)) xs"

definition keyed_pci :: "(pci_device \<times> rule_match) list \<Rightarrow> (string \<times> pci_device) list" where
  "keyed_pci xs = map (\<lambda>(d, r). (address d, d)) xs"

text \<open>Release the port of a device that is gone, if the same Crosvm still shows it there.\<close>

definition release_vanished :: "'k dm \<Rightarrow> usb_port_binding option \<Rightarrow> ('k, unit) manager_op" where
  "release_vanished D binding =
     (case binding of
        None \<Rightarrow> retE ()
      | Some b \<Rightarrow>
          bindE (liftE (find_vm (cfg D) (binding_vm b))) (\<lambda>v.
          bindE (look (\<lambda>k. path_exists D (vm_socket v) k \<and>
                           socket_gen b = generation_or_default D (vm_socket v) k)) (\<lambda>same.
          if \<not> same then retE ()
          else
            bindE (usb_list D (crosvm D) (vm_socket v)) (\<lambda>live.
            if live_has live (binding_port b) (binding_vid b) (binding_pid b)
            then usb_detach D (crosvm D) (vm_socket v) (binding_port b)
            else retE ()))))"

definition forget_vanished :: "string \<Rightarrow> usb_device \<Rightarrow> 'k manager \<Rightarrow> 'k manager" where
  "forget_vanished key d s =
     s\<lparr>usb_vms := (case device_node d of None \<Rightarrow> usb_vms s | Some n \<Rightarrow> (usb_vms s)(n := None)),
       persistent := (persistent s)\<lparr>crosvm_usb_ports :=
         (crosvm_usb_ports (persistent s))(key := None)\<rparr>\<rparr>"

definition vanished_usb :: "'k dm \<Rightarrow> string \<times> usb_device \<Rightarrow> ('k, unit) manager_op" where
  "vanished_usb D x =
     (case x of (key, d) \<Rightarrow>
        bindE (getE (\<lambda>s. crosvm_usb_ports (persistent s) key)) (\<lambda>binding.
        bindE (release_vanished D binding) (\<lambda>_.
        bindE (notify (UsbDisconnected (device_node d))) (\<lambda>_.
        bindE (modE (forget_vanished key d)) (\<lambda>_.
        bindE (save D) (\<lambda>_.
        modE (forget_pending (usb_persistent_id d))))))))"

definition observe_usb :: "'k dm \<Rightarrow> (string \<times> usb_device) list \<Rightarrow> ('k, unit) manager_op" where
  "observe_usb D now =
     bindE (getE observed_usb) (\<lambda>seen.
     bindE (forE (filter (\<lambda>(key, d). key \<notin> fst ` set seen) now)
              (\<lambda>(key, d). notify (UsbConnected d))) (\<lambda>_.
     bindE (forE (filter (\<lambda>(key, d). key \<notin> fst ` set now) seen) (vanished_usb D)) (\<lambda>_.
     modE (\<lambda>s. s\<lparr>observed_usb := now\<rparr>))))"

definition vanished_pci :: "string \<times> pci_device \<Rightarrow> ('k, unit) manager_op" where
  "vanished_pci x =
     (case x of (key, d) \<Rightarrow>
        bindE (notify (PciDisconnected (address d))) (\<lambda>_.
        modE (\<lambda>s. s\<lparr>pci_vms := (pci_vms s)(key := None)\<rparr>)))"

definition observe_pci :: "(string \<times> pci_device) list \<Rightarrow> ('k, unit) manager_op" where
  "observe_pci now =
     bindE (getE observed_pci) (\<lambda>seen.
     bindE (forE (filter (\<lambda>(key, d). key \<notin> fst ` set seen) now)
              (\<lambda>(key, d). notify (PciConnected d))) (\<lambda>_.
     bindE (forE (filter (\<lambda>(key, d). key \<notin> fst ` set now) seen) vanished_pci) (\<lambda>_.
     modE (\<lambda>s. s\<lparr>observed_pci := now\<rparr>))))"

definition observe :: "'k dm \<Rightarrow> ('k, unit) manager_op" where
  "observe D =
     bindE (look_result (usb_devices D)) (\<lambda>usb.
     bindE (look_result (pci_devices D)) (\<lambda>pci.
     bindE (observe_usb D (keyed_usb usb)) (\<lambda>_.
     observe_pci (keyed_pci pci))))"

definition failure :: "string \<Rightarrow> unit result \<Rightarrow> string list" where
  "failure what r = (case r of Inl e \<Rightarrow> [what @ '': '' @ error_msg e] | Inr _ \<Rightarrow> [])"

definition reconcile :: "'k dm \<Rightarrow> ('k, unit) manager_op" where
  "reconcile D =
     bindE (modE (\<lambda>s. s\<lparr>deferred := False\<rparr>)) (\<lambda>_.
     bindE (tryE (apply_usb_gate D)) (\<lambda>_.
     bindE (observe D) (\<lambda>_.
     bindE (tryE (resume_pci D None)) (\<lambda>p.
     bindE (tryE (resume_usb D None)) (\<lambda>u.
     bindE (tryE (deauthorize_unmatched_usb D)) (\<lambda>a.
     liftE (aggregate
       (failure ''PCI'' p @ failure ''USB'' u @ failure ''USB authorization'' a))))))))"

end
