(* ===== verification/Vmm_Args.thy ===== *)
theory Vmm_Args
  imports Manager_Reconcile
begin

text \<open>
  The launch arguments of a VM, \<open>vmm_args\<close> of \<open>src/manager.rs\<close>: its PCI devices, bound to
  vfio-pci on the way, its ACPI tables and its input devices.
\<close>

section \<open>PCI devices\<close>

text \<open>The elements not seen before, each once: \<open>HashSet::insert\<close> in a loop.\<close>

fun fresh :: "string list \<Rightarrow> string list \<Rightarrow> string list" where
  "fresh seen [] = []"
| "fresh seen (x # xs) =
     (if x \<in> set seen then fresh seen xs else x # fresh (x # seen) xs)"

definition vfio_arg :: "rule_match \<Rightarrow> string \<Rightarrow> string list" where
  "vfio_arg r a =
     [''--vfio'',
      vfio_path a @ '',iommu=viommu'' @
        (if crosvm_use_root_bus r then [] else '',removable=true'')]"

fun vfio_args ::
  "'k dm \<Rightarrow> string list \<Rightarrow> string list \<Rightarrow> (pci_device \<times> rule_match) list \<Rightarrow>
     ('k, string list) manager_op" where
  "vfio_args D bound emitted [] = retE []"
| "vfio_args D bound emitted ((d, r) # ds) =
     bindE (look_result (iommu_group D (address d) (pci_root D))) (\<lambda>grp.
     (let quarantine = (if grp = [] then [address d] else grp);
          passthrough = (if iommu_add_all r then quarantine else [address d]);
          new_bound = fresh bound quarantine;
          new_emitted = fresh emitted passthrough in
      bindE (forE new_bound (\<lambda>a. bind_vfio D a (pci_root D))) (\<lambda>_.
      bindE (vfio_args D (bound @ new_bound) (emitted @ new_emitted) ds) (\<lambda>rest.
      retE (concat (map (vfio_arg r) new_emitted) @ rest)))))"

section \<open>ACPI tables\<close>

definition chown_named ::
  "'k dm \<Rightarrow> path \<Rightarrow> string option \<Rightarrow> string option \<Rightarrow> ('k, unit) manager_op" where
  "chown_named D p user grp =
     (if user = None \<and> grp = None then retE ()
      else
        bindE (liftE (transpose_lookup
          (\<lambda>n. with_context (''unknown ACPI table user '' @ n) (user_id D n)) user)) (\<lambda>uid.
        bindE (liftE (transpose_lookup
          (\<lambda>n. with_context (''unknown ACPI table group '' @ n) (group_id D n)) grp)) (\<lambda>gid.
        sys D (Chown p uid gid))))"

fun acpi_allow_args :: "'k dm \<Rightarrow> json list \<Rightarrow> ('k, string list) manager_op" where
  "acpi_allow_args D [] = retE []"
| "acpi_allow_args D (a # as) =
     (if \<not> json_enabled a then acpi_allow_args D as
      else case get_str a ''acpiTable'' of
             None \<Rightarrow> acpi_allow_args D as
           | Some table \<Rightarrow>
               bindE (look (path_is_file D (path_of_str table))) (\<lambda>there.
               if \<not> there then acpi_allow_args D as
               else
                 bindE (chown_named D (path_of_str table) (get_str a ''setUser'')
                          (get_str a ''setGroup'')) (\<lambda>_.
                 bindE (acpi_allow_args D as) (\<lambda>rest.
                 retE (''--acpi-table'' # table # rest)))))"

definition for_vm :: "string \<Rightarrow> json \<Rightarrow> bool" where
  "for_vm name rule \<longleftrightarrow> json_enabled rule \<and> get_str rule ''targetVm'' = Some name"

definition acpi_args :: "'k dm \<Rightarrow> string \<Rightarrow> ('k, string list) manager_op" where
  "acpi_args D name =
     acpi_allow_args D
       (concat (map (\<lambda>r. items r ''allow'') (filter (for_vm name) (acpi_passthrough (cfg D)))))"

section \<open>Input devices\<close>

fun contains :: "string \<Rightarrow> string \<Rightarrow> bool" where
  "contains pat [] = (pat = [])"
| "contains pat (c # cs) = (prefix pat (c # cs) \<or> contains pat cs)"

definition regex_value :: "'k dm \<Rightarrow> json option \<Rightarrow> string option \<Rightarrow> bool" where
  "regex_value D pat v =
     some_and (zip_option (Option.bind pat as_str) v) (\<lambda>(p, x).
       case regex D (''^(?:'' @ p @ '')'') of None \<Rightarrow> False | Some m \<Rightarrow> m x)"

definition evdev_selector_matches :: "'k dm \<Rightarrow> json \<Rightarrow> input_device \<Rightarrow> bool" where
  "evdev_selector_matches D sel i =
     (if \<not> json_enabled sel then False
      else
        (let name = or_else (name_attribute i)
                      (or_else (parent_name_attribute i) (property_value i ''NAME''));
             path_tag = property_value i ''ID_PATH_TAG'' in
         regex_value D (get sel ''name'') name \<or>
         regex_value D (get sel ''pathTag'') path_tag \<or>
         some_and (zip_option (get_str sel ''property'') (get_str sel ''value''))
           (\<lambda>(p, expected).
              some_and (property_value i p) (\<lambda>a. eq_ignore_ascii_case a expected))))"

definition evdev_matches :: "'k dm \<Rightarrow> string \<Rightarrow> input_device \<Rightarrow> bool" where
  "evdev_matches D name i =
     list_ex (\<lambda>rule.
       for_vm name rule \<and>
       list_ex (\<lambda>a. evdev_selector_matches D a i) (items rule ''allow'') \<and>
       \<not> list_ex (\<lambda>a. evdev_selector_matches D a i) (items rule ''deny''))
     (evdev_passthrough (cfg D))"

definition evdev_arg :: "'k dm \<Rightarrow> string \<Rightarrow> input_device \<Rightarrow> string list" where
  "evdev_arg D name i =
     (case devnode i of
        None \<Rightarrow> []
      | Some node \<Rightarrow>
          if \<not> contains ''/event'' node \<or> property_value i ''ID_BUS'' = Some ''usb'' then []
          else if evdev_matches D name i
          then [''--input'', ''evdev[path='' @ node @ '']''] else [])"

definition evdev_args :: "'k dm \<Rightarrow> string \<Rightarrow> 'k \<Rightarrow> string list result" where
  "evdev_args D name k =
     (case input_devices D k of
        Inl e \<Rightarrow> Inl e
      | Inr is \<Rightarrow> Inr (concat (map (evdev_arg D name) is)))"

section \<open>All arguments\<close>

definition vmm_args :: "'k dm \<Rightarrow> string \<Rightarrow> bool \<Rightarrow> ('k, string list) manager_op" where
  "vmm_args D name require_pci =
     bindE (liftE (find_vm (cfg D) name)) (\<lambda>v.
     bindE (look_result (pci_devices D)) (\<lambda>all.
     (let ds = filter (\<lambda>(d, r). target_vm r = Some name) all in
      if require_pci \<and> \<not> has_pci_rules (cfg D) name then
        failE (Bail (''No PCI passthrough rules are configured for VM '' @ name))
      else if require_pci \<and> ds = [] then
        failE (Bail (''PCI passthrough is configured for VM '' @ name @
                     '', but no matching devices are present''))
      else
        bindE (vfio_args D [] [] ds) (\<lambda>pci.
        bindE (acpi_args D name) (\<lambda>acpi.
        bindE (look_result (evdev_args D name)) (\<lambda>evdev.
        retE ((if has_pci_rules (cfg D) name then [''--vfio-isolate-hotplug''] else []) @
              pci @ acpi @ evdev)))))))"

end
