(* ===== verification/Api.thy ===== *)
theory Api
  imports Protocol Vmm_Args
begin

text \<open>
  The request handlers of \<open>src/api.rs\<close>: dispatch of an action, the line protocol around
  it, admission of a VSOCK client and the permissions of the Unix socket. Decoding a line
  and encoding a reply are \<open>serde_json\<close>'s and are parameters.
\<close>

definition empty_reply :: "('k, unit) manager_op \<Rightarrow> ('k, payload) manager_op" where
  "empty_reply f = bindE f (\<lambda>_. retE EmptyPayload)"

fun handle_inner :: "'k dm \<Rightarrow> action \<Rightarrow> ('k, payload) manager_op" where
  "handle_inner D EnableNotifications = retE EmptyPayload"
| "handle_inner D (UsbList wanted t) =
     (\<lambda>s. (case list_usb D wanted t s of Inl e \<Rightarrow> Inl e | Inr ds \<Rightarrow> Inr (UsbListPayload ds), s))"
| "handle_inner D (UsbAttach sel v) = empty_reply (attach_usb D (selector_of_usb sel) v)"
| "handle_inner D (UsbDetach sel) = empty_reply (detach_usb D (selector_of_usb sel) True)"
| "handle_inner D (UsbSuspend v) = empty_reply (suspend_usb D v)"
| "handle_inner D (UsbResume v) = empty_reply (resume_usb D v)"
| "handle_inner D (PciList wanted t) =
     (\<lambda>s. (case list_pci D wanted t s of Inl e \<Rightarrow> Inl e | Inr ds \<Rightarrow> Inr (PciListPayload ds), s))"
| "handle_inner D (PciAttach sel v) = empty_reply (attach_pci D (selector_of_pci sel) v)"
| "handle_inner D (PciDetach sel) = empty_reply (detach_pci D (selector_of_pci sel) True)"
| "handle_inner D (PciSuspend v) = empty_reply (suspend_pci D v)"
| "handle_inner D (PciResume v) = empty_reply (resume_pci D v)"
| "handle_inner D (VmmArgs v pre start require) =
     bindE (vmm_args D v require) (\<lambda>args. retE (VmmArgsPayload args))"

definition handle :: "'k dm \<Rightarrow> action \<Rightarrow> 'k manager \<Rightarrow> response \<times> 'k manager" where
  "handle D a s = (case handle_inner D a s of (r, s') \<Rightarrow> (response_of r, s'))"

text \<open>
  One line of a connection. The result is the reply, whether notifications are on from now
  on, and the manager; \<open>None\<close> is the closed connection, which has no reply.
\<close>

definition invalid_message :: "string \<Rightarrow> response" where
  "invalid_message e = FailedResponse (''Invalid API message: '' @ e)"

definition handle_line ::
  "'k dm \<Rightarrow> (string \<Rightarrow> string + action) \<Rightarrow> (string + string) option \<Rightarrow> bool \<Rightarrow> 'k manager \<Rightarrow>
     (response option \<times> bool) \<times> 'k manager" where
  "handle_line D decode line notifying s =
     (case line of
        None \<Rightarrow> ((None, notifying), s)
      | Some (Inl e) \<Rightarrow> ((Some (invalid_message e), notifying), s)
      | Some (Inr text) \<Rightarrow>
          (case decode text of
             Inl e \<Rightarrow> ((Some (invalid_message e), notifying), s)
           | Inr a \<Rightarrow>
               (case handle D a s of
                  (r, s') \<Rightarrow> ((Some r, notifying \<or> a = EnableNotifications), s'))))"

section \<open>Transports\<close>

definition MAX_CONNECTIONS :: nat where "MAX_CONNECTIONS = 64"

text \<open>The VSOCK allow list; empty admits every CID.\<close>

definition vsock_admits :: "32 word list \<Rightarrow> 32 word \<Rightarrow> bool" where
  "vsock_admits allowed cid \<longleftrightarrow> \<not> (allowed \<noteq> [] \<and> cid \<notin> set allowed)"

definition parse_mode :: "string \<Rightarrow> 32 word option" where
  "parse_mode m = map_option of_nat (parse_uint 8 32 m)"

definition configure_unix_socket ::
  "('k, 'y) env_scheme \<Rightarrow> path \<Rightarrow> string option \<Rightarrow> string option \<Rightarrow> string option \<Rightarrow>
     ('k, 'z, unit) host_op" where
  "configure_unix_socket E p user grp mode =
     bindE (sys E (SetMode p 0x180)) (\<lambda>_.
     bindE (liftE (transpose_lookup (user_id E) user)) (\<lambda>uid.
     bindE (liftE (transpose_lookup (group_id E) grp)) (\<lambda>gid.
     bindE (if uid \<noteq> None \<or> gid \<noteq> None then sys E (Chown p uid gid) else retE ()) (\<lambda>_.
     case mode of
       None \<Rightarrow> retE ()
     | Some m \<Rightarrow>
         bindE (liftE (case parse_mode m of
                         None \<Rightarrow> Inl (Context ''invalid unixSocketMode'' (Bail (int_error 8 32 0 m)))
                       | Some w \<Rightarrow> Inr w)) (\<lambda>w.
         sys E (SetMode p w))))))"

end
