(* ===== verification/System_Effects.thy ===== *)
theory System_Effects
  imports Usb_Effects Api
begin

text \<open>
  What the remaining operations issue, and one predicate, \<open>sanctioned\<close>, that every effect
  of every operation satisfies whatever the environment answers.
\<close>

lemma look_result_bind: "bindE (look_result f) g s =
    (case f (kern s) of Inl e \<Rightarrow> (Inl e, s) | Inr x \<Rightarrow> g x s)"
  by (simp add: look_result_def bindE_def split: sum.split)

lemma emits_look_result_bind:
  "(\<And>k x. f k = Inr x \<Longrightarrow> emits A (g x)) \<Longrightarrow> emits A (bindE (look_result f) g)"
  unfolding emits_def look_result_bind by (auto split: sum.split)

section \<open>Sanctioned effects\<close>

text \<open>A USB device and the rule that routes it, as some scan of the bus reports them.\<close>

definition routed_usb :: "'k dm \<Rightarrow> usb_device \<Rightarrow> rule_match \<Rightarrow> bool" where
  "routed_usb D d r \<longleftrightarrow> (\<exists>k ds. usb_devices D k = Inr ds \<and> (d, r) \<in> set ds)"

definition routed_pci :: "'k dm \<Rightarrow> pci_device \<Rightarrow> rule_match \<Rightarrow> bool" where
  "routed_pci D d r \<longleftrightarrow> (\<exists>k ds. pci_devices D k = Inr ds \<and> (d, r) \<in> set ds)"

text \<open>An address passed through with a device: its own, or that of a group member.\<close>

definition passed_address :: "'k dm \<Rightarrow> pci_device \<Rightarrow> rule_match \<Rightarrow> string \<Rightarrow> bool" where
  "passed_address D d r a \<longleftrightarrow>
     a = address d \<or>
     iommu_add_all r \<and> (\<exists>k g. iommu_group D (address d) (pci_root D) k = Inr g \<and> a \<in> set g)"

text \<open>An address whose driver may change: any member of the group of a routed device.\<close>

definition quarantined :: "'k dm \<Rightarrow> pci_device \<Rightarrow> string \<Rightarrow> bool" where
  "quarantined D d a \<longleftrightarrow>
     a = address d \<or> (\<exists>k g. iommu_group D (address d) (pci_root D) k = Inr g \<and> a \<in> set g)"

definition bind_effect :: "'k dm \<Rightarrow> string \<Rightarrow> effect \<Rightarrow> bool" where
  "bind_effect D a e \<longleftrightarrow>
     e = Write (pci_root D @ [a, ''driver'', ''unbind'']) a \<or>
     e = Write (pci_root D @ [a, ''driver_override'']) ''vfio-pci'' \<or>
     (\<exists>b. path_parent (pci_root D) = Some b \<and> e = Write (b @ [''drivers_probe'']) a)"

definition pci_effect :: "'k dm \<Rightarrow> pci_device \<Rightarrow> rule_match \<Rightarrow> effect \<Rightarrow> bool" where
  "pci_effect D d r e \<longleftrightarrow>
     state_file_effect (cfg D) e \<or> (\<exists>n. e = Notify n) \<or>
     (\<exists>a. quarantined D d a \<and> bind_effect D a e) \<or>
     (\<exists>v\<in>set (vms (cfg D)).
        e = request (crosvm D) [''vfio'', ''list'', path_str (vm_socket v)]) \<or>
     (\<exists>v\<in>set (vms (cfg D)). \<exists>a. passed_address D d r a \<and>
        e = request (crosvm D) [''vfio'', ''remove'', vfio_path a, path_str (vm_socket v)]) \<or>
     (\<exists>v\<in>set (vms (cfg D)). \<exists>a. target_vm r = Some (vm_name v) \<and> passed_address D d r a \<and>
            e = request (crosvm D) [''vfio'', ''add'', vfio_path a, path_str (vm_socket v)])"

definition gate_effect :: "'k dm \<Rightarrow> effect \<Rightarrow> bool" where
  "gate_effect D e \<longleftrightarrow>
     (\<exists>b v. path_parent (usb_root D) = Some b \<and> e = Write (b @ [AUTOPROBE]) v) \<or>
     (\<exists>b n. path_parent (usb_root D) = Some b \<and> e = Write (b @ [''drivers_probe'']) n) \<or>
     (\<exists>n v. e = Write (usb_root D @ [n, AUTHORIZED]) (flag v)) \<or>
     (\<exists>n. e = Write (usb_root D @ [n, AUTHORIZED_DEFAULT]) ''0'') \<or>
     e = Write usbcore_authorized_default ''0'' \<or>
     (\<exists>i. e = Write (unbind_path (usb_root D) i) i)"

definition acpi_effect :: "'k dm \<Rightarrow> effect \<Rightarrow> bool" where
  "acpi_effect D e \<longleftrightarrow>
     (\<exists>rule a table uid gid. rule \<in> set (acpi_passthrough (cfg D)) \<and> json_enabled rule \<and>
        a \<in> set (items rule ''allow'') \<and> json_enabled a \<and> get_str a ''acpiTable'' = Some table \<and>
        e = Chown (path_of_str table) uid gid)"

definition sanctioned :: "'k dm \<Rightarrow> effect \<Rightarrow> bool" where
  "sanctioned D e \<longleftrightarrow>
     bookkeeping D e \<or> gate_effect D e \<or> acpi_effect D e \<or>
     (\<exists>d r. routed_usb D d r \<and> permitted_attach D d r e) \<or>
     (\<exists>d r. routed_pci D d r \<and> pci_effect D d r e)"

abbreviation sanctions :: "'k dm \<Rightarrow> ('k, 'a) manager_op \<Rightarrow> bool" where
  "sanctions D f \<equiv> emits (\<lambda>x. sanctioned D (fst x)) f"

named_theorems sanctions_intro "operations all of whose effects are sanctioned"

lemma sanctioned_bookkeeping [simp]: "bookkeeping D e \<Longrightarrow> sanctioned D e"
  by (simp add: sanctioned_def)

lemma sanctioned_gate: "gate_effect D e \<Longrightarrow> sanctioned D e"
  by (simp add: sanctioned_def)

lemma sanctioned_gate_simps [simp]:
  "sanctioned D (Write (usb_root D @ [n, AUTHORIZED]) (flag v))"
  "sanctioned D (Write (usb_root D @ [n, AUTHORIZED]) ''0'')"
  "sanctioned D (Write (usb_root D @ [n, AUTHORIZED]) ''1'')"
  "sanctioned D (Write (usb_root D @ [n, AUTHORIZED_DEFAULT]) (flag False))"
  "sanctioned D (Write usbcore_authorized_default (flag False))"
  "sanctioned D (Write (unbind_path (usb_root D) i) i)"
  by (auto simp: flag_def intro!: sanctioned_gate)
    (auto simp: gate_effect_def flag_def intro: exI [of _ False] exI [of _ True])

lemma sanctioned_bus [simp]:
  "path_parent (usb_root D) = Some b \<Longrightarrow> sanctioned D (Write (b @ [AUTOPROBE]) v)"
  "path_parent (usb_root D) = Some b \<Longrightarrow> sanctioned D (Write (b @ [''drivers_probe'']) n)"
  by (auto intro!: sanctioned_gate simp: gate_effect_def)

section \<open>USB operations\<close>

lemma sanctions_detach_one_usb: "sanctions D (detach_one_usb D d permanent)"
  by (rule emits_detach_one_usb) (auto simp: auth_path_def)

lemma sanctions_attach_one_usb:
  assumes "routed_usb D d r"
  shows "sanctions D (attach_one_usb D d r requested)"
  by (rule emits_mono [OF emits_attach_one_usb]) (use assms in \<open>auto simp: sanctioned_def\<close>)

lemma routed_usbI: "usb_devices D k = Inr ds \<Longrightarrow> (d, r) \<in> set ds \<Longrightarrow> routed_usb D d r"
  by (auto simp: routed_usb_def)

lemma routed_usb_selected: "selected_usb D sel k = Inr ds \<Longrightarrow> (d, r) \<in> set ds \<Longrightarrow> routed_usb D d r"
  by (meson routed_usbI selected_usb_sub)

lemma sanctions_attach_usb [sanctions_intro]: "sanctions D (attach_usb D sel v)"
  unfolding attach_usb_def
  by (intro emits_look_result_bind emits_for_each)
    (auto intro: sanctions_attach_one_usb routed_usb_selected)

lemma sanctions_detach_usb [sanctions_intro]: "sanctions D (detach_usb D sel permanent)"
  unfolding detach_usb_def
  by (intro emits_look_result_bind emits_for_each) (auto intro: sanctions_detach_one_usb)

lemma sanctions_suspend_usb [sanctions_intro]: "sanctions D (suspend_usb D v)"
  unfolding suspend_usb_def suspend_one_usb_def
  by (intro emits_look_result_bind emits_for_each)
    (auto intro!: emits_intro sanctions_detach_one_usb)

lemma emits_defer [emits_intro]: "emits A f \<Longrightarrow> emits A (defer_if_stopped D t f)"
  unfolding defer_if_stopped_def by (intro emits_intro) auto

lemma sanctions_resume_usb [sanctions_intro]: "sanctions D (resume_usb D v)"
  unfolding resume_usb_def resume_one_usb_def
  by (intro emits_look_result_bind emits_for_each)
    (auto simp: Let_def intro!: emits_intro sanctions_attach_one_usb intro: routed_usbI)

section \<open>The gate\<close>

lemma gated_bus_parent: "gated_bus D k = Some b \<Longrightarrow> path_parent (usb_root D) = Some b"
  by (auto simp: gated_bus_def split: if_splits dest: usb_bus_parent)

lemma sanctions_close_usb_gate [sanctions_intro]: "sanctions D (close_usb_gate D)"
  unfolding close_usb_gate_def
  by (rule emits_look_bind) (auto intro!: emits_intro dest: gated_bus_parent)

lemma sanctions_authorize_for_host [sanctions_intro]: "sanctions D (authorize_usb_for_host D)"
  unfolding authorize_usb_for_host_def authorize_one_for_host_def
  by (intro emits_intro) auto

lemma sanctions_enable [sanctions_intro]: "sanctions D (enable_usb_authorization D)"
  unfolding enable_usb_authorization_def
  by (intro emits_intro sanctions_authorize_for_host) auto

lemma sanctions_deauthorize [sanctions_intro]: "sanctions D (deauthorize_unmatched_usb D)"
  unfolding deauthorize_unmatched_usb_def deauthorize_one_unmatched_def
  by (intro emits_intro) auto

lemma sanctions_probe_if_driverless:
  "path_parent (usb_root D) = Some b \<Longrightarrow> sanctions D (probe_if_driverless D b n)"
  unfolding probe_if_driverless_def by (intro emits_intro) auto

lemma sanctions_hand_back_one:
  "path_parent (usb_root D) = Some b \<Longrightarrow> sanctions D (hand_back_one D b held n)"
  unfolding hand_back_one_def by (intro emits_intro sanctions_probe_if_driverless) auto

lemma sanctions_open_usb_gate [sanctions_intro]: "sanctions D (open_usb_gate D)"
  unfolding open_usb_gate_def
  by (rule emits_look_bind)
    (auto intro!: emits_intro sanctions_hand_back_one dest: gated_bus_parent)

lemma sanctions_settle_device:
  "path_parent (usb_root D) = Some b \<Longrightarrow> sanctions D (settle_device D b routed n)"
  unfolding settle_device_def settle_interface_def by (intro emits_intro) auto

lemma sanctions_apply_usb_gate [sanctions_intro]: "sanctions D (apply_usb_gate D)"
  unfolding apply_usb_gate_def usb_routing_def configure_authorized_def
  by (rule emits_look_bind)
    (auto intro!: emits_intro sanctions_authorize_for_host sanctions_probe_if_driverless
      sanctions_settle_device dest: usb_bus_parent)

section \<open>PCI operations\<close>

lemma pci_effectI [simp]:
  "state_file_effect (cfg D) e \<Longrightarrow> pci_effect D d r e"
  "pci_effect D d r (Notify n)"
  "v \<in> set (vms (cfg D)) \<Longrightarrow>
     pci_effect D d r (request (crosvm D) [''vfio'', ''list'', path_str (vm_socket v)])"
  by (auto simp: pci_effect_def)

lemma emits_bind_vfio:
  assumes "\<And>e k. bind_effect D a e \<Longrightarrow> A (e, k)"
  shows "emits A (bind_vfio D a (pci_root D))"
  unfolding bind_vfio_def
  by (intro emits_lift_bind emits_intro) (auto intro!: assms simp: bind_effect_def)

lemma quarantined_group:
  assumes "iommu_group D (address d) (pci_root D) k = Inr g" and "a \<in> set (group_or_self (address d) g)"
  shows "quarantined D d a"
  using assms by (auto simp: quarantined_def group_or_self_def split: if_splits)

lemma passed_group:
  assumes "iommu_group D (address d) (pci_root D) k = Inr g"
    and "a \<in> set (if iommu_add_all r then group_or_self (address d) g else [address d])"
  shows "passed_address D d r a"
  using assms by (auto simp: passed_address_def group_or_self_def split: if_splits)

lemma emits_attach_pci_to:
  assumes "v \<in> set (vms (cfg D))" and "target_vm r = Some (vm_name v)"
  shows "emits (\<lambda>x. pci_effect D d r (fst x)) (attach_pci_to D d r v)"
proof -
  let ?A = "\<lambda>x. pci_effect D d r (fst x)"
  have list: "emits ?A (vfio_list D (crosvm D) (vm_socket v))"
    by (intro emits_intro) (simp add: assms)
  have bind: "emits ?A (bind_vfio D a (pci_root D))" if "quarantined D d a" for a
    by (rule emits_bind_vfio) (use that in \<open>auto simp: pci_effect_def\<close>)
  have add: "emits ?A (add_missing D (vm_socket v) live a)" if "passed_address D d r a" for a live
    unfolding add_missing_def
    by (intro emits_intro) (use that assms in \<open>auto simp: pci_effect_def\<close>)
  show ?thesis
    unfolding attach_pci_to_def Let_def
    by (intro emits_intro emits_look_result_bind list)
      (auto intro!: bind add emits_intro intro: quarantined_group passed_group
        simp: record_pci_def simp del: set_append)
qed

lemma emits_attach_one_pci: "emits (\<lambda>x. pci_effect D d r (fst x)) (attach_one_pci D d r requested)"
  unfolding attach_one_pci_def Let_def
proof (rule emits_lift_bind)
  fix target
  assume "option_context ''PCI rule has no targetVm'' (target_vm r) = Inr target"
  then have t: "target_vm r = Some target" by simp
  let ?name = "case requested of None \<Rightarrow> target | Some n \<Rightarrow> n"
  show "emits (\<lambda>x. pci_effect D d r (fst x))
     (if ?name \<noteq> target
      then failE (Bail (''VM '' @ ?name @ '' is not allowed for PCI device '' @ address d))
      else bindE (liftE (find_vm (cfg D) ?name)) (\<lambda>v. attach_pci_to D d r v))"
    by (intro emits_intro emits_lift_bind emits_attach_pci_to) (auto simp: t dest: find_vm_Inr)
qed

lemma emits_detach_one_pci:
  "emits (\<lambda>x. pci_effect D d r (fst x)) (detach_one_pci D d r permanent)"
proof -
  let ?A = "\<lambda>x. pci_effect D d r (fst x)"
  have remove: "emits ?A (vfio_remove D (crosvm D) (vm_socket v) a)"
    if "v \<in> set (vms (cfg D))" and "passed_address D d r a" for a v
    by (intro emits_intro) (use that in \<open>auto simp: pci_effect_def\<close>)
  have from_vm: "emits ?A (detach_pci_from D d r name)" for name
    unfolding detach_pci_from_def Let_def
    by (intro emits_lift_bind emits_look_result_bind emits_intro remove)
      (auto dest: find_vm_Inr simp: passed_address_def forget_pci_def split: if_splits)
  show ?thesis
    unfolding detach_one_pci_def by (intro emits_intro from_vm) auto
qed

lemma sanctions_pci:
  assumes "routed_pci D d r"
  shows "sanctions D (attach_one_pci D d r requested)"
    and "sanctions D (detach_one_pci D d r permanent)"
  by (rule emits_mono [OF emits_attach_one_pci] emits_mono [OF emits_detach_one_pci],
      use assms in \<open>auto simp: sanctioned_def\<close>)+

lemma routed_pciI: "pci_devices D k = Inr ds \<Longrightarrow> (d, r) \<in> set ds \<Longrightarrow> routed_pci D d r"
  by (auto simp: routed_pci_def)

lemma routed_pci_selected: "selected_pci D sel k = Inr ds \<Longrightarrow> (d, r) \<in> set ds \<Longrightarrow> routed_pci D d r"
  by (auto simp: selected_pci_def Let_def intro: routed_pciI split: sum.splits if_splits)

lemma sanctions_attach_pci [sanctions_intro]: "sanctions D (attach_pci D sel v)"
  unfolding attach_pci_def
  by (intro emits_look_result_bind emits_for_each) (auto intro: sanctions_pci routed_pci_selected)

lemma sanctions_detach_pci [sanctions_intro]: "sanctions D (detach_pci D sel permanent)"
  unfolding detach_pci_def
  by (intro emits_look_result_bind emits_for_each) (auto intro: sanctions_pci routed_pci_selected)

lemma sanctions_suspend_pci [sanctions_intro]: "sanctions D (suspend_pci D v)"
  unfolding suspend_pci_def suspend_one_pci_def
  by (intro emits_look_result_bind emits_for_each)
    (auto intro!: emits_intro sanctions_pci intro: routed_pciI)

lemma sanctions_resume_pci [sanctions_intro]: "sanctions D (resume_pci D v)"
  unfolding resume_pci_def resume_one_pci_def
  by (intro emits_look_result_bind emits_for_each)
    (auto intro!: emits_intro sanctions_pci intro: routed_pciI)

section \<open>Launch arguments\<close>

lemma emits_vfio_args:
  assumes "\<forall>(d, r)\<in>set ds. routed_pci D d r"
  shows "sanctions D (vfio_args D bound emitted ds)"
  using assms
proof (induction ds arbitrary: bound emitted)
  case Nil
  then show ?case by (auto intro: emits_intro)
next
  case (Cons x ds)
  obtain d r where x: "x = (d, r)" by force
  have bind: "sanctions D (bind_vfio D a (pci_root D))" if "quarantined D d a" for a
    by (rule emits_bind_vfio) (use that Cons.prems x in \<open>auto simp: sanctioned_def pci_effect_def\<close>)
  have fresh: "a \<in> set ys" if "a \<in> set (fresh seen ys)" for a seen ys
    using that by (induction seen ys rule: fresh.induct) (auto split: if_splits)
  show ?case
    unfolding x vfio_args.simps Let_def
    by (intro emits_look_result_bind emits_intro bind Cons.IH)
      (use Cons.prems in \<open>auto dest!: fresh intro: quarantined_group simp: group_or_self_def
        split: if_splits\<close>)
qed

lemma emits_acpi_allow_args:
  assumes "\<forall>a\<in>set as. \<exists>rule\<in>set (acpi_passthrough (cfg D)). json_enabled rule \<and>
             a \<in> set (items rule ''allow'')"
  shows "sanctions D (acpi_allow_args D as)"
  using assms
proof (induction as)
  case Nil
  then show ?case by (auto intro: emits_intro)
next
  case (Cons a as)
  have chown: "sanctions D (chown_named D (path_of_str table) u g)"
    if "json_enabled a" and "get_str a ''acpiTable'' = Some table" for table u g
  proof -
    have "sanctioned D (Chown (path_of_str table) uid gid)" for uid gid
      using that Cons.prems unfolding sanctioned_def acpi_effect_def by fastforce
    then show ?thesis unfolding chown_named_def by (intro emits_intro) simp_all
  qed
  show ?case
    unfolding acpi_allow_args.simps
    by (intro emits_intro Cons.IH chown) (use Cons.prems in auto)
qed

lemma sanctions_vmm_args [sanctions_intro]: "sanctions D (vmm_args D name require_pci)"
  unfolding vmm_args_def Let_def acpi_args_def
  by (intro emits_lift_bind emits_look_result_bind emits_intro emits_vfio_args
      emits_acpi_allow_args)
    (auto intro: routed_pciI simp: for_vm_def)

section \<open>The API\<close>

lemma sanctions_handle_inner [sanctions_intro]: "sanctions D (handle_inner D a)"
proof (cases a)
  case (UsbList w t)
  then show ?thesis by (simp add: emits_def)
next
  case (PciList w t)
  then show ?thesis by (simp add: emits_def)
qed (auto simp: empty_reply_def intro!: emits_intro sanctions_intro)

end
