(* ===== verification/Manager_Memory.thy ===== *)
theory Manager_Memory
  imports Manager_Reconcile
begin

text \<open>
  Which operations leave the manager's memory alone, and the rules with which an invariant
  of the memory is carried through the others.
\<close>

section \<open>Operations that only touch the kernel\<close>

lemma kernel_only_lift_bind [kernel_only_intro]:
  "(\<And>x. r = Inr x \<Longrightarrow> kernel_only (g x)) \<Longrightarrow> kernel_only (bindE (liftE r) g)"
  by (cases r) (auto simp: kernel_only_def bindE_def liftE_def)

lemma kernel_only_prod [kernel_only_intro]:
  "(\<And>a b. x = (a, b) \<Longrightarrow> kernel_only (f a b)) \<Longrightarrow> kernel_only (case x of (a, b) \<Rightarrow> f a b)"
  by (cases x) simp

lemma kernel_only_command [kernel_only_intro]: "kernel_only (command E B args)"
  unfolding command_def by (intro kernel_only_intro)

lemma kernel_only_usb_list [kernel_only_intro]: "kernel_only (usb_list E B so)"
  unfolding usb_list_def by (intro kernel_only_intro)

lemma kernel_only_attach_attempts [kernel_only_intro]:
  "kernel_only (attach_attempts n E B so node old)"
  by (induction n) (auto simp: identify_port_def intro!: kernel_only_intro)

lemma kernel_only_usb_attach [kernel_only_intro]: "kernel_only (usb_attach E B so node)"
  unfolding usb_attach_def by (intro kernel_only_intro)

lemma kernel_only_usb_detach [kernel_only_intro]: "kernel_only (usb_detach E B so p)"
  unfolding usb_detach_def by (intro kernel_only_intro)

lemma kernel_only_vfio_list [kernel_only_intro]: "kernel_only (vfio_list E B so)"
  unfolding vfio_list_def by (intro kernel_only_intro)

lemma kernel_only_await_vfio [kernel_only_intro]: "kernel_only (await_vfio n E B so p b e)"
  by (induction n) (auto intro!: kernel_only_intro)

lemma kernel_only_vfio [kernel_only_intro]:
  "kernel_only (vfio_add E B so a)" "kernel_only (vfio_remove E B so a)"
  unfolding vfio_add_def vfio_remove_def Let_def by (intro kernel_only_intro)+

lemma kernel_only_bind_vfio [kernel_only_intro]: "kernel_only (bind_vfio E a root)"
  unfolding bind_vfio_def by (intro kernel_only_intro)

lemma kernel_only_gate [kernel_only_intro]:
  "kernel_only (close_gate E b)" "kernel_only (open_gate E b)"
  "kernel_only (authorize E devs n v)" "kernel_only (probe E b n)" "kernel_only (release E devs n)"
  unfolding close_gate_def open_gate_def autoprobe_def authorize_def probe_def release_def Let_def
  by (intro kernel_only_intro)+

lemma kernel_only_set_authorized_default [kernel_only_intro]:
  "kernel_only (set_authorized_default E devs v)"
  unfolding set_authorized_default_def set_default_at_def by (intro kernel_only_intro)

lemma kernel_only_detach_from_vm [kernel_only_intro]:
  "kernel_only (detach_from_vm D d node name binding)"
  unfolding detach_from_vm_def detach_by_binding_def detach_by_identity_def
  by (intro kernel_only_intro)

lemma kernel_only_guard [kernel_only_intro]:
  "kernel_only (drop_guard D d armed)" "kernel_only (usb_authorization_guard D d)"
  unfolding drop_guard_def usb_authorization_guard_def Let_def by (intro kernel_only_intro)+

lemma kernel_only_configure [kernel_only_intro]: "kernel_only (configure_device D d)"
  unfolding configure_device_def by (intro kernel_only_intro)

lemma kernel_only_query_vm [kernel_only_intro]: "kernel_only (query_vm D v)"
  unfolding query_vm_def by (intro kernel_only_intro)

lemma kernel_only_preflight [kernel_only_intro]: "kernel_only (preflight_vm D d v)"
  unfolding preflight_vm_def by (intro kernel_only_intro)

lemma kernel_only_obtain_port [kernel_only_intro]:
  "kernel_only (obtain_port D d node v gen live moved)"
  unfolding obtain_port_def Let_def by (intro kernel_only_intro)

lemma kernel_only_deauthorize [kernel_only_intro]: "kernel_only (deauthorize_detached D d)"
  unfolding deauthorize_detached_def by (intro kernel_only_intro)

lemma kernel_only_release_vanished [kernel_only_intro]: "kernel_only (release_vanished D b)"
  unfolding release_vanished_def by (intro kernel_only_intro)

lemma kernel_only_add_missing [kernel_only_intro]: "kernel_only (add_missing D so live a)"
  unfolding add_missing_def by (intro kernel_only_intro)

lemma kernel_only_authorize_for_host [kernel_only_intro]:
  "kernel_only (authorize_usb_for_host D)" "kernel_only (enable_usb_authorization D)"
  "kernel_only (deauthorize_unmatched_usb D)"
  unfolding authorize_usb_for_host_def authorize_one_for_host_def enable_usb_authorization_def
    deauthorize_unmatched_usb_def deauthorize_one_unmatched_def
  by (intro kernel_only_intro)+

lemma kernel_only_probe_if_driverless [kernel_only_intro]:
  "kernel_only (probe_if_driverless D b n)"
  unfolding probe_if_driverless_def by (intro kernel_only_intro)

lemma kernel_only_hand_back [kernel_only_intro]: "kernel_only (hand_back_one D b held n)"
  unfolding hand_back_one_def by (intro kernel_only_intro)

lemma kernel_only_usb_gate [kernel_only_intro]:
  "kernel_only (close_usb_gate D)" "kernel_only (open_usb_gate D)"
  unfolding close_usb_gate_def open_usb_gate_def by (intro kernel_only_intro)+

lemma kernel_only_settle [kernel_only_intro]:
  "kernel_only (configure_authorized D b n)" "kernel_only (settle_device D b routed n)"
  unfolding configure_authorized_def settle_device_def settle_interface_def
  by (intro kernel_only_intro)+

section \<open>Invariants of the memory\<close>

text \<open>An invariant that no change of the kernel or of the ghost history can break.\<close>

definition memory_invariant :: "('k manager \<Rightarrow> bool) \<Rightarrow> bool" where
  "memory_invariant I \<longleftrightarrow> (\<forall>s t. same_memory s t \<longrightarrow> I s \<longrightarrow> I t)"

lemma keeps_kernel_only: "memory_invariant I \<Longrightarrow> kernel_only f \<Longrightarrow> keeps I f"
  by (auto simp: keeps_def kernel_only_def memory_invariant_def)

lemma keeps_lift_bind:
  "(\<And>x. r = Inr x \<Longrightarrow> keeps I (g x)) \<Longrightarrow> keeps I (bindE (liftE r) g)"
  by (cases r) (auto simp: keeps_def bindE_def liftE_def)

lemma keeps_look_result_bind:
  "(\<And>k x. f k = Inr x \<Longrightarrow> keeps I (g x)) \<Longrightarrow> keeps I (bindE (look_result f) g)"
  unfolding keeps_def by (auto simp: look_result_def bindE_def split: sum.split)

lemma keeps_get_bind:
  "(\<And>s. I s \<Longrightarrow> I (snd (g (f s) s))) \<Longrightarrow> keeps I (bindE (getE f) g)"
  by (auto simp: keeps_def bindE_def getE_def)

text \<open>
  What the invariants below speak about: who holds what, the tables of questions asked and
  hubs reported, and those of the devices seen. Everything else about the memory may change freely.
\<close>

definition same_holdings :: "'k manager \<Rightarrow> 'k manager \<Rightarrow> bool" where
  "same_holdings s t \<longleftrightarrow>
     usb_vms t = usb_vms s \<and> pci_vms t = pci_vms s \<and>
     pending_usb_selection t = pending_usb_selection s \<and>
     reported_usb_hubs t = reported_usb_hubs s \<and>
     observed_usb t = observed_usb s \<and> observed_pci t = observed_pci s"

definition holdings_invariant :: "('k manager \<Rightarrow> bool) \<Rightarrow> bool" where
  "holdings_invariant I \<longleftrightarrow> (\<forall>s t. same_holdings s t \<longrightarrow> I s \<longrightarrow> I t)"

lemma holdings_memory: "holdings_invariant I \<Longrightarrow> memory_invariant I"
  unfolding holdings_invariant_def memory_invariant_def same_holdings_def
  by (auto dest: same_memory_fields)

lemma keeps_same_holdings:
  "holdings_invariant I \<Longrightarrow> (\<And>s. same_holdings s (h s)) \<Longrightarrow> keeps I (modE h)"
  by (auto simp: holdings_invariant_def intro!: keeps_mod)

lemma keeps_save:
  assumes I: "holdings_invariant I"
  shows "keeps I (save D)" and "keeps I (set_disconnected D i v)" and "keeps I (select_vm D i v')"
proof -
  show save: "keeps I (save D)"
    by (rule keeps_kernel_only [OF holdings_memory [OF I] kernel_only_save])
  show "keeps I (set_disconnected D i v)" and "keeps I (select_vm D i v')"
    unfolding set_disconnected_def select_vm_def
    by (rule keeps_bind [OF keeps_same_holdings [OF I] save]; simp add: same_holdings_def)+
qed

text \<open>A device is marked as detached for good.\<close>

definition marked :: "string \<Rightarrow> 'k manager \<Rightarrow> bool" where
  "marked i s \<longleftrightarrow> disconnected (persistent s) i"

lemma marked_memory: "memory_invariant (marked i)"
  by (auto simp: memory_invariant_def marked_def same_memory_fields)

end
