(* ===== verification/Pass_Stages.thy ===== *)
theory Pass_Stages
  imports Manager_Memory
begin

text \<open>
  A reconcile pass holds no lock of its own: requests are served between its stages. Here it is
  cut where \<open>reconcile\<close> and \<open>observe\<close> of \<open>src/manager.rs\<close> give the memory free, so that
  other operations may come in between; run without a break, the stages are \<open>reconcile\<close>. The
  tables of devices seen stay locked from the scan to their replacement, and nothing but the pass
  looks at them.
\<close>

section \<open>The two halves of a vanished device\<close>

text \<open>Its binding is read and the port released; then, with the memory locked again, it is
  forgotten.\<close>

definition release_gone :: "'k dm \<Rightarrow> string \<times> usb_device \<Rightarrow> ('k, unit) manager_op" where
  "release_gone D x =
     bindE (getE (\<lambda>s. crosvm_usb_ports (persistent s) (fst x))) (release_vanished D)"

definition forget_gone :: "'k dm \<Rightarrow> string \<times> usb_device \<Rightarrow> ('k, unit) manager_op" where
  "forget_gone D x =
     bindE (notify (UsbDisconnected (device_node (snd x)))) (\<lambda>_.
     bindE (modE (forget_vanished (fst x) (snd x))) (\<lambda>_.
     bindE (save D) (\<lambda>_.
     modE (forget_pending (usb_persistent_id (snd x))))))"

section \<open>Where a pass stands\<close>

datatype point =
    Settling
  | Scanning
  | Releasing "(string \<times> usb_device) list" "(string \<times> usb_device) list" "(string \<times> pci_device) list"
  | Forgetting "string \<times> usb_device" "(string \<times> usb_device) list" "(string \<times> usb_device) list"
      "(string \<times> pci_device) list"
  | ResumingPci
  | ResumingUsb "string list"
  | Revoking "string list"
  | Over "unit result"

text \<open>A stage that may fail with \<open>?\<close>, and one whose failure is collected.\<close>

definition or_over :: "'a result \<times> 'k manager \<Rightarrow> ('a \<Rightarrow> point) \<Rightarrow> point \<times> 'k manager" where
  "or_over x next = (case x of (Inl e, t) \<Rightarrow> (Over (Inl e), t) | (Inr a, t) \<Rightarrow> (next a, t))"

definition collecting ::
  "string \<Rightarrow> unit result \<times> 'k manager \<Rightarrow> (string list \<Rightarrow> point) \<Rightarrow> point \<times> 'k manager" where
  "collecting what x next = (case x of (r, t) \<Rightarrow> (next (failure what r), t))"

definition announce ::
  "'k dm \<Rightarrow> ('k, (string \<times> usb_device) list \<times> (string \<times> usb_device) list \<times>
      (string \<times> pci_device) list) manager_op" where
  "announce D =
     bindE (look_result (usb_devices D)) (\<lambda>usb.
     bindE (look_result (pci_devices D)) (\<lambda>pci.
     bindE (getE observed_usb) (\<lambda>seen.
     bindE (forE (filter (\<lambda>(key, d). key \<notin> fst ` set seen) (keyed_usb usb))
              (\<lambda>(key, d). notify (UsbConnected d))) (\<lambda>_.
     retE (filter (\<lambda>(key, d). key \<notin> fst ` set (keyed_usb usb)) seen, keyed_usb usb, keyed_pci pci)))))"

fun advance :: "'k dm \<Rightarrow> point \<times> 'k manager \<Rightarrow> point \<times> 'k manager" where
  "advance D (Settling, s) = (Scanning, snd (apply_usb_gate D (s\<lparr>deferred := False\<rparr>)))"
| "advance D (Scanning, s) =
     or_over (announce D s) (\<lambda>(gone, usb, pci). Releasing gone usb pci)"
| "advance D (Releasing [] usb pci, s) =
     or_over (observe_pci pci (s\<lparr>observed_usb := usb\<rparr>)) (\<lambda>_. ResumingPci)"
| "advance D (Releasing (x # xs) usb pci, s) =
     or_over (release_gone D x s) (\<lambda>_. Forgetting x xs usb pci)"
| "advance D (Forgetting x xs usb pci, s) =
     or_over (forget_gone D x s) (\<lambda>_. Releasing xs usb pci)"
| "advance D (ResumingPci, s) = collecting ''PCI'' (resume_pci D None s) ResumingUsb"
| "advance D (ResumingUsb fs, s) =
     collecting ''USB'' (resume_usb D None s) (\<lambda>f. Revoking (fs @ f))"
| "advance D (Revoking fs, s) =
     collecting ''USB authorization'' (deauthorize_unmatched_usb D s)
       (\<lambda>f. Over (aggregate (fs @ f)))"
| "advance D (Over r, s) = (Over r, s)"

section \<open>Run without a break\<close>

text \<open>What is left to do from a point on.\<close>

definition revoke_rest :: "'k dm \<Rightarrow> string list \<Rightarrow> ('k, unit) manager_op" where
  "revoke_rest D fs =
     bindE (tryE (deauthorize_unmatched_usb D)) (\<lambda>a.
     liftE (aggregate (fs @ failure ''USB authorization'' a)))"

definition usb_rest :: "'k dm \<Rightarrow> string list \<Rightarrow> ('k, unit) manager_op" where
  "usb_rest D fs =
     bindE (tryE (resume_usb D None)) (\<lambda>u. revoke_rest D (fs @ failure ''USB'' u))"

definition pci_rest :: "'k dm \<Rightarrow> ('k, unit) manager_op" where
  "pci_rest D = bindE (tryE (resume_pci D None)) (\<lambda>p. usb_rest D (failure ''PCI'' p))"

definition observe_rest ::
  "'k dm \<Rightarrow> (string \<times> usb_device) list \<Rightarrow> (string \<times> usb_device) list \<Rightarrow>
     (string \<times> pci_device) list \<Rightarrow> ('k, unit) manager_op" where
  "observe_rest D xs usb pci =
     bindE (forE xs (vanished_usb D)) (\<lambda>_.
     bindE (modE (\<lambda>s. s\<lparr>observed_usb := usb\<rparr>)) (\<lambda>_.
     bindE (observe_pci pci) (\<lambda>_. pci_rest D)))"

fun pass_rest :: "'k dm \<Rightarrow> point \<Rightarrow> ('k, unit) manager_op" where
  "pass_rest D Settling = reconcile D"
| "pass_rest D Scanning = bindE (observe D) (\<lambda>_. pci_rest D)"
| "pass_rest D (Releasing xs usb pci) = observe_rest D xs usb pci"
| "pass_rest D (Forgetting x xs usb pci) = bindE (forget_gone D x) (\<lambda>_. observe_rest D xs usb pci)"
| "pass_rest D ResumingPci = pci_rest D"
| "pass_rest D (ResumingUsb fs) = usb_rest D fs"
| "pass_rest D (Revoking fs) = revoke_rest D fs"
| "pass_rest D (Over r) = liftE r"

lemma bindE_assoc: "bindE (bindE f g) h = bindE f (\<lambda>x. bindE (g x) h)"
  by (rule ext) (simp add: bindE_def split: prod.split sum.split)

lemma vanished_usb_stages:
  "vanished_usb D x = bindE (release_gone D x) (\<lambda>_. forget_gone D x)"
  by (simp add: vanished_usb_def release_gone_def forget_gone_def bindE_assoc split: prod.split)

lemma observe_stages:
  "bindE (observe D) g =
     bindE (announce D) (\<lambda>(gone, usb, pci).
       bindE (forE gone (vanished_usb D)) (\<lambda>_.
       bindE (modE (\<lambda>s. s\<lparr>observed_usb := usb\<rparr>)) (\<lambda>_.
       bindE (observe_pci pci) g)))"
  by (simp add: observe_def observe_usb_def announce_def bindE_assoc bind_pure)

lemma or_over_rest:
  "(case or_over (f s) next of (q, t) \<Rightarrow> pass_rest D q t) = bindE f (\<lambda>a. pass_rest D (next a)) s"
  by (auto simp: or_over_def bindE_def liftE_def split: prod.split sum.split)

lemma collecting_rest:
  "(case collecting what (f s) next of (q, t) \<Rightarrow> pass_rest D q t) =
     bindE (tryE f) (\<lambda>r. pass_rest D (next (failure what r))) s"
  by (simp add: collecting_def bindE_def tryE_def split: prod.split)

lemma reconcile_stages:
  "reconcile D =
     bindE (modE (\<lambda>s. s\<lparr>deferred := False\<rparr>)) (\<lambda>_.
     bindE (tryE (apply_usb_gate D)) (\<lambda>_.
     bindE (observe D) (\<lambda>_. pci_rest D)))"
  by (simp add: reconcile_def pci_rest_def usb_rest_def revoke_rest_def)

lemma try_bind: "bindE (tryE f) (\<lambda>_. g) s = g (snd (f s))"
  by (simp add: bindE_def tryE_def split: prod.split)

lemma advance_rest: "(case advance D (q, s) of (q', t) \<Rightarrow> pass_rest D q' t) = pass_rest D q s"
proof (cases q)
  case Settling
  then show ?thesis by (simp add: reconcile_stages bind_pure try_bind split_def)
next
  case Scanning
  then show ?thesis
    by (simp add: or_over_rest [unfolded split_def] observe_stages observe_rest_def split_def)
next
  case (Releasing xs usb pci)
  then show ?thesis
    by (cases xs)
      (simp_all add: or_over_rest observe_rest_def bind_pure vanished_usb_stages bindE_assoc)
next
  case (Forgetting x xs usb pci)
  then show ?thesis by (simp add: or_over_rest)
next
  case ResumingPci
  then show ?thesis by (simp add: collecting_rest pci_rest_def)
next
  case (ResumingUsb fs)
  then show ?thesis by (simp add: collecting_rest usb_rest_def)
next
  case (Revoking fs)
  then show ?thesis by (simp add: collecting_rest revoke_rest_def)
qed simp

section \<open>A pass ends\<close>

text \<open>How many stages are left, when the tables of devices seen have \<open>n\<close> entries.\<close>

fun stages_left :: "nat \<Rightarrow> point \<Rightarrow> nat" where
  "stages_left n Settling = 6 + 2 * n"
| "stages_left n Scanning = 5 + 2 * n"
| "stages_left n (Releasing xs usb pci) = 4 + 2 * length xs"
| "stages_left n (Forgetting x xs usb pci) = 5 + 2 * length xs"
| "stages_left n ResumingPci = 3"
| "stages_left n (ResumingUsb fs) = 2"
| "stages_left n (Revoking fs) = 1"
| "stages_left n (Over r) = 0"

definition left_of :: "point \<times> 'k manager \<Rightarrow> nat" where
  "left_of x = stages_left (length (observed_usb (snd x))) (fst x)"

lemma kept_observed:
  "observed_usb (snd (apply_usb_gate D s)) = observed_usb s"
  "observed_usb (snd (announce D s)) = observed_usb s"
proof -
  let ?I = "\<lambda>t. observed_usb t = observed_usb s"
  have mem: "memory_invariant ?I" by (auto simp: memory_invariant_def same_memory_fields)
  note kernel = keeps_kernel_only [OF mem]
  have "keeps ?I (usb_routing D ds)" for ds
    unfolding usb_routing_def by (intro keeps_bind keeps_basic keeps_mod) simp
  then have "keeps ?I (apply_usb_gate D)"
    unfolding apply_usb_gate_def
    by (intro keeps_bind keeps_option keeps_if keeps_basic keeps_forE)
      (auto intro!: kernel kernel_only_intro)
  then show "?I (snd (apply_usb_gate D s))" by (rule keepsD) simp
  have "kernel_only (announce D)" unfolding announce_def by (intro kernel_only_intro)
  from kernel [OF this] show "?I (snd (announce D s))" by (rule keepsD) simp
qed

lemma announced: "announce D s = (Inr (gone, usb, pci), t) \<Longrightarrow> length gone \<le> length (observed_usb s)"
  by (auto simp: announce_def bindE_Inr_iff look_result_def getE_def retE_def)

lemma advance_left:
  assumes "\<And>r. fst x \<noteq> Over r"
  shows "left_of (advance D x) < left_of x"
proof (cases x)
  case (Pair q s)
  show ?thesis
    using assms announced [of D s] kept_observed [of D s]
    unfolding Pair left_of_def
    by (cases "(D, (q, s))" rule: advance.cases)
      (auto simp: or_over_def collecting_def kept_observed split: prod.split sum.split)
qed

lemma advance_runs:
  "left_of x \<le> n \<Longrightarrow>
     (advance D ^^ n) x = (case pass_rest D (fst x) (snd x) of (r, t) \<Rightarrow> (Over r, t))"
proof (induction n arbitrary: x)
  case 0
  then obtain r where "fst x = Over r" by (cases "fst x") (simp_all add: left_of_def)
  then show ?case by (simp add: liftE_def prod_eq_iff)
next
  case (Suc n)
  have "left_of (advance D x) \<le> n"
  proof (cases "\<exists>r. fst x = Over r")
    case True
    then show ?thesis by (cases x) (auto simp: left_of_def)
  next
    case False
    then show ?thesis using advance_left [of x D] Suc.prems by fastforce
  qed
  then have "(advance D ^^ n) (advance D x) =
      (case pass_rest D (fst (advance D x)) (snd (advance D x)) of (r, t) \<Rightarrow> (Over r, t))"
    by (rule Suc.IH)
  moreover have "pass_rest D (fst (advance D x)) (snd (advance D x)) = pass_rest D (fst x) (snd x)"
    using advance_rest [of D "fst x" "snd x"] by (simp add: split_def)
  ultimately show ?case by (simp add: funpow_swap1)
qed

section \<open>What every stage keeps\<close>

text \<open>The tables a pass carries come from scans.\<close>

definition scanned ::
  "'k dm \<Rightarrow> (string \<times> usb_device) list \<Rightarrow> (string \<times> pci_device) list \<Rightarrow> bool" where
  "scanned D usb pci \<longleftrightarrow>
     (\<exists>k xs. usb_devices D k = Inr xs \<and> usb = keyed_usb xs) \<and>
     (\<exists>k xs. pci_devices D k = Inr xs \<and> pci = keyed_pci xs)"

fun point_ok :: "'k dm \<Rightarrow> point \<Rightarrow> bool" where
  "point_ok D (Releasing xs usb pci) \<longleftrightarrow> scanned D usb pci"
| "point_ok D (Forgetting x xs usb pci) \<longleftrightarrow> scanned D usb pci"
| "point_ok D _ \<longleftrightarrow> True"

lemma announced_scanned: "announce D s = (Inr (gone, usb, pci), t) \<Longrightarrow> scanned D usb pci"
  by (auto simp: announce_def bindE_Inr_iff look_result_def getE_def retE_def scanned_def)

lemma point_ok_advance: "point_ok D q \<Longrightarrow> point_ok D (fst (advance D (q, s)))"
  using announced_scanned [of D s]
  by (cases "(D, (q, s))" rule: advance.cases)
    (auto simp: or_over_def collecting_def split: prod.split sum.split)

lemma snd_stage [simp]: "snd (or_over x f) = snd x" "snd (collecting what y g) = snd y"
  by (auto simp: or_over_def collecting_def split: prod.split sum.split)

text \<open>An invariant that each stage keeps when run alone, whatever was done in between.\<close>

locale stagewise =
  fixes D :: "'k dm" and I :: "'k manager \<Rightarrow> bool"
  assumes settles: "keeps I (bindE (modE (\<lambda>s. s\<lparr>deferred := False\<rparr>)) (\<lambda>_. apply_usb_gate D))"
    and announces: "keeps I (announce D)"
    and releases: "keeps I (release_gone D x)"
    and forgets: "keeps I (forget_gone D x)"
    and replaces: "scanned D usb pci \<Longrightarrow>
      keeps I (bindE (modE (\<lambda>s. s\<lparr>observed_usb := usb\<rparr>)) (\<lambda>_. observe_pci pci))"
    and resumes: "keeps I (resume_pci D None)" "keeps I (resume_usb D None)"
    and revokes: "keeps I (deauthorize_unmatched_usb D)"
begin

lemma advance_keeps: "point_ok D q \<Longrightarrow> I s \<Longrightarrow> I (snd (advance D (q, s)))"
  using keepsD [OF settles, of s] keepsD [OF announces, of s] keepsD [OF releases, of s]
    keepsD [OF forgets, of s] keepsD [OF replaces, of _ _ s] keepsD [OF resumes(1), of s]
    keepsD [OF resumes(2), of s] keepsD [OF revokes, of s]
  by (cases "(D, (q, s))" rule: advance.cases)
    (auto simp: bind_pure)

end

end
