(* ===== verification/Scan_Types.thy ===== *)
theory Scan_Types
  imports Manager_Reconcile
begin

text \<open>
  What the scans promise about the devices they report: which fields determine which, in what
  form texts come, and that the node of a device says which bus and number it has.
\<close>

section \<open>Texts\<close>

definition trimmed :: "string \<Rightarrow> bool" where
  "trimmed v \<longleftrightarrow> (v \<noteq> [] \<longrightarrow> \<not> is_ws (hd v) \<and> \<not> is_ws (last v))"

lemma trimmed_trim: "trimmed (trim s)"
proof -
  let ?t = "dropWhile is_ws s"
  let ?r = "rev (dropWhile is_ws (rev ?t))"
  have "\<not> is_ws (hd ?r) \<and> \<not> is_ws (last ?r)" if r: "?r \<noteq> []"
  proof
    have t: "?t \<noteq> []" using r by (metis dropWhile.simps(1) rev.simps(1))
    have "?t = ?r @ rev (takeWhile is_ws (rev ?t))"
      by (metis rev_append rev_rev_ident takeWhile_dropWhile_id)
    then have "hd ?t = hd ?r" using r by (metis hd_append2)
    then show "\<not> is_ws (hd ?r)" using hd_dropWhile [OF t] by simp
    show "\<not> is_ws (last ?r)" using r hd_dropWhile [of is_ws "rev ?t"] by (simp add: last_rev)
  qed
  then show ?thesis by (simp add: trimmed_def trim_def trim_start_def)
qed

lemma read_trimmed_trimmed: "read_trimmed E p k = Some v \<Longrightarrow> trimmed v"
  by (auto simp: read_trimmed_def trimmed_trim)

lemma parse_digits_zeros: "parse_digits 10 0 (replicate n (CHR ''0'') @ s) = parse_digits 10 0 s"
  by (induction n) (simp_all add: digit_val_def)

lemma show_dec_w_inject: "show_dec_w w m = show_dec_w w n \<longleftrightarrow> m = n"
proof
  have p: "parse_digits 10 0 (show_dec_w w k) = Some k" for k
    using parse_digits_show [of 10 False k]
    by (simp add: show_dec_w_def pad_zero_def parse_digits_zeros show_dec_def)
  show "show_dec_w w m = show_dec_w w n \<Longrightarrow> m = n" using p by (metis option.inject)
qed simp

lemma slash_not_digit: "CHR ''/'' \<notin> set (show_dec_w w n)"
proof -
  have "CHR ''/'' \<noteq> digit_char False d" if "d \<in> set (digits 10 n)" for d
    using digits_less [of 10 d n] that
    by (auto simp: digit_char_def dest!: arg_cong [where f = "of_char :: char \<Rightarrow> nat"])
  then show ?thesis by (auto simp: show_dec_w_def pad_zero_def show_dec_def)
qed

text \<open>A device node tells its bus and its number on the bus.\<close>

lemma node_of_inject:
  assumes "node_of b p = Some node" and "node_of b' p' = Some node"
  shows "b = b' \<and> p = p'"
proof -
  from assms obtain x y x' y' where v: "b = Some x" "p = Some y" "b' = Some x'" "p' = Some y'"
    by (auto simp: node_of_def split: option.splits)
  let ?t = "\<lambda>u w. show_dec_w 3 (unat u) @ ''/'' @ show_dec_w 3 (unat w)"
  have "node_of b p = node_of b' p'" using assms by simp
  then have "?t x y = ?t x' y'" by (simp add: v node_of_def)
  moreover have "takeWhile (\<lambda>c. c \<noteq> CHR ''/'') (?t u w) = show_dec_w 3 (unat u)" for u w
    using slash_not_digit by (subst takeWhile_append2) auto
  ultimately have "show_dec_w 3 (unat x) = show_dec_w 3 (unat x')"
    and "show_dec_w 3 (unat y) = show_dec_w 3 (unat y')"
    by (metis, metis append_same_eq same_append_eq)
  then show ?thesis using v by (simp add: show_dec_w_inject word_unat_eq_iff)
qed

section \<open>Devices as the scans report them\<close>

definition usb_typed :: "usb_device \<Rightarrow> bool" where
  "usb_typed d \<longleftrightarrow>
     device_node d = node_of (bus d) (port d) \<and> root_port d = root_port_of (sys_name d) \<and>
     (interfaces_text d = None \<longleftrightarrow> interfaces d = []) \<and>
     (\<forall>x\<in>{vid d, pid d, serial d, removable d}. \<forall>v. x = Some v \<longrightarrow> trimmed v) \<and>
     (vid d \<noteq> None \<and> pid d \<noteq> None \<longrightarrow> product_name d \<noteq> None)"

definition pci_typed :: "pci_device \<Rightarrow> bool" where
  "pci_typed d \<longleftrightarrow>
     vendor_id_text d = hex4_text (vendor_id d) \<and> device_id_text d = hex4_text (device_id d) \<and>
     (pci_class d = None \<longleftrightarrow> pci_subclass d = None) \<and> (pci_class d = None \<longleftrightarrow> prog_if d = None) \<and>
     (\<forall>x\<in>{pci_class d, pci_subclass d, prog_if d}. \<forall>v. x = Some v \<longrightarrow> v < 256)"

lemma usb_device_at_typed: "usb_typed (usb_device_at E root k name)"
  by (auto simp: usb_device_at_def Let_def usb_typed_def dest: read_trimmed_trimmed
      split: prod.split option.split)
    (auto simp: or_else_def split: option.splits)

lemma pci_device_at_typed: "pci_typed (pci_device_at E root k name)"
proof -
  have "v AND 0xff < 256" for v :: "32 word"
    using word_and_le1 [of v "0xff"] by (rule order.strict_trans1) simp
  then show ?thesis by (auto simp: pci_device_at_def Let_def pci_typed_def)
qed

lemma scan_usb_entries_typed:
  "scan_usb_entries E root protect k es = Inr ds \<Longrightarrow> d \<in> set ds \<Longrightarrow> usb_typed d"
  by (induction E root protect k es arbitrary: ds rule: scan_usb_entries.induct)
    (auto split: if_splits sum.splits bool.splits intro: usb_device_at_typed)

lemma scan_usb_typed: "scan_usb E root k = Inr ds \<Longrightarrow> d \<in> set ds \<Longrightarrow> usb_typed d"
  by (auto simp: scan_usb_def split: option.splits sum.splits intro: scan_usb_entries_typed)

lemma scan_pci_typed: "scan_pci E root k = Inr ds \<Longrightarrow> d \<in> set ds \<Longrightarrow> pci_typed d"
  by (auto simp: scan_pci_def split: sum.splits intro: pci_device_at_typed)

lemma usb_devices_typed: "usb_devices D k = Inr xs \<Longrightarrow> (d, r) \<in> set xs \<Longrightarrow> usb_typed d"
  by (cases "scan_usb D (usb_root D) k")
    (auto simp: usb_devices_def List.map_filter_def scan_usb_typed [of D "usb_root D" k])

lemma pci_devices_typed: "pci_devices D k = Inr xs \<Longrightarrow> (d, r) \<in> set xs \<Longrightarrow> pci_typed d"
  by (auto simp: pci_devices_def split: sum.splits dest: pci_candidates_rule intro: scan_pci_typed)

section \<open>The tables of observed devices\<close>

definition tables_typed :: "'k manager \<Rightarrow> bool" where
  "tables_typed s \<longleftrightarrow>
     (\<forall>(key, d)\<in>set (observed_usb s). key = sys_name d \<and> usb_typed d) \<and>
     (\<forall>(key, d)\<in>set (observed_pci s). key = address d \<and> pci_typed d)"

lemma tables_typed_update [simp]:
  "tables_typed (s\<lparr>kern := k\<rparr>) = tables_typed s"
  "tables_typed (s\<lparr>history := h\<rparr>) = tables_typed s"
  "tables_typed (s\<lparr>persistent := p\<rparr>) = tables_typed s"
  "tables_typed (s\<lparr>usb_vms := uv\<rparr>) = tables_typed s"
  "tables_typed (s\<lparr>pci_vms := pv\<rparr>) = tables_typed s"
  "tables_typed (s\<lparr>pending_usb_selection := q\<rparr>) = tables_typed s"
  "tables_typed (s\<lparr>usb_routing_cache := c\<rparr>) = tables_typed s"
  "tables_typed (s\<lparr>reported_usb_hubs := hs\<rparr>) = tables_typed s"
  "tables_typed (s\<lparr>deferred := b\<rparr>) = tables_typed s"
  by (simp_all add: tables_typed_def)

lemma keyed_usb_typed:
  "usb_devices D k = Inr xs \<Longrightarrow> \<forall>(key, d)\<in>set (keyed_usb xs). key = sys_name d \<and> usb_typed d"
  by (auto simp: keyed_usb_def intro: usb_devices_typed)

lemma keyed_pci_typed:
  "pci_devices D k = Inr xs \<Longrightarrow> \<forall>(key, d)\<in>set (keyed_pci xs). key = address d \<and> pci_typed d"
  by (auto simp: keyed_pci_def intro: pci_devices_typed)

end
