(* ===== verification/System.thy ===== *)
theory System
  imports System_Effects Pass_Stages Scan_Types
begin

text \<open>
  The manager as a transition system: every request of the API, every stage of a reconcile pass
  and gate operation of the daemon, any change of the environment between two of them, and a
  restart from whatever the state file then holds. Requests are served between the stages of a pass. One invariant of its memory is carried
  through every operation here.
\<close>

section \<open>Steps\<close>

text \<open>\<open>DeviceManager::with_roots\<close>: a configuration that does not validate gives no manager.\<close>

definition with_roots :: "'k dm \<Rightarrow> 'k \<Rightarrow> 'k manager result" where
  "with_roots D k =
     (case validate (cfg D) of Inl e \<Rightarrow> Inl e | Inr _ \<Rightarrow> Inr (initial_manager D k))"

text \<open>The restart keeps the ghost history, so that it spans the life of the deployment.\<close>

inductive step :: "'k dm \<Rightarrow> 'k manager \<Rightarrow> 'k manager \<Rightarrow> bool" for D :: "'k dm" where
  request: "handle D a s = (r, s') \<Longrightarrow> step D s s'"
| stage: "point_ok D q \<Longrightarrow> advance D (q, s) = (q', s') \<Longrightarrow> step D s s'"
| close: "close_usb_gate D s = (r, s') \<Longrightarrow> step D s s'"
| enable: "enable_usb_authorization D s = (r, s') \<Longrightarrow> step D s s'"
| reopen: "open_usb_gate D s = (r, s') \<Longrightarrow> step D s s'"
| environment: "step D s (s\<lparr>kern := k\<rparr>)"
| restart: "with_roots D (kern s) = Inr s' \<Longrightarrow> step D s (s'\<lparr>history := history s\<rparr>)"

definition starts :: "'k dm \<Rightarrow> 'k manager \<Rightarrow> bool" where
  "starts D s \<longleftrightarrow> (\<exists>k. with_roots D k = Inr s)"

definition reachable :: "'k dm \<Rightarrow> 'k manager \<Rightarrow> bool" where
  "reachable D = runs (starts D) (step D)"

lemma reachable_start: "with_roots D k = Inr s \<Longrightarrow> reachable D s"
  unfolding reachable_def by (rule runs_init) (auto simp: starts_def)

lemma reachable_step: "reachable D s \<Longrightarrow> step D s s' \<Longrightarrow> reachable D s'"
  unfolding reachable_def by (rule runs_move)

inductive_cases stepE: "step D s s'"

section \<open>Every effect is sanctioned\<close>

lemma sanctions_step:
  assumes "sanctions D f" and "f s = (r, s')" and "\<forall>x\<in>set (history s). sanctioned D (fst x)"
  shows "\<forall>x\<in>set (history s'). sanctioned D (fst x)"
proof -
  obtain new where "history s' = history s @ new" and "list_all (\<lambda>x. sanctioned D (fst x)) new"
    using emitsD [OF assms(1,2)] by blast
  then show ?thesis using assms(3) by (auto simp: list_all_iff)
qed

lemma handle_inner_state: "handle D a s = (r, s') \<Longrightarrow> \<exists>r'. handle_inner D a s = (r', s')"
  by (auto simp: handle_def split: prod.splits)

definition only_sanctioned :: "'k dm \<Rightarrow> 'k manager \<Rightarrow> bool" where
  "only_sanctioned D s \<longleftrightarrow> (\<forall>x\<in>set (history s). sanctioned D (fst x))"

lemma only_sanctioned_keeps: "sanctions D f \<Longrightarrow> keeps (only_sanctioned D) f"
  unfolding keeps_def only_sanctioned_def using sanctions_step surjective_pairing by metis

lemma sanctions_stages:
  "sanctions D (announce D)" "sanctions D (release_gone D x)" "sanctions D (forget_gone D x)"
  "sanctions D (observe_pci pci)"
  unfolding announce_def release_gone_def forget_gone_def release_vanished_def observe_pci_def
    vanished_pci_def
  by (intro emits_intro emits_lift_bind;
      auto simp: forget_vanished_def forget_pending_def dest: find_vm_Inr split: option.split)+

interpretation sanctioned_pass: stagewise D "only_sanctioned D" for D :: "'k dm"
  by unfold_locales
    (intro only_sanctioned_keeps; (intro emits_intro sanctions_intro sanctions_stages; simp))+

interpretation sanctioned_runs: machine_invariant "starts D" "step D" "only_sanctioned D"
  for D :: "'k dm"
proof
  fix s :: "'k manager"
  assume "starts D s"
  then show "only_sanctioned D s"
    by (cases "validate (cfg D)")
      (auto simp: starts_def with_roots_def initial_manager_def only_sanctioned_def)
next
  fix s s' :: "'k manager"
  assume st: "step D s s'" and all: "only_sanctioned D s"
  from st show "only_sanctioned D s'"
  proof cases
    case (request a r)
    then show ?thesis
      using keepsD2 [OF only_sanctioned_keeps [OF sanctions_handle_inner]] handle_inner_state all by metis
  next
    case (stage q q')
    then show ?thesis
      using sanctioned_pass.advance_keeps [of D q s] all by simp
  next
    case (close r)
    then show ?thesis using keepsD2 [OF only_sanctioned_keeps [OF sanctions_close_usb_gate]] all by metis
  next
    case (enable r)
    then show ?thesis using keepsD2 [OF only_sanctioned_keeps [OF sanctions_enable]] all by metis
  next
    case (reopen r)
    then show ?thesis using keepsD2 [OF only_sanctioned_keeps [OF sanctions_open_usb_gate]] all by metis
  qed (use all in \<open>simp_all add: only_sanctioned_def\<close>)
qed

lemma reachable_sanctioned: "reachable D s \<Longrightarrow> \<forall>x\<in>set (history s). sanctioned D (fst x)"
  using sanctioned_runs.always unfolding reachable_def only_sanctioned_def by blast

section \<open>The invariant of the holdings\<close>

text \<open>
  Whatever the memory records as held is held under a rule: a USB node by a VM some rule
  allows for a device with that node, a PCI address by the target of a rule whose device
  brings that address along. A question is asked once and a hub reported once, and the devices
  seen are as the scans report them.
\<close>

definition usb_holding :: "'k dm \<Rightarrow> string \<Rightarrow> string \<Rightarrow> bool" where
  "usb_holding D node name \<longleftrightarrow>
     name \<in> vm_name ` set (vms (cfg D)) \<and>
     (\<exists>d r. routed_usb D d r \<and> device_node d = Some node \<and> name \<in> set (allowed_vms r))"

definition pci_holding :: "'k dm \<Rightarrow> string \<Rightarrow> string \<Rightarrow> bool" where
  "pci_holding D a name \<longleftrightarrow>
     name \<in> vm_name ` set (vms (cfg D)) \<and>
     (\<exists>d r. routed_pci D d r \<and> passed_address D d r a \<and> target_vm r = Some name)"

definition memory_ok :: "'k dm \<Rightarrow> 'k manager \<Rightarrow> bool" where
  "memory_ok D s \<longleftrightarrow>
     (\<forall>node name. usb_vms s node = Some name \<longrightarrow> usb_holding D node name) \<and>
     (\<forall>a name. pci_vms s a = Some name \<longrightarrow> pci_holding D a name) \<and>
     distinct (pending_usb_selection s) \<and> distinct (reported_usb_hubs s) \<and> tables_typed s"

lemma memory_ok_holdings: "holdings_invariant (memory_ok D)"
  by (auto simp: holdings_invariant_def same_holdings_def memory_ok_def tables_typed_def)

lemmas ok_kernel = keeps_kernel_only [OF holdings_memory [OF memory_ok_holdings]]
lemmas ok_frame = keeps_same_holdings [OF memory_ok_holdings]
lemmas ok_save = keeps_save [OF memory_ok_holdings]

lemma memory_ok_update [simp]:
  "memory_ok D s \<Longrightarrow> memory_ok D (s\<lparr>persistent := p\<rparr>)"
  "memory_ok D s \<Longrightarrow> memory_ok D (s\<lparr>kern := k\<rparr>)"
  "memory_ok D s \<Longrightarrow> memory_ok D (s\<lparr>history := h\<rparr>)"
  "memory_ok D s \<Longrightarrow> memory_ok D (s\<lparr>deferred := b\<rparr>)"
  "memory_ok D s \<Longrightarrow> memory_ok D (s\<lparr>usb_routing_cache := c\<rparr>)"
  by (simp_all add: memory_ok_def)

lemma memory_ok_observed:
  "memory_ok D s \<Longrightarrow> usb_devices D k = Inr usb \<Longrightarrow> memory_ok D (s\<lparr>observed_usb := keyed_usb usb\<rparr>)"
  "memory_ok D s \<Longrightarrow> pci_devices D k = Inr pci \<Longrightarrow> memory_ok D (s\<lparr>observed_pci := keyed_pci pci\<rparr>)"
  using keyed_usb_typed [of D k usb] keyed_pci_typed [of D k pci]
  by (auto simp: memory_ok_def tables_typed_def)

lemma memory_ok_shrink:
  "memory_ok D s \<Longrightarrow> memory_ok D (forget_attachment node name s)"
  "memory_ok D s \<Longrightarrow> memory_ok D (forget_pending i s)"
  "memory_ok D s \<Longrightarrow> memory_ok D (forget_pci addrs s)"
  "memory_ok D s \<Longrightarrow> memory_ok D (forget_vanished key d s)"
  "memory_ok D s \<Longrightarrow> memory_ok D (record_port d' n c s)"
  by (auto simp: memory_ok_def forget_attachment_def forget_pending_def forget_pci_def
      forget_vanished_def record_port_def split: option.splits if_splits)

lemma ok_detach_one_usb: "keeps (memory_ok D) (detach_one_usb D d permanent)"
  unfolding detach_one_usb_def
  by (intro keeps_intro keeps_mod ok_save ok_kernel kernel_only_intro memory_ok_shrink)

lemma ok_release_interfaces: "keeps (memory_ok D) (release_interfaces D d is)"
proof (induction "is")
  case (Cons i "is")
  have "keeps (memory_ok D) (report_hub j)" for j
    unfolding report_hub_def by (rule keeps_mod) (auto simp: memory_ok_def)
  then show ?case
    unfolding release_interfaces.simps
    by (intro keeps_bind keeps_if keeps_basic Cons.IH) (auto intro: ok_kernel kernel_only_intro)
qed (simp add: keeps_basic)

lemma ok_claim_usb: "keeps (memory_ok D) (claim_usb D d node v preflight moved)"
  unfolding claim_usb_def
  by (intro keeps_bind keeps_if keeps_option keeps_prod keeps_basic ok_release_interfaces)
    (intro ok_kernel kernel_only_intro)+

lemma ok_record_attachment:
  assumes "usb_holding D node (vm_name v)"
  shows "keeps (memory_ok D) (record_attachment D d node v c)"
proof -
  have "memory_ok D (s\<lparr>usb_vms := (usb_vms s)(node := Some (vm_name v))\<rparr>)" if "memory_ok D s" for s
    using assms that by (auto simp: memory_ok_def)
  then show ?thesis
    unfolding record_attachment_def
    by (intro keeps_intro keeps_mod ok_save ok_kernel kernel_only_intro memory_ok_shrink)
qed

lemma ok_under_guard:
  assumes "keeps (memory_ok D) f" and "\<And>c. keeps (memory_ok D) (g c)"
  shows "keeps (memory_ok D) (under_guard D d armed f g)"
  unfolding under_guard_def by (intro keeps_intro assms ok_kernel kernel_only_intro)

lemma ok_attach_to_vm:
  assumes "\<And>node. device_node d = Some node \<Longrightarrow> usb_holding D node (vm_name v)"
  shows "keeps (memory_ok D) (attach_to_vm D d v)"
  unfolding attach_to_vm_def
  by (intro keeps_bind keeps_option keeps_if keeps_basic ok_detach_one_usb ok_under_guard
      ok_claim_usb ok_record_attachment assms ok_kernel kernel_only_intro)

lemma ok_attach_one_usb:
  assumes "routed_usb D d r"
  shows "keeps (memory_ok D) (attach_one_usb D d r requested)"
proof -
  have "keeps (memory_ok D) (ask_selection d r)"
    unfolding ask_selection_def
    by (rule keeps_get_bind) (auto simp: op_simps host_defs memory_ok_def bindE_def)
  moreover have "keeps (memory_ok D) (bindE (liftE (find_vm (cfg D) name)) (\<lambda>v. attach_to_vm D d v))"
    if "name \<in> set (allowed_vms r)" for name
    by (intro keeps_lift_bind ok_attach_to_vm)
      (use assms that in \<open>auto simp: usb_holding_def dest: find_vm_Inr\<close>)
  ultimately have "keeps (memory_ok D)
      (case chosen of
         None \<Rightarrow> ask_selection d r
       | Some name \<Rightarrow>
           (if name \<notin> set (allowed_vms r) then failE (not_allowed name d)
            else bindE (liftE (find_vm (cfg D) name)) (\<lambda>v. attach_to_vm D d v)))" for chosen
    by (cases chosen) (simp_all add: keeps_basic)
  then show ?thesis
    unfolding attach_one_usb_def by (rule keeps_bind [OF keeps_basic(4)])
qed

lemma ok_attach_pci_to:
  assumes "routed_pci D d r" and "target_vm r = Some (vm_name v)" and "v \<in> set (vms (cfg D))"
  shows "keeps (memory_ok D) (attach_pci_to D d r v)"
proof -
  have "memory_ok D (record_pci addrs (vm_name v) s)"
    if "memory_ok D s" and "\<forall>a\<in>set addrs. passed_address D d r a" for addrs s
    using assms that by (auto simp: memory_ok_def record_pci_def pci_holding_def split: if_splits)
  then have recorded:
    "memory_ok D (record_pci (if iommu_add_all r then group_or_self (address d) g else [address d])
       (vm_name v) s)"
    if "memory_ok D s" and "iommu_group D (address d) (pci_root D) k = Inr g" for g k s
    using that passed_group [OF that(2)] by metis
  show ?thesis
    unfolding attach_pci_to_def Let_def
    by (rule keeps_bind, intro ok_kernel kernel_only_intro, rule keeps_look_result_bind)
      (intro keeps_bind keeps_if keeps_basic keeps_mod ok_save ok_kernel kernel_only_intro recorded;
        assumption)
qed

lemma ok_attach_one_pci:
  assumes "routed_pci D d r"
  shows "keeps (memory_ok D) (attach_one_pci D d r requested)"
  unfolding attach_one_pci_def Let_def
  by (intro keeps_lift_bind keeps_if keeps_basic ok_attach_pci_to assms)
    (auto dest: find_vm_Inr)

lemma ok_detach_one_pci: "keeps (memory_ok D) (detach_one_pci D d r permanent)"
  unfolding detach_one_pci_def detach_pci_from_def Let_def
  by (intro keeps_intro keeps_mod ok_save ok_kernel kernel_only_intro memory_ok_shrink)

lemma ok_defer: "keeps (memory_ok D) f \<Longrightarrow> keeps (memory_ok D) (defer_if_stopped D t f)"
  unfolding defer_if_stopped_def
  by (intro keeps_intro keeps_mod) (auto intro: ok_kernel kernel_only_intro)


lemma ok_attach_detach [keeps_intro]:
  "keeps (memory_ok D) (attach_usb D sel v)" "keeps (memory_ok D) (detach_usb D sel permanent)"
  "keeps (memory_ok D) (attach_pci D sel v)" "keeps (memory_ok D) (detach_pci D sel permanent)"
  unfolding attach_usb_def detach_usb_def attach_pci_def detach_pci_def
  by (intro keeps_look_result_bind keeps_for_each;
      force intro: ok_attach_one_usb ok_detach_one_usb ok_attach_one_pci ok_detach_one_pci
        dest: routed_usb_selected routed_pci_selected)+

lemma ok_suspend [keeps_intro]:
  "keeps (memory_ok D) (suspend_usb D v)" "keeps (memory_ok D) (suspend_pci D v)"
  unfolding suspend_usb_def suspend_pci_def suspend_one_usb_def suspend_one_pci_def
  by (intro keeps_look_result_bind keeps_for_each;
      auto intro!: keeps_bind keeps_if keeps_basic ok_detach_one_usb ok_detach_one_pci)+

lemma ok_resume [keeps_intro]:
  "keeps (memory_ok D) (resume_usb D v)" "keeps (memory_ok D) (resume_pci D v)"
  unfolding resume_usb_def resume_pci_def resume_one_usb_def resume_one_pci_def Let_def
  by (intro keeps_look_result_bind keeps_for_each;
      auto intro!: keeps_bind keeps_if keeps_basic ok_defer ok_attach_one_usb ok_attach_one_pci
        intro: routed_usbI routed_pciI)+

lemma ok_apply_usb_gate [keeps_intro]: "keeps (memory_ok D) (apply_usb_gate D)"
proof -
  have "keeps (memory_ok D) (usb_routing D ds)" for ds
    unfolding usb_routing_def by (intro keeps_bind keeps_basic keeps_mod) simp
  then show ?thesis
    unfolding apply_usb_gate_def
    by (intro keeps_bind keeps_option keeps_if keeps_basic keeps_forE)
      (auto intro!: ok_kernel kernel_only_intro)
qed

lemma ok_stages:
  "keeps (memory_ok D) (announce D)" "keeps (memory_ok D) (release_gone D x)"
  "keeps (memory_ok D) (forget_gone D x)"
  unfolding announce_def release_gone_def forget_gone_def
  by (intro keeps_prod keeps_bind keeps_mod ok_save memory_ok_shrink ok_kernel kernel_only_intro)+

lemma ok_observe_pci:
  assumes "pci_devices D k = Inr xs"
  shows "keeps (memory_ok D) (observe_pci (keyed_pci xs))"
proof -
  have gone: "keeps (memory_ok D) (vanished_pci x)" for x
    unfolding vanished_pci_def
    by (intro keeps_prod keeps_bind keeps_mod) (auto intro: ok_kernel kernel_only_intro
        simp: memory_ok_def)
  show ?thesis
    unfolding observe_pci_def
    by (intro keeps_bind keeps_forE keeps_prod keeps_mod gone)
      (auto intro: ok_kernel kernel_only_intro keeps_basic memory_ok_observed assms)
qed

interpretation memory_pass: stagewise D "memory_ok D" for D :: "'k dm"
proof
  show "keeps (memory_ok D) (bindE (modE (\<lambda>s. s\<lparr>deferred := False\<rparr>)) (\<lambda>_. apply_usb_gate D))"
    by (intro keeps_bind keeps_mod ok_apply_usb_gate memory_ok_update)
  fix usb pci assume "scanned D usb pci"
  then show "keeps (memory_ok D)
      (bindE (modE (\<lambda>s. s\<lparr>observed_usb := usb\<rparr>)) (\<lambda>_. observe_pci pci))"
    by (auto simp: scanned_def intro!: keeps_bind keeps_mod ok_observe_pci memory_ok_observed)
qed (intro ok_stages ok_resume ok_kernel kernel_only_intro)+

lemma kernel_only_vmm_args: "kernel_only (vmm_args D name require_pci)"
proof -
  have pci: "kernel_only (vfio_args D bound emitted ds)" for bound emitted ds
    by (induction D bound emitted ds rule: vfio_args.induct)
      (auto simp: Let_def intro!: kernel_only_intro)
  have acpi: "kernel_only (acpi_allow_args D as)" for as
    by (induction as) (auto simp: chown_named_def intro!: kernel_only_intro)
  show ?thesis
    unfolding vmm_args_def acpi_args_def Let_def by (intro kernel_only_intro pci acpi)
qed

lemmas ok_vmm_args [keeps_intro] = ok_kernel [OF kernel_only_vmm_args]

lemma ok_handle_inner: "keeps (memory_ok D) (handle_inner D a)"
proof (cases a)
  case (UsbList w t)
  then show ?thesis by (simp add: keeps_def)
next
  case (PciList w t)
  then show ?thesis by (simp add: keeps_def)
qed (auto simp: empty_reply_def intro!: keeps_bind keeps_basic keeps_intro)

lemma initial_memory_ok: "with_roots D k = Inr s \<Longrightarrow> memory_ok D s"
  by (auto simp: with_roots_def initial_manager_def memory_ok_def tables_typed_def split: sum.splits)

lemma step_memory_ok: "step D s s' \<Longrightarrow> memory_ok D s \<Longrightarrow> memory_ok D s'"
proof (induction rule: step.induct)
  case (request a s r s')
  then show ?case using keepsD2 [OF ok_handle_inner] handle_inner_state by metis
next
  case (stage q s q' s')
  then show ?case using memory_pass.advance_keeps [of D q s] by simp
next
  case (close s r s')
  then show ?case using keepsD2 [OF ok_kernel [OF kernel_only_usb_gate(1)]] by metis
next
  case (enable s r s')
  then show ?case using keepsD2 [OF ok_kernel [OF kernel_only_authorize_for_host(2)]] by metis
next
  case (reopen s r s')
  then show ?case using keepsD2 [OF ok_kernel [OF kernel_only_usb_gate(2)]] by metis
qed (simp_all add: initial_memory_ok)

interpretation memory_runs: machine_invariant "starts D" "step D" "memory_ok D" for D :: "'k dm"
  by unfold_locales (auto simp: starts_def intro: initial_memory_ok step_memory_ok)

lemma reachable_memory_ok: "reachable D s \<Longrightarrow> memory_ok D s"
  unfolding reachable_def by (rule memory_runs.always)

end
