(* ===== verification/Sample_Host.thy ===== *)
theory Sample_Host
  imports Manager_Reconcile "HOL-Library.Code_Target_Nat"
begin

text \<open>
  A concrete host for the witnesses, in the manner of the repository's own test fixtures: a
  small file tree, a list of scripted replies for the external commands, and a kernel that
  reacts to the two sysfs writes that matter, taking a driver link away on \<open>unbind\<close> and
  storing any other value written.
\<close>

record disk =
  files :: "(path \<times> string) list"
  links :: "(path \<times> path) list"
  dirs :: "(path \<times> string list) list"
  sockets :: "path list"
  script :: "outcome list"

definition disk_has :: "disk \<Rightarrow> path \<Rightarrow> bool" where
  "disk_has k p =
     (map_of (files k) p \<noteq> None \<or> map_of (links k) p \<noteq> None \<or> map_of (dirs k) p \<noteq> None \<or>
      p \<in> set (sockets k))"

definition disk_write :: "path \<Rightarrow> string \<Rightarrow> disk \<Rightarrow> unit result \<times> disk" where
  "disk_write p v k =
     (if p \<noteq> [] \<and> last p = ''unbind'' then
        (Inr (), k\<lparr>links := filter (\<lambda>(q, _). q \<noteq> butlast p) (links k)\<rparr>)
      else (Inr (), k\<lparr>files := (p, v) # filter (\<lambda>(q, _). q \<noteq> p) (files k)\<rparr>))"

definition disk_perform :: "effect \<Rightarrow> disk \<Rightarrow> unit result \<times> disk" where
  "disk_perform e k = (case e of Write p v \<Rightarrow> disk_write p v k | _ \<Rightarrow> (Inr (), k))"

definition disk_exec :: "path \<Rightarrow> string list \<Rightarrow> disk \<Rightarrow> outcome \<times> disk" where
  "disk_exec b args k =
     (case script k of
        [] \<Rightarrow> (TimedOut, k)
      | r # rs \<Rightarrow> (r, k\<lparr>script := rs\<rparr>))"

definition sample_metadata :: metadata where
  "sample_metadata = \<lparr>dev = 1, ino = 2, ctime_nsec = 3, rdev = 0, is_block_device = False\<rparr>"

definition sample_dm :: "config \<Rightarrow> disk dm" where
  "sample_dm c =
     \<lparr>read_bytes = (\<lambda>p k. None),
      read_text = (\<lambda>p k. map_of (files k) p),
      path_exists = (\<lambda>p k. disk_has k p),
      path_is_file = (\<lambda>p k. map_of (files k) p \<noteq> None),
      read_dir = (\<lambda>p k. map_option (map Some) (map_of (dirs k) p)),
      read_link = (\<lambda>p k. map_of (links k) p),
      canonicalize = (\<lambda>p k. if disk_has k p then Some p else None),
      get_metadata = (\<lambda>p k. if p \<in> set (sockets k) then Some sample_metadata else None),
      perform = disk_perform,
      exec = disk_exec,
      hwdb = None,
      regex = (\<lambda>p. Some (\<lambda>s. ''^(?:'' @ s @ '')'' = p)),
      modprobe = (\<lambda>_ _. None),
      modinfo = (\<lambda>_ _. None),
      input_devices = (\<lambda>_. Inr []),
      lookup_user = (\<lambda>n. Inr (if n = ''root'' then Some 0 else None)),
      lookup_group = (\<lambda>n. Inr (if n = ''root'' then Some 0 else None)),
      cfg = c,
      usb_root = [''bus'', ''devices''],
      pci_root = [''pci'', ''devices''],
      encode_state = (\<lambda>_. Inr ''{}''),
      decode_state = (\<lambda>_. Inr default_persistent)\<rparr>"

definition reply :: "string \<Rightarrow> outcome" where
  "reply out = Exited (Some 0) out []"

definition blank_interface :: usb_interface where
  "blank_interface = \<lparr>iclass = Some 3, isubclass = None, iprotocol = None\<rparr>"

definition keyboard :: usb_device where
  "keyboard =
     \<lparr>sys_name = ''1-2'', device_node = Some ''n'', bus = Some 1, port = Some 4,
      root_port = Some 2, vid = Some ''a'', pid = Some ''b'', vendor_name = None,
      product_name = None, serial = None, removable = None, device_class = Some 0,
      device_subclass = Some 0, device_protocol = Some 0, interfaces_text = None,
      interfaces = [blank_interface], driver_paths = [], modaliases = []\<rparr>"

definition gui_vm :: vm where
  "gui_vm = \<lparr>vm_name = ''gui'', vm_kind = CrosvmVm, vm_socket = [''gui.sock'']\<rparr>"

definition net_vm :: vm where
  "net_vm = \<lparr>vm_name = ''net'', vm_kind = CrosvmVm, vm_socket = [''net.sock'']\<rparr>"

definition keyboard_rule :: json where
  "keyboard_rule =
     JObj [(''targetVm'', JStr ''gui''),
           (''allow'', JArr [JObj [(''vendorId'', JStr ''A''), (''productId'', JStr ''B'')]])]"

definition sample_config :: config where
  "sample_config =
     default_config\<lparr>usb_passthrough := [keyboard_rule], vms := [gui_vm, net_vm],
       persistency := False\<rparr>"

definition authorizing_config :: config where
  "authorizing_config =
     sample_config\<lparr>authorization_policy :=
       \<lparr>auth_enable = Some True, auth_disable = None, deauthorize_unmatched = True,
        host_allow = []\<rparr>\<rparr>"

definition sample_disk :: "outcome list \<Rightarrow> disk" where
  "sample_disk replies =
     \<lparr>files = [([''bus'', ''devices'', ''1-2'', ''authorized''], ''0''),
               ([''bus'', ''drivers_autoprobe''], ''0'')],
      links = [([''bus'', ''devices'', ''1-2'', ''driver''], [''drivers'', ''usb'']),
               ([''bus'', ''devices'', ''1-2:1.0'', ''driver''], [''drivers'', ''uas''])],
      dirs = [([''bus'', ''devices''], [''1-2'', ''1-2:1.0''])],
      sockets = [[''gui.sock''], [''net.sock'']],
      script = replies\<rparr>"

definition sample_manager :: "config \<Rightarrow> outcome list \<Rightarrow> disk manager" where
  "sample_manager c replies = initial_manager (sample_dm c) (sample_disk replies)"

definition keyboard_match :: rule_match where
  "keyboard_match = usb_rule_match keyboard_rule"

text \<open>The same host with the device's identity in the sysfs, so that a scan finds it, and a PCI
  function alone in its IOMMU group.\<close>

definition plugged_disk :: "outcome list \<Rightarrow> disk" where
  "plugged_disk replies =
     \<lparr>files =
        [([''bus'', ''devices'', ''1-2'', ''authorized''], ''0''),
         ([''bus'', ''devices'', ''1-2'', ''idVendor''], ''a''),
         ([''bus'', ''devices'', ''1-2'', ''idProduct''], ''b''),
         ([''bus'', ''devices'', ''1-2'', ''busnum''], ''1''),
         ([''bus'', ''devices'', ''1-2'', ''devnum''], ''4''),
         ([''bus'', ''drivers_autoprobe''], ''0''),
         ([''pci'', ''devices'', ''0000:00:02.0'', ''vendor''], ''0x8086''),
         ([''pci'', ''devices'', ''0000:00:02.0'', ''device''], ''0x1234'')],
      links =
        [([''bus'', ''devices'', ''1-2'', ''driver''], [''drivers'', ''usb'']),
         ([''bus'', ''devices'', ''1-2:1.0'', ''driver''], [''drivers'', ''uas'']),
         ([''pci'', ''devices'', ''0000:00:02.0'', ''driver''], [''drivers'', ''e1000e''])],
      dirs = [([''bus'', ''devices''], [''1-2'', ''1-2:1.0'']),
              ([''pci'', ''devices''], [''0000:00:02.0''])],
      sockets = [[''gui.sock''], [''net.sock'']],
      script = replies\<rparr>"

definition nic_rule :: json where
  "nic_rule =
     JObj [(''targetVm'', JStr ''net''),
           (''allow'', JArr [JObj [(''vendorId'', JStr ''8086''), (''deviceId'', JStr ''1234'')]])]"

definition full_config :: config where
  "full_config = sample_config\<lparr>pci_passthrough := [nic_rule]\<rparr>"

definition plugged_manager :: "config \<Rightarrow> outcome list \<Rightarrow> disk manager" where
  "plugged_manager c replies = initial_manager (sample_dm c) (plugged_disk replies)"

text \<open>Reading an effect off a history.\<close>

lemma issued_at:
  assumes "n < length xs" and "fst (xs ! n) = e"
  shows "\<exists>k. (e, k) \<in> set xs"
  using assms by (metis nth_mem prod.collapse)

lemma fresh_history [simp]:
  "history (sample_manager c replies) = []" "history (plugged_manager c replies) = []"
  by (simp_all add: sample_manager_def plugged_manager_def initial_manager_def)

end
