(* ===== verification/System_Properties.thy ===== *)
theory System_Properties
  imports System Sample_Host
begin

text \<open>
  What holds of the manager in every reachable state, over any sequence of requests, passes,
  gate operations, restarts and changes of the environment.
\<close>

section \<open>A reachable sample\<close>

definition attached_gui :: "disk manager" where
  "attached_gui = snd (handle (sample_dm full_config) (UsbAttach (ByVidPid ''a'' ''b'') None)
     (plugged_manager full_config [reply ''devices'', reply ''devices'', reply ''ok 3'']))"

definition attached_nic :: "disk manager" where
  "attached_nic = snd (handle (sample_dm full_config) (PciAttach (ByAddress ''0000:00:02.0'') None)
     (plugged_manager full_config
        [reply ''devices'', reply ''devices'', reply ''ok'',
         reply ''devices /sys/bus/pci/devices/0000:00:02.0'']))"

lemma reachable_plugged:
  "reachable (sample_dm full_config) (plugged_manager full_config replies)"
proof -
  have "validate (cfg (sample_dm full_config)) = Inr ()" by code_simp
  then have "with_roots (sample_dm full_config) (plugged_disk replies) =
      Inr (plugged_manager full_config replies)"
    by (simp add: with_roots_def plugged_manager_def)
  then show ?thesis by (rule reachable_start)
qed

lemma reachable_handled:
  "reachable D s \<Longrightarrow> reachable D (snd (handle D a s))"
  by (rule reachable_step, assumption, rule step.request, rule surjective_pairing)

lemma reachable_attached:
  "reachable (sample_dm full_config) attached_gui" "reachable (sample_dm full_config) attached_nic"
  unfolding attached_gui_def attached_nic_def by (intro reachable_handled reachable_plugged)+

section \<open>Commands follow the rules\<close>

lemma sanctioned_usb_attach:
  assumes "sanctioned D (request (crosvm D) (attach_args node so))"
  shows "\<exists>d r v. routed_usb D d r \<and> v \<in> set (vms (cfg D)) \<and> vm_name v \<in> set (allowed_vms r) \<and>
     device_node d = Some node \<and> path_str so = path_str (vm_socket v)"
  using assms
  by (auto simp: sanctioned_def bookkeeping_def gate_effect_def acpi_effect_def pci_effect_def
      permitted_attach_def attach_effect_def bind_effect_def attach_args_def detach_args_def request_def)

text \<open>C1: no USB device reaches a VM without a rule. In every reachable state, whatever the
  requests, passes, restarts and answers of the environment before it, each \<open>usb attach\<close>
  command ever sent to a Crosvm was for the node of a device that a scan of the bus reported
  with a rule, and went to the socket of a configured VM which that rule allows.\<close>

theorem usb_attach_only_by_rule:
  assumes "reachable D s" and "(request (crosvm D) (attach_args node so), k) \<in> set (history s)"
  shows "\<exists>d r v. routed_usb D d r \<and> v \<in> set (vms (cfg D)) \<and> vm_name v \<in> set (allowed_vms r) \<and>
     device_node d = Some node \<and> path_str so = path_str (vm_socket v)"
  using sanctioned_usb_attach reachable_sanctioned [OF assms(1)] assms(2) by fastforce

lemma usb_attach_only_by_rule_witness:
  "\<exists>d r v. routed_usb (sample_dm full_config) d r \<and> v \<in> {gui_vm, net_vm} \<and>
     vm_name v \<in> set (allowed_vms r) \<and> device_node d = Some ''/dev/bus/usb/001/004'' \<and>
     ''gui.sock'' = path_str (vm_socket v)"
proof -
  have "3 < length (history attached_gui)" and
    "fst (history attached_gui ! 3) = request (crosvm (sample_dm full_config))
       (attach_args ''/dev/bus/usb/001/004'' [''gui.sock''])"
    by code_simp+
  then obtain k where k: "(request (crosvm (sample_dm full_config))
       (attach_args ''/dev/bus/usb/001/004'' [''gui.sock'']), k) \<in> set (history attached_gui)"
    by (rule issued_at [THEN exE])
  have "set (vms (cfg (sample_dm full_config))) = {gui_vm, net_vm}"
    "path_str [''gui.sock''] = ''gui.sock''"
    by (simp_all add: sample_dm_def full_config_def sample_config_def path_str_def)
  then show ?thesis using usb_attach_only_by_rule [OF reachable_attached(1) k] by simp
qed

lemma sanctioned_vfio_add:
  assumes "sanctioned D (request (crosvm D) [''vfio'', ''add'', vfio_path a, path_str so])"
  shows "\<exists>d r v. routed_pci D d r \<and> passed_address D d r a \<and> v \<in> set (vms (cfg D)) \<and>
     target_vm r = Some (vm_name v) \<and> path_str so = path_str (vm_socket v)"
  using assms
  by (auto simp: sanctioned_def bookkeeping_def gate_effect_def acpi_effect_def pci_effect_def
      permitted_attach_def attach_effect_def bind_effect_def attach_args_def detach_args_def
      request_def vfio_path_def)

text \<open>C2: no PCI function reaches a VM without a rule. In every reachable state each \<open>vfio add\<close>
  command ever sent to a Crosvm was for the address of a function that a scan reported with a
  rule, or, where that rule adds whole IOMMU groups, of a member of its group, and went to the
  socket of the rule's target VM.\<close>

theorem vfio_add_only_by_rule:
  assumes "reachable D s"
    and "(request (crosvm D) [''vfio'', ''add'', vfio_path a, path_str so], k) \<in> set (history s)"
  shows "\<exists>d r v. routed_pci D d r \<and> passed_address D d r a \<and> v \<in> set (vms (cfg D)) \<and>
     target_vm r = Some (vm_name v) \<and> path_str so = path_str (vm_socket v)"
  using sanctioned_vfio_add reachable_sanctioned [OF assms(1)] assms(2) by fastforce

lemma vfio_add_only_by_rule_witness:
  "\<exists>d r v. routed_pci (sample_dm full_config) d r \<and>
     passed_address (sample_dm full_config) d r ''0000:00:02.0'' \<and> v \<in> {gui_vm, net_vm} \<and>
     target_vm r = Some (vm_name v) \<and> ''net.sock'' = path_str (vm_socket v)"
proof -
  have "5 < length (history attached_nic)" and
    "fst (history attached_nic ! 5) = request (crosvm (sample_dm full_config))
       [''vfio'', ''add'', vfio_path ''0000:00:02.0'', path_str [''net.sock'']]"
    by code_simp+
  then obtain k where k: "(request (crosvm (sample_dm full_config))
       [''vfio'', ''add'', vfio_path ''0000:00:02.0'', path_str [''net.sock'']], k)
       \<in> set (history attached_nic)"
    by (rule issued_at [THEN exE])
  have "set (vms (cfg (sample_dm full_config))) = {gui_vm, net_vm}"
    "path_str [''net.sock''] = ''net.sock''"
    by (simp_all add: sample_dm_def full_config_def sample_config_def path_str_def)
  then show ?thesis using vfio_add_only_by_rule [OF reachable_attached(2) k] by simp
qed

section \<open>What is written\<close>

text \<open>The sysfs attributes the USB side may write, with the values.\<close>

definition usb_control :: "'k dm \<Rightarrow> path \<Rightarrow> string \<Rightarrow> bool" where
  "usb_control D p v \<longleftrightarrow>
     (\<exists>n. p = usb_root D @ [n, AUTHORIZED] \<and> v \<in> {''0'', ''1''}) \<or>
     (\<exists>n. p = usb_root D @ [n, AUTHORIZED_DEFAULT] \<and> v = ''0'') \<or>
     p = usbcore_authorized_default \<and> v = ''0'' \<or>
     p = unbind_path (usb_root D) v \<or>
     (\<exists>b. path_parent (usb_root D) = Some b \<and> p \<in> {b @ [AUTOPROBE], b @ [''drivers_probe'']})"

lemma sanctioned_write:
  assumes "sanctioned D (Write p v)"
  shows "usb_control D p v \<or>
     (\<exists>d r a. routed_pci D d r \<and> quarantined D d a \<and> bind_effect D a (Write p v))"
  using assms
  by (auto simp: sanctioned_def bookkeeping_def gate_effect_def acpi_effect_def pci_effect_def
      permitted_attach_def attach_effect_def usb_control_def auth_path_def flag_def request_def
      split: if_splits)

text \<open>C5: the manager writes only what it controls. Every sysfs write in the life of the manager is
  to the authorization or default-authorization attribute of a USB device (the default only ever
  to \<open>0\<close>), to a USB interface's unbind or the bus's probe attributes, or is one of the three
  steps of binding to vfio-pci an address in the IOMMU group of a function that a rule
  routes.\<close>

theorem writes_confined:
  assumes "reachable D s" and "(Write p v, k) \<in> set (history s)"
  shows "usb_control D p v \<or>
     (\<exists>d r a. routed_pci D d r \<and> quarantined D d a \<and> bind_effect D a (Write p v))"
  using sanctioned_write reachable_sanctioned [OF assms(1)] assms(2) by fastforce

lemma writes_confined_witness:
  "\<exists>d r a. routed_pci (sample_dm full_config) d r \<and> quarantined (sample_dm full_config) d a \<and>
     bind_effect (sample_dm full_config) a
       (Write [''pci'', ''devices'', ''0000:00:02.0'', ''driver_override''] ''vfio-pci'')"
proof -
  have "2 < length (history attached_nic)" and "fst (history attached_nic ! 2) =
      Write [''pci'', ''devices'', ''0000:00:02.0'', ''driver_override''] ''vfio-pci''"
    by code_simp+
  then obtain k where k: "(Write [''pci'', ''devices'', ''0000:00:02.0'', ''driver_override'']
      ''vfio-pci'', k) \<in> set (history attached_nic)"
    by (rule issued_at [THEN exE])
  have "\<not> usb_control (sample_dm full_config)
      [''pci'', ''devices'', ''0000:00:02.0'', ''driver_override''] ''vfio-pci''"
    by (auto simp: usb_control_def sample_dm_def AUTHORIZED_def AUTHORIZED_DEFAULT_def
        usbcore_authorized_default_def unbind_path_def path_parent_def AUTOPROBE_def)
  from disj_imp [THEN iffD1, rule_format, OF writes_confined [OF reachable_attached(2) k] this]
  show ?thesis .
qed

section \<open>What is held\<close>

text \<open>C3: the memory is justified. In every reachable state a USB node recorded as held belongs to a
  configured VM that some rule allows for a device with that node, and a PCI address recorded as
  held belongs to the target VM of a rule whose function brings that address along; no question
  is pending twice and no hub reported twice.\<close>

theorem held_only_by_rule:
  assumes "reachable D s"
  shows "(\<forall>node name. usb_vms s node = Some name \<longrightarrow> name \<in> vm_name ` set (vms (cfg D)) \<and>
       (\<exists>d r. routed_usb D d r \<and> device_node d = Some node \<and> name \<in> set (allowed_vms r))) \<and>
     (\<forall>a name. pci_vms s a = Some name \<longrightarrow> name \<in> vm_name ` set (vms (cfg D)) \<and>
       (\<exists>d r. routed_pci D d r \<and> passed_address D d r a \<and> target_vm r = Some name)) \<and>
     distinct (pending_usb_selection s) \<and> distinct (reported_usb_hubs s)"
  using reachable_memory_ok [OF assms]
  by (simp add: memory_ok_def usb_holding_def pci_holding_def)

lemma held_only_by_rule_witness:
  "usb_vms attached_gui ''/dev/bus/usb/001/004'' = Some ''gui'' \<and>
   (\<exists>d r. routed_usb (sample_dm full_config) d r \<and>
      device_node d = Some ''/dev/bus/usb/001/004'' \<and> ''gui'' \<in> set (allowed_vms r))"
proof -
  have "usb_vms attached_gui ''/dev/bus/usb/001/004'' = Some ''gui''" by code_simp
  then show ?thesis using held_only_by_rule [OF reachable_attached(1)] by blast
qed

text \<open>C4: the memory is well typed. In every reachable state the tables of the devices seen are keyed
  by the devices' own names, and every device in them is as a scan reports it: the node spells bus
  and number, the root port is that of the name, texts are trimmed, the interface summary is
  missing exactly when there are no interfaces, the PCI texts are those of the numbers and the
  class bytes are bytes; and every node recorded as held is the node of exactly one bus and number,
  so that no two devices of the bus share an entry.\<close>

theorem memory_well_typed:
  assumes "reachable D s"
  shows "(\<forall>(key, d)\<in>set (observed_usb s). key = sys_name d \<and> usb_typed d) \<and>
     (\<forall>(key, d)\<in>set (observed_pci s). key = address d \<and> pci_typed d) \<and>
     (\<forall>node name. usb_vms s node = Some name \<longrightarrow>
        (\<exists>!x. node_of (Some (fst x)) (Some (snd x)) = Some node))"
proof -
  have ok: "memory_ok D s" by (rule reachable_memory_ok [OF assms])
  have "\<exists>!x. node_of (Some (fst x)) (Some (snd x)) = Some node" if "usb_vms s node = Some name" for node name
  proof -
    have "usb_holding D node name" using ok that by (simp add: memory_ok_def)
    then obtain d r where "routed_usb D d r" and "device_node d = Some node"
      by (auto simp: usb_holding_def)
    then have "node_of (bus d) (port d) = Some node"
      using usb_devices_typed by (fastforce simp: routed_usb_def usb_typed_def)
    then obtain b p where "node_of (Some b) (Some p) = Some node"
      by (auto simp: node_of_def split: option.splits)
    then show ?thesis
      by (intro ex1I [of _ "(b, p)"]) (auto dest: node_of_inject)
  qed
  then show ?thesis using ok by (auto simp: memory_ok_def tables_typed_def)
qed

lemma memory_well_typed_witness:
  "\<exists>!x. node_of (Some (fst x)) (Some (snd x)) = Some ''/dev/bus/usb/001/004''"
proof -
  have "usb_vms attached_gui ''/dev/bus/usb/001/004'' = Some ''gui''" by code_simp
  then show ?thesis using memory_well_typed [OF reachable_attached(1)] by blast
qed

end
