(* ===== verification/Usb_Memory.thy ===== *)
theory Usb_Memory
  imports Manager_Memory Usb_Effects
begin

text \<open>What attaching and detaching a USB device leave in the manager's memory.\<close>

section \<open>Claiming\<close>

definition hub_reported :: "usb_device \<Rightarrow> 'k manager \<Rightarrow> 'k manager \<Rightarrow> bool" where
  "hub_reported d s s' \<longleftrightarrow>
     set (reported_usb_hubs s') = insert (usb_persistent_id d) (set (reported_usb_hubs s)) \<and>
     same_memory (s\<lparr>reported_usb_hubs := reported_usb_hubs s'\<rparr>) s'"

lemma report_hub_reported: "report_hub (usb_persistent_id d) s = (r, s') \<Longrightarrow> hub_reported d s s'"
  by (auto simp: report_hub_def modE_def hub_reported_def same_memory_def split: if_splits)

lemma same_memory_hub_reported:
  "same_memory s t \<Longrightarrow> hub_reported d t u \<Longrightarrow> hub_reported d s u"
  by (cases s; cases t; cases u) (simp add: hub_reported_def same_memory_def)

text \<open>Memory the same as in \<open>s\<close>, on both ways out.\<close>

abbreviation frames :: "'k manager \<Rightarrow> ('k, 'a) manager_op \<Rightarrow> bool" where
  "frames s f \<equiv> triple (same_memory s) f (\<lambda>_. same_memory s) (\<lambda>_. same_memory s)"

lemma frames_kernel_only: "kernel_only f \<Longrightarrow> frames s f"
  by (rule tripleI) (auto dest: kernel_onlyD intro: same_memory_trans)

lemma triple_frame_bind:
  "kernel_only f \<Longrightarrow> (\<And>x. triple (same_memory s) (g x) Q R) \<Longrightarrow> (\<And>e t. same_memory s t \<Longrightarrow> R e t) \<Longrightarrow>
     triple (same_memory s) (bindE f g) Q R"
  by (rule triple_bind [OF triple_conseq [OF frames_kernel_only]])

lemma release_interfaces_memory:
  "triple (same_memory s) (release_interfaces D d is)
     (\<lambda>free t. if free then same_memory s t else hub_reported d s t) (\<lambda>_. same_memory s)"
proof (induction "is")
  case Nil
  then show ?case by (auto intro: triple_ret)
next
  case (Cons i "is")
  have hub: "triple (same_memory s) (bindE (report_hub (usb_persistent_id d)) (\<lambda>_. retE False))
      (\<lambda>free t. if free then same_memory s t else hub_reported d s t) (\<lambda>_. same_memory s)"
  proof (rule tripleI)
    fix t x t' assume m: "same_memory s t"
      and r: "bindE (report_hub (usb_persistent_id d)) (\<lambda>_. retE False) t = (Inr x, t')"
    obtain u where u: "report_hub (usb_persistent_id d) t = (Inr (), u)"
      by (simp add: report_hub_def modE_def)
    then have "hub_reported d s u" using same_memory_hub_reported [OF m] report_hub_reported by blast
    then show "if x then same_memory s t' else hub_reported d s t'"
      using r u by (auto simp: bindE_apply op_simps)
  qed (auto simp: bindE_apply op_simps report_hub_def)
  show ?case
    unfolding release_interfaces.simps
    by (rule triple_frame_bind, intro kernel_only_intro)
      (intro triple_if hub Cons.IH triple_frame_bind kernel_only_intro; assumption)+
qed

lemma claim_usb_memory:
  "triple (same_memory s) (claim_usb D d node v preflight moved)
     (\<lambda>c t. if c = None then hub_reported d s t else same_memory s t) (\<lambda>_. same_memory s)"
proof -
  let ?rest = "bindE (case preflight of Some p \<Rightarrow> retE p | None \<Rightarrow> query_vm D v) (\<lambda>(gen, live).
       bindE (obtain_port D d node v gen live moved) (\<lambda>c. retE (Some c)))"
  have "triple (same_memory s) ?rest (\<lambda>c t. c \<noteq> None \<and> same_memory s t) (\<lambda>_. same_memory s)"
  proof (rule triple_frame_bind)
    fix x
    show "triple (same_memory s)
       (case x of (gen, live) \<Rightarrow>
          bindE (obtain_port D d node v gen live moved) (\<lambda>c. retE (Some c)))
       (\<lambda>c t. c \<noteq> None \<and> same_memory s t) (\<lambda>_. same_memory s)"
      by (intro triple_prod triple_frame_bind kernel_only_obtain_port triple_ret) simp_all
  qed (intro kernel_only_intro, assumption)
  then have rest: "triple (\<lambda>t. if free then same_memory s t else hub_reported d s t)
     (if \<not> free then retE None else ?rest)
     (\<lambda>c t. if c = None then hub_reported d s t else same_memory s t) (\<lambda>_. same_memory s)" for free
    by (cases free) (auto intro: triple_ret elim!: triple_conseq)
  show ?thesis
    unfolding claim_usb_def
    by (rule triple_frame_bind [OF kernel_only_configure], rule triple_frame_bind,
        intro kernel_only_intro, rule triple_bind [OF release_interfaces_memory rest])
qed

section \<open>Recording\<close>

text \<open>The binding an attach leaves behind.\<close>

definition attached_binding :: "usb_device \<Rightarrow> string \<Rightarrow> claim \<Rightarrow> usb_port_binding" where
  "attached_binding d name c =
     \<lparr>binding_vm = name, binding_port = claimed_port c, socket_gen = generation c,
      binding_vid = vid d, binding_pid = pid d, binding_serial = serial d\<rparr>"

text \<open>The memory after \<open>d\<close> went to \<open>name\<close>, from memory \<open>s\<close>.\<close>

definition attached_memory ::
  "usb_device \<Rightarrow> string \<Rightarrow> string \<Rightarrow> claim \<Rightarrow> 'k manager \<Rightarrow> 'k manager" where
  "attached_memory d node name c s =
     forget_pending (usb_persistent_id d)
       (record_port d name c
         (s\<lparr>usb_vms := (usb_vms s)(node := Some name),
            persistent := mark_disconnected (usb_persistent_id d) False
              (remember_vm (usb_persistent_id d) name (persistent s))\<rparr>))"

lemma triple_mod_frame:
  assumes "\<And>t. same_memory s t \<Longrightarrow> same_memory (h s) (h t)"
    and "triple (same_memory (h s)) (g ()) Q R"
  shows "triple (same_memory s) (bindE (modE h) g) Q R"
  by (rule triple_bind [OF triple_mod [where Q = "\<lambda>_. same_memory (h s)"]])
    (use assms in \<open>auto simp: old.unit.exhaust\<close>)

lemma same_memory_maps:
  "same_memory s t \<Longrightarrow> same_memory (forget_pending i s) (forget_pending i t)"
  "same_memory s t \<Longrightarrow> same_memory (record_port d n c s) (record_port d n c t)"
  "same_memory s t \<Longrightarrow> same_memory (forget_attachment node n s) (forget_attachment node n t)"
  "same_memory s t \<Longrightarrow> same_memory (s\<lparr>usb_vms := (usb_vms s)(node := x)\<rparr>)
      (t\<lparr>usb_vms := (usb_vms t)(node := x)\<rparr>)"
  "same_memory s t \<Longrightarrow> same_memory (s\<lparr>persistent := p (persistent s)\<rparr>)
      (t\<lparr>persistent := p (persistent t)\<rparr>)"
  by (cases s; cases t;
      simp add: same_memory_def forget_pending_def record_port_def forget_attachment_def)+

lemma triple_select_vm:
  "triple (same_memory s) (select_vm D i name)
     (\<lambda>_. same_memory (s\<lparr>persistent := remember_vm i name (persistent s)\<rparr>)) (\<lambda>_ _. True)"
  unfolding select_vm_def
  by (rule triple_mod_frame [OF same_memory_maps(5)])
    (auto intro: triple_conseq [OF frames_kernel_only [OF kernel_only_save]])

lemma triple_set_disconnected:
  "triple (same_memory s) (set_disconnected D i v)
     (\<lambda>_. same_memory (s\<lparr>persistent := mark_disconnected i v (persistent s)\<rparr>))
     (\<lambda>_. same_memory (s\<lparr>persistent := mark_disconnected i v (persistent s)\<rparr>))"
  unfolding set_disconnected_def
  by (rule triple_mod_frame [OF same_memory_maps(5)])
    (auto intro: frames_kernel_only [OF kernel_only_save])

lemma record_attachment_memory:
  "triple (same_memory s) (record_attachment D d node v c)
     (\<lambda>_. same_memory (attached_memory d node (vm_name v) c s)) (\<lambda>_ _. True)"
proof -
  let ?i = "usb_persistent_id d"
  let ?s1 = "s\<lparr>usb_vms := (usb_vms s)(node := Some (vm_name v))\<rparr>"
  let ?s2 = "?s1\<lparr>persistent := remember_vm ?i (vm_name v) (persistent ?s1)\<rparr>"
  let ?s3 = "?s2\<lparr>persistent := mark_disconnected ?i False (persistent ?s2)\<rparr>"
  have s4: "forget_pending ?i (record_port d (vm_name v) c ?s3) = attached_memory d node (vm_name v) c s"
    by (simp add: attached_memory_def)
  have tail: "triple (same_memory (forget_pending ?i (record_port d (vm_name v) c ?s3)))
     (if changed c then notify (UsbAttached d (vm_name v)) else retE ())
     (\<lambda>_. same_memory (attached_memory d node (vm_name v) c s)) (\<lambda>_ _. True)"
    unfolding s4
    by (rule triple_conseq [OF frames_kernel_only]) (intro kernel_only_intro, simp_all)
  show ?thesis
    unfolding record_attachment_def
    by (rule triple_frame_bind, intro kernel_only_intro, rule triple_mod_frame,
        erule same_memory_maps(4), rule triple_bind [OF triple_select_vm],
        rule triple_bind, rule triple_conseq [OF triple_set_disconnected], assumption,
        assumption, simp, rule triple_mod_frame, erule same_memory_maps(2),
        rule triple_frame_bind [OF kernel_only_save], rule triple_mod_frame,
        erule same_memory_maps(1), rule tail, simp_all)
qed

section \<open>Detaching\<close>

text \<open>The memory after \<open>d\<close> was let go.\<close>

definition detached_memory ::
  "usb_device \<Rightarrow> string \<Rightarrow> bool \<Rightarrow> 'k manager \<Rightarrow> 'k manager" where
  "detached_memory d node permanent s =
     (let t = forget_attachment node (sys_name d) s in
      forget_pending (usb_persistent_id d)
        (t\<lparr>persistent := mark_disconnected (usb_persistent_id d) permanent (persistent t)\<rparr>))"

lemma detach_one_usb_memory:
  assumes "device_node d = Some node"
  shows "triple (same_memory s) (detach_one_usb D d permanent)
     (\<lambda>_. same_memory (detached_memory d node permanent s))
     (\<lambda>_ t. same_memory s t \<or> same_memory (detached_memory d node permanent s) t)"
proof -
  let ?i = "usb_persistent_id d"
  let ?s1 = "forget_attachment node (sys_name d) s"
  let ?s2 = "?s1\<lparr>persistent := mark_disconnected ?i permanent (persistent ?s1)\<rparr>"
  have s3: "forget_pending ?i ?s2 = detached_memory d node permanent s"
    by (simp add: detached_memory_def Let_def)
  have persist: "triple (same_memory ?s1)
     (tryE (bindE (set_disconnected D ?i permanent) (\<lambda>_. save D))) (\<lambda>_. same_memory ?s2) R" for R
    by (intro triple_try triple_bind [OF triple_set_disconnected] frames_kernel_only
        kernel_only_save)
  have last: "triple (same_memory ?s2)
     (bindE (modE (forget_pending ?i)) (\<lambda>_. bindE (deauthorize_detached D d) (\<lambda>_. liftE r)))
     (\<lambda>_. same_memory (detached_memory d node permanent s))
     (\<lambda>_ t. same_memory s t \<or> same_memory (detached_memory d node permanent s) t)" for r
    unfolding s3 [symmetric]
    by (rule triple_mod_frame [OF same_memory_maps(1)], assumption,
        rule triple_conseq [OF frames_kernel_only], intro kernel_only_intro, auto simp: s3)
  show ?thesis
    unfolding detach_one_usb_def assms option.case
    by (rule triple_frame_bind, intro kernel_only_intro, rule triple_prod,
        rule triple_frame_bind, intro kernel_only_intro, rule triple_mod_frame,
        erule same_memory_maps(3), rule triple_bind [OF persist last], simp_all)
qed

section \<open>Attaching\<close>

lemma hub_reported_same_memory: "hub_reported d s t \<Longrightarrow> same_memory t u \<Longrightarrow> hub_reported d s u"
  by (cases s; cases t; cases u) (simp add: hub_reported_def same_memory_def)

text \<open>How an attach that reports success ends: recorded, or skipped at a hub.\<close>

definition attach_done ::
  "usb_device \<Rightarrow> string \<Rightarrow> string \<Rightarrow> 'k manager \<Rightarrow> 'k manager \<Rightarrow> bool" where
  "attach_done d node name s t \<longleftrightarrow>
     (\<exists>c. same_memory (attached_memory d node name c s) t) \<or> hub_reported d s t"

text \<open>The stages of an attach that reports success.\<close>

definition made_free :: "'k dm \<Rightarrow> usb_device \<Rightarrow> string \<Rightarrow> vm \<Rightarrow> 'k manager \<Rightarrow> 'k manager \<Rightarrow> bool" where
  "made_free D d node v s t \<longleftrightarrow>
     (if usb_vms s node \<in> {None, Some (vm_name v)} then t = s
      else detach_one_usb D d False s = (Inr (), t))"

lemma attach_to_vm_stages:
  assumes "attach_to_vm D d v s = (Inr (), t)"
  obtains node pre s0 s1 armed s2 co s3 where
    "device_node d = Some node" and "preflight_vm D d v s = (Inr pre, s0)"
    "made_free D d node v s0 s1" and "usb_authorization_guard D d s1 = (Inr armed, s2)"
    "claim_usb D d node v pre (usb_vms s0 node \<noteq> Some (vm_name v)) s2 = (Inr co, s3)"
    "case co of None \<Rightarrow> drop_guard D d armed s3 = (Inr (), t)
     | Some c \<Rightarrow> record_attachment D d node v c s3 = (Inr (), t)"
proof -
  from assms obtain node pre s0 where node: "device_node d = Some node"
    and pre: "preflight_vm D d v s = (Inr pre, s0)"
    and rest: "bindE (getE (\<lambda>s. usb_vms s node)) (\<lambda>holder.
         bindE (if holder \<noteq> None \<and> holder \<noteq> Some (vm_name v)
                then detach_one_usb D d False else retE ()) (\<lambda>_.
         bindE (usb_authorization_guard D d) (\<lambda>armed.
         under_guard D d armed (claim_usb D d node v pre (holder \<noteq> Some (vm_name v)))
           (record_attachment D d node v)))) s0 = (Inr (), t)"
    by (auto simp: attach_to_vm_def bindE_Inr_iff pure_Inr_iff split: option.splits)
  obtain s1 armed s2 where free: "made_free D d node v s0 s1"
    and guard: "usb_authorization_guard D d s1 = (Inr armed, s2)"
    and under: "under_guard D d armed (claim_usb D d node v pre (usb_vms s0 node \<noteq> Some (vm_name v)))
           (record_attachment D d node v) s2 = (Inr (), t)"
    using rest by (auto simp: made_free_def bind_pure bindE_Inr_iff pure_Inr_iff split: if_splits)
  obtain r s3 where claim: "claim_usb D d node v pre (usb_vms s0 node \<noteq> Some (vm_name v)) s2 = (r, s3)"
    by fastforce
  then show thesis
    using under that [OF node pre free guard]
    by (cases r) (auto simp: under_guard_def bindE_Inr_iff pure_Inr_iff tryE_apply bindE_apply
        failE_def split: option.splits prod.splits sum.splits)
qed

lemma made_free_memory:
  assumes "device_node d = Some node" and "made_free D d node v s t" and "same_memory r s"
  shows "if usb_vms r node \<in> {None, Some (vm_name v)} then same_memory r t
    else same_memory (detached_memory d node False r) t"
  using assms(2,3) triple_InrD [OF detach_one_usb_memory [OF assms(1)] assms(3)]
    same_memory_fields(2) [OF assms(3)]
  by (auto simp: made_free_def split: if_splits)

lemma attach_to_vm_memory:
  assumes "attach_to_vm D d v s = (Inr (), t)"
  shows "\<exists>node. device_node d = Some node \<and>
     (attach_done d node (vm_name v) s t \<or>
      usb_vms s node \<noteq> None \<and> usb_vms s node \<noteq> Some (vm_name v) \<and>
      attach_done d node (vm_name v) (detached_memory d node False s) t)"
  using assms
proof (cases rule: attach_to_vm_stages)
  case (1 node pre s0 s1 armed s2 co s3)
  have s1: "if usb_vms s node \<in> {None, Some (vm_name v)} then same_memory s s1
      else same_memory (detached_memory d node False s) s1"
    by (rule made_free_memory [OF 1(1,3) kernel_onlyD [OF kernel_only_preflight 1(2)]])
  have s2: "same_memory s1 s2" by (rule kernel_onlyD [OF kernel_only_guard(2) 1(4)])
  have "attach_done d node (vm_name v) r t" if "same_memory r s1" for r
  proof -
    have s3: "if co = None then hub_reported d r s3 else same_memory r s3"
      by (rule triple_InrD [OF claim_usb_memory same_memory_trans [OF that s2] 1(5)])
    show ?thesis
    proof (cases co)
      case None
      then have "same_memory s3 t" using 1(6) kernel_onlyD [OF kernel_only_guard(1)] by auto
      then show ?thesis
        using s3 None hub_reported_same_memory [of d r s3 t] by (simp add: attach_done_def)
    next
      case (Some c)
      then have m: "same_memory r s3" and rec: "record_attachment D d node v c s3 = (Inr (), t)"
        using s3 1(6) by simp_all
      show ?thesis
        using triple_InrD [OF record_attachment_memory m rec] by (auto simp: attach_done_def)
    qed
  qed
  then show ?thesis using 1(1) s1 by (auto split: if_splits)
qed

end
