(* ===== verification/Usb_Claim.thy ===== *)
theory Usb_Claim
  imports Usb_Memory
begin

text \<open>
  What an attach asks of Crosvm and where the port that it records comes from: the answers
  behind a claim, tied to the effects of the run.
\<close>

section \<open>Growing histories\<close>

definition grown :: "'k manager \<Rightarrow> 'k manager \<Rightarrow> bool" where
  "grown s t \<longleftrightarrow> prefix (history s) (history t)"

lemma grown_refl [simp]: "grown s s"
  by (simp add: grown_def)

lemma grown_trans: "grown s t \<Longrightarrow> grown t u \<Longrightarrow> grown s u"
  by (simp add: grown_def prefix_order.trans)

lemma grown_emits:
  assumes "emits A f" and "f s = (r, t)"
  shows "grown s t"
proof -
  obtain new where "history t = history s @ new" using emitsD [OF assms] by blast
  then show ?thesis by (simp add: grown_def)
qed

lemma grown_effects:
  assumes "grown s u" and "grown u t"
  shows "fresh_effects s u \<subseteq> fresh_effects s t" and "fresh_effects u t \<subseteq> fresh_effects s t"
  using assms by (auto simp: grown_def prefix_def fresh_effects_def)

section \<open>Answers\<close>

text \<open>Between \<open>s\<close> and \<open>t\<close> the VM's Crosvm was asked for its devices and answered \<open>live\<close>, when the
  generation of its socket was \<open>gen\<close>.\<close>

definition crosvm_listed ::
  "'k dm \<Rightarrow> vm \<Rightarrow> string \<Rightarrow> usb_entry list \<Rightarrow> 'k manager \<Rightarrow> 'k manager \<Rightarrow> bool" where
  "crosvm_listed D v gen live s t \<longleftrightarrow>
     (\<exists>k out. (request (crosvm D) [''usb'', ''list'', path_str (vm_socket v)], k) \<in> fresh_effects s t \<and>
        answer D (crosvm D) [''usb'', ''list'', path_str (vm_socket v)] k = Some out \<and>
        parse_usb_list out = Inr live \<and> gen = generation_or_default D (vm_socket v) k)"

lemma crosvm_listed_grown:
  assumes "crosvm_listed D v gen live u w" and "grown s u" and "grown u w" and "grown w t"
  shows "crosvm_listed D v gen live s t"
  using assms(1) grown_effects(1) [OF assms(3,4)]
    grown_effects(2) [OF assms(2) grown_trans [OF assms(3,4)]]
  unfolding crosvm_listed_def by blast

text \<open>Between \<open>s\<close> and \<open>t\<close> the VM's Crosvm was asked to attach \<open>node\<close> and gave it port \<open>p\<close>: it
  named the port, or it named none and \<open>p\<close> is the one port that its list then showed anew.\<close>

definition port_given :: "'k dm \<Rightarrow> vm \<Rightarrow> string \<Rightarrow> 8 word \<Rightarrow> 'k manager \<Rightarrow> 'k manager \<Rightarrow> bool" where
  "port_given D v node p s t \<longleftrightarrow>
     (\<exists>k out fs. (request (crosvm D) (attach_args node (vm_socket v)), k) \<in> fresh_effects s t \<and>
        answer D (crosvm D) (attach_args node (vm_socket v)) k = Some out \<and>
        split_whitespace out = ''ok'' # fs \<and>
        ((\<exists>w ws. fs = w # ws \<and> parse_u8 w = Some p) \<or>
         (\<exists>g1 l1 g2 l2. crosvm_listed D v g1 l1 s t \<and> crosvm_listed D v g2 l2 s t \<and>
            filter (\<lambda>q. q \<notin> fst ` set l1) (map fst l2) = [p])))"

lemma port_given_grown:
  assumes "port_given D v node p u w" and "grown s u" and "grown u w" and "grown w t"
  shows "port_given D v node p s t"
  using assms(1) grown_effects(1) [OF assms(3,4)]
    grown_effects(2) [OF assms(2) grown_trans [OF assms(3,4)]]
    crosvm_listed_grown [OF _ assms(2-4)]
  unfolding port_given_def by blast

lemma extends_claims:
  "emits (\<lambda>_. True) (usb_list D B so)" "emits (\<lambda>_. True) (query_vm D v)"
  "emits (\<lambda>_. True) (attach_attempts n D B so node old)"
  "emits (\<lambda>_. True) (preflight_vm D d v)" "emits (\<lambda>_. True) (configure_device D d)"
  "emits (\<lambda>_. True) (obtain_port D d node v gen live moved)"
  "emits (\<lambda>_. True) (release_interfaces D d is)"
  "emits (\<lambda>_. True) (usb_authorization_guard D d)"
  "emits (\<lambda>_. True) (detach_one_usb D d permanent)"
  "emits (\<lambda>_. True) (claim_usb D d node v preflight moved)"
  "emits (\<lambda>_. True) (record_attachment D d node v c)"
  unfolding preflight_vm_def claim_usb_def record_attachment_def
  by (intro emits_intro emits_configure_device emits_release_interfaces emits_query_vm
      emits_obtain_port emits_guard emits_detach_one_usb;
      simp add: record_port_def forget_pending_def)+

lemmas grown_claims = extends_claims [THEN grown_emits]

lemma usb_list_listed:
  assumes "usb_list D (crosvm D) (vm_socket v) s = (Inr live, t)"
  shows "crosvm_listed D v (generation_or_default D (vm_socket v) (kern s)) live s t"
proof -
  have "history t = history s @ [(request (crosvm D) [''usb'', ''list'', path_str (vm_socket v)], kern s)]"
    using assms command_history [of D "crosvm D" "[''usb'', ''list'', path_str (vm_socket v)]" s]
    by (auto simp: usb_list_def bindE_Inr_iff pure_Inr_iff)
  then show ?thesis
    using usb_list_Inr [OF assms] by (auto simp: crosvm_listed_def fresh_effects_append)
qed

lemma query_vm_listed:
  assumes "query_vm D v s = (Inr (gen, live), t)"
  shows "crosvm_listed D v gen live s t"
  using assms usb_list_listed by (auto simp: query_vm_def look_bind bindE_Inr_iff pure_Inr_iff)

lemma preflight_listed:
  assumes "preflight_vm D d v s = (Inr pre, t)"
  shows "case pre of
      Some (gen, live) \<Rightarrow> policy_enabled D \<and> \<not> is_hub d \<and> crosvm_listed D v gen live s t
    | None \<Rightarrow> \<not> (policy_enabled D \<and> \<not> is_hub d)"
  using assms query_vm_listed
  by (auto simp: preflight_vm_def look_bind bindE_Inr_iff pure_Inr_iff split: if_splits)

section \<open>The port of a claim\<close>

lemma attach_attempts_given:
  assumes "attach_attempts n D (crosvm D) (vm_socket v) node (map fst l1) u = (Inr p, t)"
    and "crosvm_listed D v g1 l1 s u" and "grown s u"
  shows "port_given D v node p s t"
  using assms
proof (induction n arbitrary: u)
  case (Suc n)
  let ?args = "attach_args node (vm_socket v)"
  obtain out w where cmd: "command D (crosvm D) ?args u = (Inr out, w)"
    and cont: "(case split_whitespace out of
       [] \<Rightarrow> failE (Bail (''unexpected Crosvm USB attach response: '' @ trim out))
     | f # fs \<Rightarrow>
         if f = ''ok'' then
           (case (case fs of [] \<Rightarrow> None | p # _ \<Rightarrow> parse_u8 p) of
              Some p \<Rightarrow> retE p
            | None \<Rightarrow> identify_port D (crosvm D) (vm_socket v) (map fst l1))
         else if f \<noteq> ''no_available_port'' then
           failE (Bail (''unexpected Crosvm USB attach response: '' @ trim out))
         else attach_attempts n D (crosvm D) (vm_socket v) node (map fst l1)) w = (Inr p, t)"
    using Suc.prems(1) by (auto simp: bindE_Inr_iff)
  have h: "history w = history u @ [(request (crosvm D) ?args, kern u)]"
    using cmd command_history [of D "crosvm D" ?args u] by simp
  have uw: "grown u w" and sent: "(request (crosvm D) ?args, kern u) \<in> fresh_effects u w"
    using h by (simp_all add: grown_def fresh_effects_append)
  have sw: "grown s w" by (rule grown_trans [OF Suc.prems(3) uw])
  have listed: "crosvm_listed D v g1 l1 s w"
    by (rule crosvm_listed_grown [OF Suc.prems(2) grown_refl Suc.prems(3) uw])
  from cont obtain f fs where out: "split_whitespace out = f # fs"
    by (auto simp: pure_Inr_iff split: list.splits)
  consider (named) q ws where "f = ''ok''" "fs = q # ws" "parse_u8 q = Some p" "t = w"
    | (unnamed) "f = ''ok''" "identify_port D (crosvm D) (vm_socket v) (map fst l1) w = (Inr p, t)"
    | (again) "attach_attempts n D (crosvm D) (vm_socket v) node (map fst l1) w = (Inr p, t)"
    using cont unfolding out by (auto simp: pure_Inr_iff split: if_splits list.splits option.splits)
  then show ?case
  proof cases
    case named
    then show ?thesis
      using sent command_answer [OF cmd] out grown_effects(2) [OF Suc.prems(3) uw]
      unfolding port_given_def by blast
  next
    case unnamed
    obtain l2 y where l2: "usb_list D (crosvm D) (vm_socket v) w = (Inr l2, y)"
      and pick: "(case filter (\<lambda>q. q \<notin> fst ` set l1) (map fst l2) of
          [q] \<Rightarrow> retE q
        | _ \<Rightarrow> failE (Bail ''Crosvm attached USB but did not identify one new port'')) y = (Inr p, t)"
      using unnamed(2) by (auto simp: identify_port_def bindE_Inr_iff)
    then have one: "filter (\<lambda>q. q \<notin> fst ` set l1) (map fst l2) = [p]" and y: "y = t"
      by (auto simp: pure_Inr_iff split: list.splits)
    note l2 = l2 [unfolded y]
    have wt: "grown w t" by (rule grown_claims(1) [OF l2])
    have "crosvm_listed D v (generation_or_default D (vm_socket v) (kern w)) l2 s t"
      by (rule crosvm_listed_grown [OF usb_list_listed [OF l2] sw wt grown_refl])
    moreover have "crosvm_listed D v g1 l1 s t"
      by (rule crosvm_listed_grown [OF listed grown_refl sw wt])
    moreover have "(request (crosvm D) ?args, kern u) \<in> fresh_effects s t"
      using sent grown_effects(2) [OF Suc.prems(3) uw] grown_effects(1) [OF sw wt] by blast
    ultimately show ?thesis
      using command_answer [OF cmd] out unnamed(1) one unfolding port_given_def by blast
  next
    case again
    then show ?thesis by (rule Suc.IH [OF _ listed sw])
  qed
qed (simp add: failE_def)

text \<open>The port of a claim is the live one of a current binding, or one that Crosvm gave.\<close>

definition rightly_claimed ::
  "'k dm \<Rightarrow> usb_device \<Rightarrow> string \<Rightarrow> vm \<Rightarrow> usb_port_binding option \<Rightarrow> 8 word \<Rightarrow> string \<Rightarrow>
     'k manager \<Rightarrow> 'k manager \<Rightarrow> bool" where
  "rightly_claimed D d node v known p gen s t \<longleftrightarrow>
     (\<exists>live. crosvm_listed D v gen live s t \<and>
        ((\<exists>b. known = Some b \<and> binding_current d (vm_name v) gen b \<and> binding_port b = p \<and>
            live_has live p (vid d) (pid d)) \<or>
         port_given D v node p s t))"

lemma obtain_port_claimed:
  assumes "obtain_port D d node v gen live moved u = (Inr c, t)"
    and "crosvm_listed D v gen live s u" and "grown s u"
  shows "generation c = gen \<and>
    rightly_claimed D d node v (crosvm_usb_ports (persistent u) (sys_name d)) (claimed_port c) gen s t"
proof -
  let ?known = "crosvm_usb_ports (persistent u) (sys_name d)"
  have ut: "grown u t" by (rule grown_claims(6) [OF assms(1)])
  have listed: "crosvm_listed D v gen live s t"
    by (rule crosvm_listed_grown [OF assms(2) grown_refl assms(3) ut])
  consider (reused) b where "?known = Some b" "binding_current d (vm_name v) gen b"
      "live_has live (binding_port b) (vid d) (pid d)" "claimed_port c = binding_port b" "generation c = gen"
    | (attached) "usb_attach D (crosvm D) (vm_socket v) node u = (Inr (claimed_port c), t)" "generation c = gen"
    using assms(1)
    by (auto simp: obtain_port_def bind_pure Let_def bindE_Inr_iff pure_Inr_iff
        split: option.splits if_splits)
  then show ?thesis
  proof cases
    case reused
    then show ?thesis using listed by (auto simp: rightly_claimed_def)
  next
    case attached
    obtain l1 w where l1: "usb_list D (crosvm D) (vm_socket v) u = (Inr l1, w)"
      and tries: "attach_attempts max_attempts D (crosvm D) (vm_socket v) node (map fst l1) w =
        (Inr (claimed_port c), t)"
      using attached(1) by (auto simp: usb_attach_def bindE_Inr_iff)
    have uw: "grown u w" by (rule grown_claims(1) [OF l1])
    have "port_given D v node (claimed_port c) s t"
      by (rule attach_attempts_given [OF tries crosvm_listed_grown [OF usb_list_listed [OF l1] assms(3)
            uw grown_refl] grown_trans [OF assms(3) uw]])
    then show ?thesis using attached(2) listed by (auto simp: rightly_claimed_def)
  qed
qed

text \<open>A claim's answer is that of the preflight, or one asked for after the device was taken off
  the host.\<close>

lemma claim_usb_Some:
  assumes "claim_usb D d node v pre moved s = (Inr (Some c), t)"
  obtains gen live u w where "grown s u" and "grown u w" and "same_memory s w"
    and "case pre of Some p \<Rightarrow> p = (gen, live) | None \<Rightarrow> crosvm_listed D v gen live u w"
    and "obtain_port D d node v gen live moved w = (Inr c, t)"
proof -
  obtain ns x y u gen live w where conf: "configure_device D d s = (Inr (), x)"
    and y: "y = x"
    and rel: "release_interfaces D d ns y = (Inr True, u)"
    and ask: "(case pre of Some p \<Rightarrow> retE p | None \<Rightarrow> query_vm D v) u = (Inr (gen, live), w)"
    and port: "obtain_port D d node v gen live moved w = (Inr c, t)"
    using assms
    by (auto simp: claim_usb_def bindE_Inr_iff pure_Inr_iff ctxE_apply look_result_def
        split: if_splits prod.splits)
  have su: "grown s u" using grown_claims(5) [OF conf] grown_claims(7) [OF rel] y grown_trans by blast
  have uw: "grown u w"
    using ask by (cases pre) (auto simp: pure_Inr_iff dest: grown_claims(2))
  have k: "kernel_only (case pre of Some p \<Rightarrow> retE p | None \<Rightarrow> query_vm D v)"
    by (intro kernel_only_intro)
  have "same_memory y u"
    using triple_InrD [OF release_interfaces_memory same_memory_refl rel] by simp
  then have m: "same_memory s w"
    using kernel_onlyD [OF kernel_only_configure conf] kernel_onlyD [OF k ask] same_memory_trans
    unfolding y by blast
  have "case pre of Some p \<Rightarrow> p = (gen, live) | None \<Rightarrow> crosvm_listed D v gen live u w"
    using ask by (cases pre) (auto simp: pure_Inr_iff dest: query_vm_listed)
  then show thesis by (rule that [OF su uw m _ port])
qed

lemma rightly_claimed_grown:
  assumes "rightly_claimed D d node v known p gen s u" and "grown s u" and "grown u t"
    and "known = None \<or> known = known'"
  shows "rightly_claimed D d node v known' p gen s t"
  using assms(1,4) crosvm_listed_grown [OF _ grown_refl assms(2,3)]
    port_given_grown [OF _ grown_refl assms(2,3)]
  unfolding rightly_claimed_def by blast

lemma made_free_grown: "made_free D d node v s t \<Longrightarrow> grown s t"
  using grown_claims(9) by (auto simp: made_free_def split: if_splits)

text \<open>The claim of an attach that succeeds, seen from the state in which the attach began.\<close>

lemma claimed_in_attach:
  assumes pre: "preflight_vm D d v s = (Inr pre, s0)" and free: "made_free D d node v s0 s1"
    and guard: "usb_authorization_guard D d s1 = (r, s2)"
    and claim: "claim_usb D d node v pre moved s2 = (Inr (Some c), s3)"
  shows "rightly_claimed D d node v (crosvm_usb_ports (persistent s2) (sys_name d))
      (claimed_port c) (generation c) s s3 \<and> grown s s3"
  using claim
proof (cases rule: claim_usb_Some)
  case (1 gen live u w)
  have s0: "grown s s0" by (rule grown_claims(4) [OF pre])
  have s2: "grown s0 s2" by (rule grown_trans [OF made_free_grown [OF free] grown_claims(8) [OF guard]])
  have u: "grown s0 u" by (rule grown_trans [OF s2 1(1)])
  have w: "grown s w" by (rule grown_trans [OF grown_trans [OF s0 u] 1(2)])
  have "crosvm_listed D v gen live s w"
  proof (cases pre)
    case None
    then show ?thesis
      using 1(4) crosvm_listed_grown [OF _ grown_trans [OF s0 u] 1(2) grown_refl] by simp
  next
    case (Some p)
    then have "crosvm_listed D v gen live s s0" using preflight_listed [OF pre] 1(4) by simp
    then show ?thesis
      by (rule crosvm_listed_grown [OF _ grown_refl s0 grown_trans [OF u 1(2)]])
  qed
  from obtain_port_claimed [OF 1(5) this w] show ?thesis
    using same_memory_fields(1) [OF 1(3)] grown_trans [OF w grown_claims(6) [OF 1(5)]] by simp
qed

section \<open>Before an attach command\<close>

text \<open>When a claim issues an attach command, it has the answer to its question by then.\<close>

lemma claim_asked_first:
  assumes "claim_usb D d node v pre moved s = (r, t)"
    and "x \<in> fresh_effects s t" and "is_usb_attach (fst x)"
  obtains gen live u w where "grown s u" and "grown u w" and "quiet s w"
    and "case pre of Some p \<Rightarrow> p = (gen, live) | None \<Rightarrow> crosvm_listed D v gen live u w"
    and "grown w t" and "x \<in> fresh_effects w t"
proof -
  let ?A = "\<lambda>x. \<not> is_usb_attach (fst x)"
  let ?names = "ctxE (''cannot claim '' @ sys_name d) (look_result (interface_names D (usb_root D) (sys_name d)))"
  let ?ask = "case pre of Some p \<Rightarrow> retE p | None \<Rightarrow> query_vm D v"
  let ?port = "\<lambda>(gen, live). bindE (obtain_port D d node v gen live moved) (\<lambda>c. retE (Some c))"
  let ?free = "\<lambda>free. if \<not> free then retE None else bindE ?ask ?port"
  note any = extends_claims emits_basic
  have port: "emits (\<lambda>_. True) (?port p)" for p
    by (intro emits_intro any)
  have ask: "emits (\<lambda>_. True) ?ask" and quiet_ask: "emits ?A ?ask"
    by (intro emits_intro any emits_query_vm; simp)+
  have free: "emits (\<lambda>_. True) (?free b)" for b
    using ask port by (intro emits_intro any)
  have quiet: "emits ?A (configure_device D d)" "emits ?A ?names" "emits ?A (release_interfaces D d ns)" for ns
    by (intro emits_intro emits_configure_device emits_release_interfaces; simp)+
  have rel: "emits (\<lambda>_. True) (bindE (release_interfaces D d ns) ?free)" for ns
    by (rule emits_bind [OF extends_claims(7) free])
  have names: "emits (\<lambda>_. True) (bindE ?names (\<lambda>ns. bindE (release_interfaces D d ns) ?free))"
    by (rule emits_bind [OF emits_mono [OF quiet(2)] rel]) simp
  have x: "x \<in> set (drop (length (history s)) (history t))"
    using assms(2) by (simp add: fresh_effects_def)
  obtain s1 where q1: "quiet s s1" and r1: "bindE ?names (\<lambda>ns. bindE (release_interfaces D d ns) ?free) s1 = (r, t)"
    and x1: "x \<in> set (drop (length (history s1)) (history t))"
    by (rule quiet_stage [OF quiet(1) names assms(1)[unfolded claim_usb_def] x assms(3)])
  obtain ns s2 where q2: "quiet s1 s2" and r2: "bindE (release_interfaces D d ns) ?free s2 = (r, t)"
    and x2: "x \<in> set (drop (length (history s2)) (history t))"
    by (rule quiet_stage [OF quiet(2) rel r1 x1 assms(3)])
  obtain b u where q3: "quiet s2 u" and r3: "?free b u = (r, t)"
    and x3: "x \<in> set (drop (length (history u)) (history t))"
    by (rule quiet_stage [OF quiet(3) free r2 x2 assms(3)])
  have r3': "bindE ?ask ?port u = (r, t)" using r3 x3 by (auto simp: retE_def split: if_splits)
  obtain p w where p: "?ask u = (Inr p, w)" and q4: "quiet u w" and r4: "?port p w = (r, t)"
    and x4: "x \<in> set (drop (length (history w)) (history t))"
    by (rule quiet_stage [OF quiet_ask port r3' x3 assms(3)])
  obtain gen live where gl: "p = (gen, live)" by fastforce
  have qu: "quiet s u" using q1 q2 q3 quiet_trans by blast
  have grown: "grown s' t'" if "quiet s' t'" for s' t' :: "'a manager"
    using that by (auto simp: quiet_def grown_def)
  have "case pre of Some p \<Rightarrow> p = (gen, live) | None \<Rightarrow> crosvm_listed D v gen live u w"
    using p gl by (cases pre) (auto simp: pure_Inr_iff dest: query_vm_listed)
  then show thesis
    by (rule that [OF grown [OF qu] grown [OF q4] quiet_trans [OF qu q4]])
      (use grown_emits [OF port r4] x4 in \<open>simp_all add: fresh_effects_def\<close>)
qed

lemma under_guard_attach:
  assumes "under_guard D d armed (claim_usb D d node v pre moved) (record_attachment D d node v) s = (res, t)"
    and "x \<in> fresh_effects s t" and "is_usb_attach (fst x)"
  obtains r u where "claim_usb D d node v pre moved s = (r, u)" and "x \<in> fresh_effects s u" and "grown u t"
proof -
  obtain r u where claim: "claim_usb D d node v pre moved s = (r, u)" by fastforce
  let ?rest = "case r of
      Inl e \<Rightarrow> bindE (drop_guard D d armed) (\<lambda>_. failE e)
    | Inr None \<Rightarrow> drop_guard D d armed
    | Inr (Some c) \<Rightarrow> record_attachment D d node v c"
  have rest: "?rest u = (res, t)"
    using assms(1) claim by (simp add: under_guard_def bindE_apply tryE_apply)
  have recorded: "emits (\<lambda>x. \<not> is_usb_attach (fst x)) (record_attachment D d node v c)" for c
    unfolding record_attachment_def
    by (intro emits_intro)
      (auto simp: record_port_def forget_pending_def
        dest: state_file_not_attach)
  have "emits (\<lambda>x. \<not> is_usb_attach (fst x)) ?rest"
    by (intro emits_sum emits_option emits_bind emits_drop_guard emits_basic recorded) simp_all
  then obtain n where n: "history t = history u @ n" "list_all (\<lambda>x. \<not> is_usb_attach (fst x)) n"
    using rest by (blast dest: emitsD)
  have "grown s u" by (rule grown_claims(10) [OF claim])
  then have "x \<in> fresh_effects s u"
    using assms(2,3) n by (auto simp: grown_def prefix_def fresh_effects_def list_all_iff)
  then show thesis by (rule that [OF claim]) (use n(1) in \<open>simp add: grown_def\<close>)
qed

end
