(* ===== verification/Usb_Properties.thy ===== *)
theory Usb_Properties
  imports Usb_Claim System_Effects Sample_Host
begin

text \<open>
  The properties of attaching, detaching and resuming USB devices, each with a witness on the
  sample host where it has hypotheses.
\<close>

section \<open>A successful attach\<close>

text \<open>The tables that no attach touches, and the marks and questions with those of one device gone.\<close>

definition same_tables :: "'k manager \<Rightarrow> 'k manager \<Rightarrow> bool" where
  "same_tables s t \<longleftrightarrow>
     pci_vms t = pci_vms s \<and> observed_usb t = observed_usb s \<and> observed_pci t = observed_pci s \<and>
     usb_routing_cache t = usb_routing_cache s \<and> deferred t = deferred s"

definition unmarked :: "string \<Rightarrow> 'k manager \<Rightarrow> 'k manager \<Rightarrow> bool" where
  "unmarked i s t \<longleftrightarrow>
     set (disconnected_devices (persistent t)) = set (disconnected_devices (persistent s)) - {i} \<and>
     set (pending_usb_selection t) = set (pending_usb_selection s) - {i}"

text \<open>From \<open>s\<close> to \<open>t\<close> the device was recorded for the VM; or it was let go by another VM, if one
  held it; and nothing else changed.\<close>

definition recorded_for :: "'k dm \<Rightarrow> usb_device \<Rightarrow> string \<Rightarrow> vm \<Rightarrow> 'k manager \<Rightarrow> 'k manager \<Rightarrow> bool" where
  "recorded_for D d node v s t \<longleftrightarrow>
     usb_vms t = (usb_vms s)(node := Some (vm_name v)) \<and>
     selected_vms (persistent t) =
       (selected_vms (persistent s))(usb_persistent_id d := Some (vm_name v)) \<and>
     unmarked (usb_persistent_id d) s t \<and>
     reported_usb_hubs t = reported_usb_hubs s \<and> same_tables s t \<and>
     (\<exists>p gen.
        crosvm_usb_ports (persistent t) = (crosvm_usb_ports (persistent s))(sys_name d := Some
          \<lparr>binding_vm = vm_name v, binding_port = p, socket_gen = gen,
           binding_vid = vid d, binding_pid = pid d, binding_serial = serial d\<rparr>) \<and>
        rightly_claimed D d node v (crosvm_usb_ports (persistent s) (sys_name d)) p gen s t)"

definition let_go :: "usb_device \<Rightarrow> string \<Rightarrow> vm \<Rightarrow> 'k manager \<Rightarrow> 'k manager \<Rightarrow> bool" where
  "let_go d node v s t \<longleftrightarrow>
     selected_vms (persistent t) = selected_vms (persistent s) \<and> same_tables s t \<and>
     (if usb_vms s node \<in> {None, Some (vm_name v)}
      then usb_vms t = usb_vms s \<and> persistent t = persistent s \<and>
        pending_usb_selection t = pending_usb_selection s
      else usb_vms t = (usb_vms s)(node := None) \<and> unmarked (usb_persistent_id d) s t \<and>
        crosvm_usb_ports (persistent t) = (crosvm_usb_ports (persistent s))(sys_name d := None))"

lemmas memory_after = attached_memory_def detached_memory_def forget_attachment_def
  forget_pending_def record_port_def remember_vm_def mark_disconnected_def Let_def

lemma recorded_memory:
  assumes "same_memory (attached_memory d node (vm_name v) c r) t"
    and "r = s \<or> r = detached_memory d node False s"
    and "rightly_claimed D d node v (crosvm_usb_ports (persistent s) (sys_name d))
      (claimed_port c) (generation c) s t"
  shows "recorded_for D d node v s t"
  unfolding recorded_for_def unmarked_def same_tables_def same_memory_fields [OF assms(1)]
  using assms(2,3)
  by (intro conjI exI [of _ "claimed_port c"] exI [of _ "generation c"])
    (auto simp: memory_after)

lemma hub_memory:
  assumes "hub_reported d r t"
    and "if usb_vms s node \<in> {None, Some (vm_name v)} then r = s else r = detached_memory d node False s"
  shows "let_go d node v s t \<and>
    set (reported_usb_hubs t) = insert (usb_persistent_id d) (set (reported_usb_hubs s))"
proof -
  have m: "same_memory (r\<lparr>reported_usb_hubs := reported_usb_hubs t\<rparr>) t"
    using assms(1) by (simp add: hub_reported_def)
  show ?thesis
    using assms same_memory_fields [OF m]
    by (auto simp: hub_reported_def let_go_def unmarked_def same_tables_def memory_after
        split: if_splits)
qed

text \<open>C16: when \<open>attach_one_usb\<close> has chosen a VM and reports success, that VM is one the rule
  allows, and one of two things has happened. Either the device is recorded for it: held under
  its node, remembered as the choice, no longer marked disconnected or waiting for a choice, and
  with a port binding that names the VM, carries the device's identifiers and the generation the
  VM's socket had when its Crosvm listed its devices in this attach, and the port is the live one
  of the binding recorded before or one that this Crosvm gave to the device's node. Or the device
  was recognised as a hub and reported as one, and another VM that held it has let it go. Nothing
  else in the memory changes: no other device's holder, choice, mark, question or binding, nor any
  other table.\<close>

theorem attach_recorded:
  assumes "attach_one_usb D d r requested s = (Inr (), t)"
    and "choose_vm r requested (persistent s) (usb_persistent_id d) = Some name"
  shows "\<exists>node v. device_node d = Some node \<and> v \<in> set (vms (cfg D)) \<and> vm_name v = name \<and>
     name \<in> set (allowed_vms r) \<and>
     (recorded_for D d node v s t \<or>
      let_go d node v s t \<and>
      set (reported_usb_hubs t) = insert (usb_persistent_id d) (set (reported_usb_hubs s)))"
proof -
  obtain v where v: "v \<in> set (vms (cfg D))" "vm_name v = name" "name \<in> set (allowed_vms r)"
    and att: "attach_to_vm D d v s = (Inr (), t)"
    using assms by (auto simp: attach_one_usb_def bind_pure bindE_Inr_iff pure_Inr_iff
        dest: find_vm_Inr split: if_splits)
  from att show ?thesis
  proof (cases rule: attach_to_vm_stages)
    case (1 node pre s0 s1 armed s2 co s3)
    obtain m where m: "if usb_vms s node \<in> {None, Some (vm_name v)} then m = s
        else m = detached_memory d node False s"
      and "same_memory m s1"
      using made_free_memory [OF 1(1,3) kernel_onlyD [OF kernel_only_preflight 1(2)]]
      by (auto split: if_splits)
    then have m2: "same_memory m s2"
      using kernel_onlyD [OF kernel_only_guard(2) 1(4)] same_memory_trans by blast
    have s3: "if co = None then hub_reported d m s3 else same_memory m s3"
      by (rule triple_InrD [OF claim_usb_memory m2 1(5)])
    show ?thesis
    proof (cases co)
      case None
      have "same_memory s3 t" using 1(6) None kernel_onlyD [OF kernel_only_guard(1)] by simp
      then have "hub_reported d m t" using s3 None hub_reported_same_memory by simp
      from hub_memory [OF this m] show ?thesis using v 1(1) by blast
    next
      case (Some c)
      then have rec: "record_attachment D d node v c s3 = (Inr (), t)" using 1(6) by simp
      have rt: "same_memory (attached_memory d node (vm_name v) c m) t"
        using triple_InrD [OF record_attachment_memory _ rec] s3 Some by simp
      have either: "m = s \<or> m = detached_memory d node False s" using m by metis
      then have known: "crosvm_usb_ports (persistent s2) (sys_name d) = None \<or>
          crosvm_usb_ports (persistent s2) (sys_name d) = crosvm_usb_ports (persistent s) (sys_name d)"
        unfolding same_memory_fields(1) [OF m2]
        by (elim disjE) (simp_all add: detached_memory_def forget_attachment_def forget_pending_def Let_def)
      have "rightly_claimed D d node v (crosvm_usb_ports (persistent s) (sys_name d))
          (claimed_port c) (generation c) s t"
        using claimed_in_attach [OF 1(2-4) 1(5) [unfolded Some]]
        by (elim conjE, intro rightly_claimed_grown [OF _ _ grown_claims(11) [OF rec] known])
      then have "recorded_for D d node v s t" by (rule recorded_memory [OF rt either])
      then show ?thesis using v 1(1) by blast
    qed
  qed
qed

definition attach_keyboard :: "unit result \<times> disk manager" where
  "attach_keyboard =
     attach_one_usb (sample_dm sample_config) keyboard keyboard_match None
       (sample_manager sample_config [reply ''devices'', reply ''devices'', reply ''ok 3''])"

lemma attach_keyboard_ok: "fst attach_keyboard = Inr ()"
  by code_simp

lemma attach_recorded_witness:
  "\<exists>v. vm_name v = ''gui'' \<and> recorded_for (sample_dm sample_config) keyboard ''n'' v
     (sample_manager sample_config [reply ''devices'', reply ''devices'', reply ''ok 3'']) (snd attach_keyboard)"
proof -
  let ?s = "sample_manager sample_config [reply ''devices'', reply ''devices'', reply ''ok 3'']"
  have chosen: "choose_vm keyboard_match None (persistent ?s) (usb_persistent_id keyboard) = Some ''gui''"
    by code_simp
  have run: "attach_one_usb (sample_dm sample_config) keyboard keyboard_match None ?s = (Inr (), snd attach_keyboard)"
    using attach_keyboard_ok unfolding attach_keyboard_def by (simp add: prod_eq_iff)
  have hubs: "reported_usb_hubs (snd attach_keyboard) = []" by code_simp
  have node: "device_node keyboard = Some ''n''" by (simp add: keyboard_def)
  show ?thesis using attach_recorded [OF run chosen] hubs node by auto
qed

section \<open>A failed attach\<close>

text \<open>C17: the authorization is rolled back. When the manager authorized the device itself
  (the guard is armed), be it held by nobody, by this VM or taken from another one before, and the
  attach then fails to claim it, or skips it as a hub, the next and last thing it does is to write
  \<open>0\<close> to the device's authorization attribute, unless the attribute is gone; the failure is passed
  on, and only a skip counts as success; what the memory says does not change any more.\<close>

theorem attach_rolls_back:
  assumes "preflight_vm D d v s = (Inr pre, s0)" and "device_node d = Some node"
    and "made_free D d node v s0 s1" and "usb_authorization_guard D d s1 = (Inr True, s2)"
    and "claim_usb D d node v pre (usb_vms s0 node \<noteq> Some (vm_name v)) s2 = (c, s3)"
    and "\<And>x. c \<noteq> Inr (Some x)"
  shows "\<exists>t. attach_to_vm D d v s = (case c of Inl e \<Rightarrow> Inl e | Inr _ \<Rightarrow> Inr (), t) \<and>
     same_memory s3 t \<and>
     (history t = history s3 @ [(Write (auth_path D d) ''0'', kern s3)] \<or>
      \<not> path_exists D (auth_path D d) (kern s3) \<and> t = s3)"
proof -
  obtain t where drop: "drop_guard D d True s3 = (Inr (), t)"
    by (simp add: drop_guard_def ignoreE_def)
  have free: "(if usb_vms s0 node \<noteq> None \<and> usb_vms s0 node \<noteq> Some (vm_name v)
      then detach_one_usb D d False else retE ()) s0 = (Inr (), s1)"
    using assms(3) by (auto simp: made_free_def retE_def split: if_splits)
  have "attach_to_vm D d v s = under_guard D d True
      (claim_usb D d node v pre (usb_vms s0 node \<noteq> Some (vm_name v)))
      (record_attachment D d node v) s2"
    unfolding attach_to_vm_def bindE_apply [of "preflight_vm D d v"] assms(1,2) prod.case sum.case
      option.case bind_pure bindE_apply [where s = s0] free bindE_apply [where s = s1] assms(4) ..
  also have "\<dots> = (case c of Inl e \<Rightarrow> Inl e | Inr _ \<Rightarrow> Inr (), t)"
    using assms(5,6) drop
    by (cases c) (auto simp: under_guard_def bindE_apply tryE_def failE_def split: option.splits)
  finally have att: "attach_to_vm D d v s = (case c of Inl e \<Rightarrow> Inl e | Inr _ \<Rightarrow> Inr (), t)" .
  have mem: "same_memory s3 t" using kernel_onlyD [OF kernel_only_guard(1) drop] .
  have "history t = history s3 @ [(Write (auth_path D d) ''0'', kern s3)] \<or>
      \<not> path_exists D (auth_path D d) (kern s3) \<and> t = s3"
    using drop authorize_history [where E = D and devs = "usb_root D" and n = "sys_name d"
        and v = False and s = s3]
    by (auto simp: drop_guard_def ignoreE_def auth_path_def flag_def)
  then show ?thesis using att mem by blast
qed

text \<open>The keyboard is taken from the network VM, on a host whose policy governs it, and authorized
  again for the graphics VM, whose Crosvm then stops answering.\<close>

definition failing_manager :: "disk manager" where
  "failing_manager =
     (sample_manager authorizing_config [reply ''devices'', reply ''devices 7 a b'', reply ''ok''])
       \<lparr>usb_vms := (\<lambda>n. if n = ''n'' then Some ''net'' else None)\<rparr>"

definition failing_preflight :: "(string \<times> usb_entry list) option result \<times> disk manager" where
  "failing_preflight = preflight_vm (sample_dm authorizing_config) keyboard gui_vm failing_manager"

definition failing_detach :: "unit result \<times> disk manager" where
  "failing_detach = detach_one_usb (sample_dm authorizing_config) keyboard False (snd failing_preflight)"

definition failing_guard :: "bool result \<times> disk manager" where
  "failing_guard =
     usb_authorization_guard (sample_dm authorizing_config) keyboard (snd failing_detach)"

definition failing_claim :: "claim option result \<times> disk manager" where
  "failing_claim =
     claim_usb (sample_dm authorizing_config) keyboard ''n'' gui_vm
       (ok_value (fst failing_preflight)) (usb_vms (snd failing_preflight) ''n'' \<noteq> Some ''gui'')
       (snd failing_guard)"

lemma attach_rolls_back_witness:
  "\<exists>e t. attach_to_vm (sample_dm authorizing_config) keyboard gui_vm failing_manager = (Inl e, t) \<and>
     usb_vms failing_manager ''n'' = Some ''net'' \<and>
     history t = history (snd failing_claim) @
       [(Write (auth_path (sample_dm authorizing_config) keyboard) ''0'', kern (snd failing_claim))]"
proof -
  have ok: "is_ok (fst failing_preflight)" "is_ok (fst failing_detach)" "fst failing_guard = Inr True"
    "\<not> is_ok (fst failing_claim)" "usb_vms (snd failing_preflight) ''n'' = Some ''net''"
    "path_exists (sample_dm authorizing_config) (auth_path (sample_dm authorizing_config) keyboard)
       (kern (snd failing_claim))"
    by code_simp+
  obtain e where e: "fst failing_claim = Inl e" using not_is_okD [OF ok(4)] by blast
  let ?D = "sample_dm authorizing_config"
  have pre: "preflight_vm ?D keyboard gui_vm failing_manager =
      (Inr (ok_value (fst failing_preflight)), snd failing_preflight)"
    unfolding failing_preflight_def [symmetric] by (rule is_okD [OF ok(1)])
  have name: "vm_name gui_vm = ''gui''" by (simp add: gui_vm_def)
  have "detach_one_usb ?D keyboard False (snd failing_preflight) = (Inr (), snd failing_detach)"
    using ok(2) unfolding failing_detach_def [symmetric] by (simp add: prod_eq_iff is_ok_unit)
  then have free: "made_free ?D keyboard ''n'' gui_vm (snd failing_preflight) (snd failing_detach)"
    using ok(5) by (simp add: made_free_def name)
  have guard: "usb_authorization_guard ?D keyboard (snd failing_detach) =
      (Inr True, snd failing_guard)"
    unfolding failing_guard_def [symmetric] using ok(3) by (simp add: prod_eq_iff)
  have claim: "claim_usb ?D keyboard ''n'' gui_vm (ok_value (fst failing_preflight))
      (usb_vms (snd failing_preflight) ''n'' \<noteq> Some (vm_name gui_vm)) (snd failing_guard) =
      (Inl e, snd failing_claim)"
    using e unfolding failing_claim_def by (simp add: prod_eq_iff name)
  have node: "device_node keyboard = Some ''n''" by (simp add: keyboard_def)
  have held: "usb_vms failing_manager ''n'' = Some ''net''" by (simp add: failing_manager_def)
  show ?thesis
    using attach_rolls_back [OF pre node free guard claim] ok(6) held by auto
qed

section \<open>Detaching\<close>

lemma detach_forgets:
  assumes "device_node d = Some node" and "detach_one_usb D d permanent s = (Inr (), t)"
  shows "usb_vms t node = None"
  using triple_InrD [OF detach_one_usb_memory [OF assms(1)] same_memory_refl assms(2)]
  by (simp add: same_memory_fields detached_memory_def Let_def forget_attachment_def forget_pending_def)

text \<open>Ask the VM that holds the device, or the one its port is recorded for, to let it go.\<close>

definition ask_holder :: "'k dm \<Rightarrow> usb_device \<Rightarrow> string \<Rightarrow> ('k, unit) manager_op" where
  "ask_holder D d node s =
     (case or_else (usb_vms s node)
             (map_option binding_vm (crosvm_usb_ports (persistent s) (sys_name d))) of
        None \<Rightarrow> (Inr (), s)
      | Some name \<Rightarrow>
          detach_from_vm D d node name (crosvm_usb_ports (persistent s) (sys_name d)) s)"

definition forgotten :: "usb_device \<Rightarrow> string \<Rightarrow> bool \<Rightarrow> 'k manager \<Rightarrow> 'k manager \<Rightarrow> bool" where
  "forgotten d node permanent s t \<longleftrightarrow>
     usb_vms t = (usb_vms s)(node := None) \<and>
     crosvm_usb_ports (persistent t) = (crosvm_usb_ports (persistent s))(sys_name d := None) \<and>
     selected_vms (persistent t) = selected_vms (persistent s) \<and>
     (\<forall>i. disconnected (persistent t) i \<longleftrightarrow>
        (if i = usb_persistent_id d then permanent else disconnected (persistent s) i)) \<and>
     (\<forall>i. i \<in> set (pending_usb_selection t) \<longleftrightarrow>
        i \<noteq> usb_persistent_id d \<and> i \<in> set (pending_usb_selection s)) \<and>
     reported_usb_hubs t = reported_usb_hubs s \<and> same_tables s t"

lemma forgotten_memory:
  assumes "same_memory (detached_memory d node permanent s) t"
  shows "forgotten d node permanent s t"
proof -
  note f = same_memory_fields [OF assms]
  have "disconnected (persistent t) i \<longleftrightarrow>
      (if i = usb_persistent_id d then permanent else disconnected (persistent s) i)" for i
    by (simp add: f detached_memory_def Let_def forget_attachment_def forget_pending_def disc.lookup_put)
  then show ?thesis
    unfolding forgotten_def same_tables_def
    by (auto simp: f detached_memory_def Let_def forget_attachment_def forget_pending_def)
qed

lemma deauthorize_detached_ok: "fst (deauthorize_detached D d s) = Inr ()"
  by (simp add: deauthorize_detached_def look_bind retE_def ignoreE_def)

text \<open>C19: a detach is all or nothing in memory. It first asks the holder's Crosvm to let the
  device go. When that fails, the detach stops there with this failure, and the memory is exactly
  as before. When it succeeds, or there is nobody to ask, the device is forgotten: the node is held
  by nobody, the port binding is gone, the mark says whether the detach was a lasting one, the
  question is withdrawn, and no other holder, binding, mark, question or table changed; the result
  is then that of saving the changed state, and the device is forgotten even when that fails.\<close>

theorem detach_all_or_nothing:
  assumes "device_node d = Some node" and "detach_one_usb D d permanent s = (res, t)"
  shows "case ask_holder D d node s of
      (Inl e, u) \<Rightarrow> res = Inl e \<and> t = u \<and> same_memory s t
    | (Inr _, u) \<Rightarrow> forgotten d node permanent s t \<and>
        res = fst (bindE (set_disconnected D (usb_persistent_id d) permanent) (\<lambda>_. save D)
          (forget_attachment node (sys_name d) u))"
proof -
  let ?i = "usb_persistent_id d"
  let ?save = "bindE (set_disconnected D ?i permanent) (\<lambda>_. save D)"
  obtain q u where ask: "ask_holder D d node s = (q, u)" by fastforce
  have run: "detach_one_usb D d permanent s = (case q of
      Inl e \<Rightarrow> (Inl e, u)
    | Inr _ \<Rightarrow> bindE (tryE ?save) (\<lambda>persistence.
          bindE (modE (forget_pending ?i)) (\<lambda>_.
          bindE (deauthorize_detached D d) (\<lambda>_. liftE persistence)))
        (forget_attachment node (sys_name d) u))"
  proof -
    let ?known = "crosvm_usb_ports (persistent s) (sys_name d)"
    let ?ask = "case or_else (usb_vms s node) (map_option binding_vm ?known) of
        None \<Rightarrow> retE () | Some name \<Rightarrow> detach_from_vm D d node name ?known"
    have "?ask s = (q, u)" using ask by (simp add: ask_holder_def retE_def split: option.splits)
    moreover have "detach_one_usb D d permanent s = bindE ?ask (\<lambda>_.
          bindE (modE (forget_attachment node (sys_name d))) (\<lambda>_.
          bindE (tryE ?save) (\<lambda>persistence.
          bindE (modE (forget_pending ?i)) (\<lambda>_.
          bindE (deauthorize_detached D d) (\<lambda>_. liftE persistence))))) s"
      by (simp add: detach_one_usb_def assms(1) bind_pure)
    ultimately show ?thesis by (cases q) (simp_all add: bindE_apply [of ?ask] bind_pure)
  qed
  have m: "same_memory s u"
    using ask kernel_onlyD [OF kernel_only_detach_from_vm]
    by (auto simp: ask_holder_def split: option.splits)
  show ?thesis
  proof (cases q)
    case (Inl e)
    then show ?thesis using run assms(2) ask m by simp
  next
    case (Inr x)
    let ?r = "forget_attachment node (sys_name d) s"
    let ?m = "?r\<lparr>persistent := mark_disconnected ?i permanent (persistent ?r)\<rparr>"
    obtain b w where saved: "?save (forget_attachment node (sys_name d) u) = (b, w)" by fastforce
    obtain y where last: "deauthorize_detached D d (forget_pending ?i w) = (Inr (), y)"
      using deauthorize_detached_ok [of D d "forget_pending ?i w"] by (metis prod.collapse)
    have t: "t = y" "res = b"
      using assms(2) run Inr saved last by (simp_all add: op_simps)
    have tri: "triple (same_memory ?r) ?save (\<lambda>_. same_memory ?m) (\<lambda>_. same_memory ?m)"
      by (intro triple_bind [OF triple_set_disconnected] frames_kernel_only kernel_only_save)
    have "same_memory ?m w"
      using triple_InrD [OF tri same_memory_maps(3) [OF m], of _ w]
        triple_InlD [OF tri same_memory_maps(3) [OF m], of _ w] saved by (cases b) simp_all
    then have "same_memory (detached_memory d node permanent s) (forget_pending ?i w)"
      unfolding detached_memory_def Let_def by (rule same_memory_maps(1))
    then have "same_memory (detached_memory d node permanent s) t"
      using kernel_onlyD [OF kernel_only_deauthorize last] same_memory_trans unfolding t by blast
    then show ?thesis using ask Inr saved t(2) by (simp add: forgotten_memory)
  qed
qed

lemma detach_all_or_nothing_witness:
  "fst (detach_one_usb (sample_dm sample_config) keyboard True (sample_manager sample_config [])) = Inr () \<and>
   disconnected (persistent (snd (detach_one_usb (sample_dm sample_config) keyboard True
     (sample_manager sample_config [])))) (usb_persistent_id keyboard)"
proof -
  let ?s = "sample_manager sample_config []"
  let ?x = "detach_one_usb (sample_dm sample_config) keyboard True ?s"
  have ok: "is_ok (fst ?x)" and asked: "is_ok (fst (ask_holder (sample_dm sample_config) keyboard ''n'' ?s))"
    by code_simp+
  have node: "device_node keyboard = Some ''n''" by (simp add: keyboard_def)
  have "forgotten keyboard ''n'' True ?s (snd ?x)"
    using detach_all_or_nothing [OF node surjective_pairing [of ?x]] asked
    by (auto simp: is_ok_unit split: prod.splits)
  then show ?thesis using ok by (simp add: forgotten_def is_ok_unit)
qed

text \<open>A port on which some configured VM's Crosvm, asked in kernel state \<open>k\<close>, lists \<open>d\<close>, and the
  effects among which a detach command is for such a port.\<close>

definition own_port :: "'k dm \<Rightarrow> usb_device \<Rightarrow> 'k \<Rightarrow> 8 word \<Rightarrow> path \<Rightarrow> bool" where
  "own_port D d k p so \<longleftrightarrow>
     (\<exists>v out live. v \<in> set (vms (cfg D)) \<and> path_str (vm_socket v) = path_str so \<and>
        answer D (crosvm D) [''usb'', ''list'', path_str so] k = Some out \<and>
        parse_usb_list out = Inr live \<and> live_has live p (vid d) (pid d))"

definition own_detach :: "'k dm \<Rightarrow> usb_device \<Rightarrow> 'k \<Rightarrow> effect \<times> 'k \<Rightarrow> bool" where
  "own_detach D d k x \<longleftrightarrow>
     (\<forall>p so. fst x = request (crosvm D) (detach_args p so) \<longrightarrow> own_port D d k p so)"

lemma own_detach_other:
  "state_file_effect (cfg D) e \<Longrightarrow> own_detach D d k (e, k')"
  "own_detach D d k (Notify n, k')" "own_detach D d k (Write q w, k')"
  "own_detach D d k (request (crosvm D) [''usb'', ''list'', path_str sk], k')"
  by (auto simp: own_detach_def request_def detach_args_def)

lemma own_port_detach: "own_port D d k p so \<Longrightarrow> emits_at (own_detach D d k) (usb_detach D (crosvm D) so p) s"
  by (intro emits_at_emits emits_intro) (auto simp: own_detach_def own_port_def)

lemma own_listed:
  assumes "v \<in> set (vms (cfg D))"
    and g: "\<And>live s1. (\<And>p. live_has live p (vid d) (pid d) \<Longrightarrow> own_port D d (kern s) p (vm_socket v)) \<Longrightarrow>
      emits_at (own_detach D d (kern s)) (g live) s1"
  shows "emits_at (own_detach D d (kern s)) (bindE (usb_list D (crosvm D) (vm_socket v)) g) s"
proof (rule emits_at_bind)
  show "emits_at (own_detach D d (kern s)) (usb_list D (crosvm D) (vm_socket v)) s"
    by (intro emits_at_emits emits_intro own_detach_other)
  fix live s1
  assume "usb_list D (crosvm D) (vm_socket v) s = (Inr live, s1)"
  then show "emits_at (own_detach D d (kern s)) (g live) s1"
    using usb_list_Inr assms(1) by (intro g) (fastforce simp: own_port_def)
qed

lemma own_by_binding:
  assumes "v \<in> set (vms (cfg D))"
  shows "emits_at (own_detach D d (kern s)) (detach_by_binding D d (vm_socket v) b) s"
  unfolding detach_by_binding_def
proof (rule own_listed [OF assms])
  fix live s1
  assume ok: "\<And>p. live_has live p (vid d) (pid d) \<Longrightarrow> own_port D d (kern s) p (vm_socket v)"
  have "own_port D d (kern s) (binding_port b) (vm_socket v)"
    if "List.find (\<lambda>item. fst item = binding_port b) live = Some (q, x, y)"
      and "Some x = vid d" "Some y = pid d" for q x y
  proof -
    have "(q, x, y) \<in> set live" and "q = binding_port b"
      using find_Some_split [OF that(1)] by auto
    then show ?thesis using that(2,3) by (intro ok) (metis live_has_iff)
  qed
  then show "emits_at (own_detach D d (kern s))
      (case List.find (\<lambda>item. fst item = binding_port b) live of
         None \<Rightarrow> retE ()
       | Some (q, x, y) \<Rightarrow>
           if Some x \<noteq> vid d \<or> Some y \<noteq> pid d then
             failE (Bail ''Crosvm USB port contains a different device; refusing to detach'')
           else usb_detach D (crosvm D) (vm_socket v) (binding_port b)) s1"
    by (auto intro: own_port_detach emits_at_emits emits_basic split: option.split)
qed

lemma own_by_identity:
  assumes "v \<in> set (vms (cfg D))"
  shows "emits_at (own_detach D d (kern s)) (detach_by_identity D d (vm_socket v)) s"
  unfolding detach_by_identity_def
proof (rule own_listed [OF assms])
  fix live s1
  assume ok: "\<And>p. live_has live p (vid d) (pid d) \<Longrightarrow> own_port D d (kern s) p (vm_socket v)"
  let ?m = "filter (\<lambda>(_, x, y). Some x = vid d \<and> Some y = pid d) live"
  have "own_port D d (kern s) (fst item) (vm_socket v)" if "?m = [item]" for item
  proof -
    have "item \<in> set ?m" using that by simp
    then have "live_has live (fst item) (vid d) (pid d)"
      unfolding live_has_def list_ex_iff by (intro bexI [of _ item]) auto
    then show ?thesis by (rule ok)
  qed
  then show "emits_at (own_detach D d (kern s))
      (case ?m of
         [] \<Rightarrow> retE ()
       | [item] \<Rightarrow> usb_detach D (crosvm D) (vm_socket v) (fst item)
       | _ \<Rightarrow> failE (Bail
           ''multiple matching USB devices are attached; refusing an ambiguous detach'')) s1"
    by (auto intro: own_port_detach emits_at_emits emits_basic split: list.split)
qed

lemma own_from_vm:
  "emits_at (own_detach D d (kern s)) (detach_from_vm D d node name binding) s"
  unfolding detach_from_vm_def
proof (rule emits_at_bind)
  fix v s1 assume "liftE (find_vm (cfg D) name) s = (Inr v, s1)"
  then have v: "v \<in> set (vms (cfg D))" and s1: "s1 = s"
    by (auto simp: pure_Inr_iff dest: find_vm_Inr)
  show "emits_at (own_detach D d (kern s)) (bindE (look (\<lambda>k. (path_exists D (vm_socket v) k,
       generation_or_default D (vm_socket v) k))) (\<lambda>(present, generation).
     bindE (if \<not> present then retE ()
            else case binding of
                   None \<Rightarrow> detach_by_identity D d (vm_socket v)
                 | Some b \<Rightarrow>
                     if socket_gen b = generation then detach_by_binding D d (vm_socket v) b
                     else detach_by_identity D d (vm_socket v)) (\<lambda>_.
     notify (UsbDetached node name)))) s1"
    unfolding s1 emits_at_pure prod.case
    by (rule emits_at_bind)
      (auto intro: own_by_identity [OF v] own_by_binding [OF v] emits_at_emits emits_basic
        emits_notify_op own_detach_other split: option.split)
qed (rule emits_at_emits [OF emits_basic(3)])

lemma own_detach_one:
  "emits_at (own_detach D d (kern s)) (detach_one_usb D d permanent) s"
proof (cases "device_node d")
  case None
  then show ?thesis by (simp add: detach_one_usb_def emits_at_emits emits_basic)
next
  case (Some node)
  have rest: "emits (own_detach D d (kern s)) (bindE (modE (forget_attachment node (sys_name d))) (\<lambda>_.
          bindE (tryE (bindE (set_disconnected D (usb_persistent_id d) permanent)
                   (\<lambda>_. save D))) (\<lambda>persistence.
          bindE (modE (forget_pending (usb_persistent_id d))) (\<lambda>_.
          bindE (deauthorize_detached D d) (\<lambda>_.
          liftE persistence)))))"
    unfolding deauthorize_detached_def
    by (intro emits_intro own_detach_other) (simp_all add: forget_attachment_def forget_pending_def)
  show ?thesis
    unfolding detach_one_usb_def Some option.case emits_at_pure prod.case
    by (rule emits_at_bind [OF _ emits_at_emits [OF rest]])
      (auto intro: own_from_vm emits_at_emits emits_basic split: option.split)
qed

text \<open>C18: a detach command never hits another device. Every port that \<open>detach_one_usb\<close> asks a
  Crosvm to detach is one on which that Crosvm, asked just before, listed exactly the vendor and
  product identifiers of the device.\<close>

theorem detach_only_own_port:
  assumes "detach_one_usb D d permanent s = (res, t)"
    and "(request (crosvm D) (detach_args p so), k) \<in> set (drop (length (history s)) (history t))"
  shows "\<exists>v out live. v \<in> set (vms (cfg D)) \<and> path_str (vm_socket v) = path_str so \<and>
     answer D (crosvm D) [''usb'', ''list'', path_str so] (kern s) = Some out \<and>
     parse_usb_list out = Inr live \<and> live_has live p (vid d) (pid d)"
  using emits_atD [OF own_detach_one assms] by (simp add: own_detach_def own_port_def)

text \<open>The keyboard held by the graphics VM, whose Crosvm lists it on port 3.\<close>

definition holding_manager :: "outcome list \<Rightarrow> disk manager" where
  "holding_manager replies =
     (sample_manager sample_config replies)\<lparr>usb_vms := (\<lambda>n. if n = ''n'' then Some ''gui'' else None)\<rparr>"

lemma detach_only_own_port_witness:
  "\<exists>out live. answer (sample_dm sample_config) [''crosvm''] [''usb'', ''list'', ''gui.sock'']
      (kern (holding_manager [reply ''devices 3 a b'', reply ''ok''])) = Some out \<and>
     parse_usb_list out = Inr live \<and> live_has live 3 (Some ''a'') (Some ''b'')"
proof -
  let ?s = "holding_manager [reply ''devices 3 a b'', reply ''ok'']"
  let ?x = "detach_one_usb (sample_dm sample_config) keyboard True ?s"
  have len: "1 < length (history (snd ?x))" and
    sent: "fst (history (snd ?x) ! 1) = request [''crosvm''] (detach_args 3 [''gui.sock''])"
    by code_simp+
  obtain k where k: "(request [''crosvm''] (detach_args 3 [''gui.sock'']), k) \<in> set (history (snd ?x))"
    using issued_at [OF len sent] by (elim exE)
  have D: "crosvm (sample_dm sample_config) = [''crosvm'']" "history ?s = []"
    "path_str [''gui.sock''] = ''gui.sock''" "vid keyboard = Some ''a''" "pid keyboard = Some ''b''"
    by (simp_all add: crosvm_def sample_dm_def sample_config_def default_config_def
        holding_manager_def path_str_def keyboard_def)
  have m: "(request (crosvm (sample_dm sample_config)) (detach_args 3 [''gui.sock'']), k)
      \<in> set (drop (length (history ?s)) (history (snd ?x)))"
    unfolding D(1,2) list.size drop_0 by (rule k)
  show ?thesis
    using detach_only_own_port [OF surjective_pairing m] unfolding D by blast
qed

section \<open>Resuming\<close>

lemma marked_keeps_persistence:
  assumes "j \<noteq> i"
  shows "keeps (marked i) (set_disconnected D j v)" and "keeps (marked i) (select_vm D j name)"
  unfolding set_disconnected_def select_vm_def
  by (intro keeps_bind keeps_mod keeps_kernel_only [OF marked_memory kernel_only_save];
      use assms in \<open>simp add: marked_def disc.lookup_put_other\<close>)+

lemma marked_keeps_detach:
  assumes "usb_persistent_id d \<noteq> i"
  shows "keeps (marked i) (detach_one_usb D d permanent)"
  unfolding detach_one_usb_def
  by (intro keeps_intro keeps_mod marked_keeps_persistence [OF assms]
      keeps_kernel_only [OF marked_memory] kernel_only_intro)
    (simp_all add: marked_def forget_attachment_def forget_pending_def)

lemma marked_keeps_attach:
  assumes "usb_persistent_id d \<noteq> i"
  shows "keeps (marked i) (attach_one_usb D d r requested)"
proof -
  note kernel = keeps_kernel_only [OF marked_memory]
  have hub: "keeps (marked i) (release_interfaces D d is)" for "is"
  proof (induction "is")
    case (Cons j "is")
    have "keeps (marked i) (report_hub k)" for k
      unfolding report_hub_def by (rule keeps_mod) (simp add: marked_def)
    then show ?case
      unfolding release_interfaces.simps
      by (intro keeps_bind keeps_if keeps_basic Cons.IH) (auto intro: kernel kernel_only_intro)
  qed (simp add: keeps_basic)
  have claim: "keeps (marked i) (claim_usb D d node v pre moved)" for node v pre moved
    unfolding claim_usb_def
    by (intro keeps_bind keeps_if keeps_option keeps_prod keeps_basic hub)
      (intro kernel kernel_only_intro)+
  have rec: "keeps (marked i) (record_attachment D d node v c)" for node v c
    unfolding record_attachment_def
    by (intro keeps_bind keeps_option keeps_if keeps_basic keeps_mod
        marked_keeps_persistence [OF assms] kernel kernel_only_intro)
      (simp_all add: marked_def record_port_def forget_pending_def)
  have "keeps (marked i) (attach_to_vm D d v)" for v
    unfolding attach_to_vm_def under_guard_def
    by (intro keeps_intro marked_keeps_detach [OF assms] claim rec kernel kernel_only_intro)
  then show ?thesis
    unfolding attach_one_usb_def ask_selection_def
    by (intro keeps_bind keeps_option keeps_if keeps_basic keeps_mod)
      (auto intro: kernel kernel_only_intro simp: marked_def)
qed

definition resumable ::
  "'k dm \<Rightarrow> string \<Rightarrow> 'k \<Rightarrow> effect \<Rightarrow> bool" where
  "resumable D i k e \<longleftrightarrow>
     (\<exists>ds d r v node. usb_devices D k = Inr ds \<and> (d, r) \<in> set ds \<and> usb_persistent_id d \<noteq> i \<and>
        v \<in> set (vms (cfg D)) \<and> vm_name v \<in> set (allowed_vms r) \<and> device_node d = Some node \<and>
        e = request (crosvm D) (attach_args node (vm_socket v)))"

lemma permitted_attach_command:
  assumes "permitted_attach D d r e" and "is_usb_attach e"
  shows "\<exists>v node. v \<in> set (vms (cfg D)) \<and> vm_name v \<in> set (allowed_vms r) \<and>
     device_node d = Some node \<and> e = request (crosvm D) (attach_args node (vm_socket v))"
  using assms bookkeeping_not_attach by (fastforce simp: permitted_attach_def attach_effect_def)

lemma emits_resume_one:
  assumes "usb_devices D k = Inr ds" and "(d, r) \<in> set ds" and "marked i s"
  shows "emits_at (\<lambda>x. is_usb_attach (fst x) \<longrightarrow> resumable D i k (fst x))
      (resume_one_usb D wanted d r) s \<and> marked i (snd (resume_one_usb D wanted d r s))"
proof (cases "usb_persistent_id d = i")
  case True
  then have "resume_one_usb D wanted d r s = (Inr (), s)"
    using assms(3) by (simp add: resume_one_usb_def bind_pure marked_def retE_def)
  then show ?thesis using assms(3) by (simp add: emits_at_def)
next
  case False
  let ?A = "\<lambda>x. is_usb_attach (fst x) \<longrightarrow> resumable D i k (fst x)"
  have "emits ?A (attach_one_usb D d r requested)" for requested
    by (rule emits_mono [OF emits_attach_one_usb])
      (use assms(1,2) False in \<open>auto simp: resumable_def dest!: permitted_attach_command\<close>)
  then have "emits ?A (resume_one_usb D wanted d r)"
    unfolding resume_one_usb_def Let_def by (intro emits_intro)
  moreover have "keeps (marked i) (resume_one_usb D wanted d r)"
    unfolding resume_one_usb_def Let_def defer_if_stopped_def
    by (intro keeps_bind keeps_if keeps_sum keeps_basic keeps_wrap keeps_mod
        marked_keeps_attach [OF False])
      (auto intro: keeps_kernel_only [OF marked_memory] kernel_only_intro simp: marked_def)
  ultimately show ?thesis using assms(3) by (auto intro: emits_at_emits keepsD)
qed

text \<open>C20: a device the user detached for good stays detached. Resuming, which every reconcile
  pass does, leaves its mark in place, and every attach command issued while resuming is for
  a scanned device with another identity, on the node of that device, to a VM its rule
  allows.\<close>

theorem resume_respects_detach:
  assumes "disconnected (persistent s) i" and "resume_usb D wanted s = (res, t)"
  shows "disconnected (persistent t) i \<and>
     (\<forall>x\<in>set (drop (length (history s)) (history t)).
        is_usb_attach (fst x) \<longrightarrow> resumable D i (kern s) (fst x))"
proof (cases "usb_devices D (kern s)")
  case (Inl e)
  then show ?thesis using assms by (simp add: resume_usb_def look_result_bind)
next
  case (Inr ds)
  let ?A = "\<lambda>x. is_usb_attach (fst x) \<longrightarrow> resumable D i (kern s) (fst x)"
  let ?loop = "for_each (\<lambda>(d, r). sys_name d) (\<lambda>(d, r). resume_one_usb D wanted d r) ds"
  have "emits_at ?A ?loop s \<and> marked i (snd (?loop s))"
    by (rule emits_at_for_each)
      (use emits_resume_one [OF Inr] assms(1) in \<open>auto simp: marked_def\<close>)
  moreover have "?loop s = (res, t)" using assms(2) Inr by (simp add: resume_usb_def look_result_bind)
  ultimately show ?thesis using emits_atD by (fastforce simp: marked_def)
qed

definition detached_plugged :: "disk manager" where
  "detached_plugged =
     (plugged_manager sample_config [])\<lparr>persistent :=
        mark_disconnected ''usb-a:b:None'' True default_persistent\<rparr>"

lemma resume_respects_detach_witness:
  "disconnected (persistent (snd (resume_usb (sample_dm sample_config) None detached_plugged)))
     ''usb-a:b:None''"
proof -
  have "disconnected (persistent detached_plugged) ''usb-a:b:None''" by code_simp
  from resume_respects_detach [OF this surjective_pairing] show ?thesis by blast
qed

section \<open>The order of an attach\<close>

text \<open>The device passed the authorization guard from \<open>s\<close> to \<open>t\<close>: \<open>1\<close> was just written to its
  attribute, or nothing was done, and then a policy that governs the device read \<open>1\<close> there.\<close>

definition guard_passed :: "'k dm \<Rightarrow> usb_device \<Rightarrow> 'k manager \<Rightarrow> 'k manager \<Rightarrow> bool" where
  "guard_passed D d s t \<longleftrightarrow>
     authorize D (usb_root D) (sys_name d) True s = (Inr (), t) \<or>
     t = s \<and> (policy_enabled D \<and> \<not> is_hub d \<longrightarrow>
       authorization D (usb_root D) (sys_name d) (kern s) = Some True)"

lemma guard_passes:
  assumes "usb_authorization_guard D d s = (Inr armed, t)"
  shows "guard_passed D d s t"
proof (cases "policy_enabled D \<and> \<not> is_hub d \<and>
    authorization D (usb_root D) (sys_name d) (kern s) \<noteq> Some True")
  case False
  then have "t = s"
    using assms by (auto simp: usb_authorization_guard_def look_bind retE_def)
  then show ?thesis using False by (auto simp: guard_passed_def)
next
  case True
  then have "usb_authorization_guard D d s =
      bindE (tryE (ctxE (''cannot authorize '' @ sys_name d)
               (authorize D (usb_root D) (sys_name d) True))) (\<lambda>r.
        case r of
          Inl e \<Rightarrow> bindE (drop_guard D d True) (\<lambda>_. failE e)
        | Inr _ \<Rightarrow> retE True) s"
    by (simp add: usb_authorization_guard_def look_bind)
  with assms show ?thesis
    by (cases "authorize D (usb_root D) (sys_name d) True s"; cases "fst (authorize D (usb_root D) (sys_name d) True s)")
      (auto simp: bindE_apply tryE_def ctxE_def retE_def failE_def with_context_def
        guard_passed_def split: prod.splits sum.splits)
qed

text \<open>C21: the order of an attach. Whenever an attach command is issued, a device held by another VM
  was detached from it and forgotten before, then the device passed the authorization guard, and
  the VM's Crosvm has answered with its list of devices: at the very start where the policy
  governs the device, and otherwise after the guard. No attach command comes before the end of
  these, so a device is never asked for by two VMs at once, nor before it is authorized, nor of a
  Crosvm that does not answer.\<close>

theorem attach_in_order:
  assumes "device_node d = Some node" and "attach_to_vm D d v s = (res, t)"
    and "x \<in> set (drop (length (history s)) (history t))" and "is_usb_attach (fst x)"
  shows "\<exists>p s0 s1 s2 s3 gen live. preflight_vm D d v s = (Inr p, s0) \<and>
     (if usb_vms s node \<in> {None, Some (vm_name v)} then s1 = s0
      else detach_one_usb D d False s0 = (Inr (), s1) \<and> usb_vms s1 node = None) \<and>
     guard_passed D d s1 s2 \<and> grown s2 s3 \<and>
     (if policy_enabled D \<and> \<not> is_hub d then p = Some (gen, live) \<and> crosvm_listed D v gen live s s0
      else p = None \<and> crosvm_listed D v gen live s2 s3) \<and>
     quiet s s3 \<and> x \<in> set (drop (length (history s3)) (history t))"
proof -
  let ?A = "\<lambda>x. \<not> is_usb_attach (fst x)"
  have pre: "emits ?A (preflight_vm D d v)"
    unfolding preflight_vm_def query_vm_def by (intro emits_intro) auto
  have det: "emits ?A (if c then detach_one_usb D d False else retE ())" for c
    by (intro emits_intro emits_detach_one_usb) auto
  have ext: "emits (\<lambda>_. True) (detach_one_usb D d False)"
    "emits (\<lambda>_. True) (usb_authorization_guard D d)"
    by (intro emits_detach_one_usb emits_guard; simp)+
  have guard: "emits ?A (usb_authorization_guard D d)" by (rule emits_guard) auto
  obtain p s0 where p: "preflight_vm D d v s = (Inr p, s0)" and q0: "quiet s s0"
    and r0: "bindE (getE (\<lambda>s. usb_vms s node)) (\<lambda>holder.
        bindE (if holder \<noteq> None \<and> holder \<noteq> Some (vm_name v)
               then detach_one_usb D d False else retE ()) (\<lambda>_.
        bindE (usb_authorization_guard D d) (\<lambda>armed.
        under_guard D d armed
          (claim_usb D d node v p (holder \<noteq> Some (vm_name v)))
          (record_attachment D d node v)))) s0 = (res, t)"
    and x0: "x \<in> set (drop (length (history s0)) (history t))"
    by (rule quiet_stage [OF pre _ assms(2)[unfolded attach_to_vm_def] assms(3,4)])
      (use assms(1) in \<open>auto intro!: emits_intro ext extends_last\<close>)
  have h: "usb_vms s0 node = usb_vms s node"
    using kernel_onlyD [OF kernel_only_preflight p] by (simp add: same_memory_fields)
  obtain s1 where d1: "(if usb_vms s0 node \<noteq> None \<and> usb_vms s0 node \<noteq> Some (vm_name v)
       then detach_one_usb D d False else retE ()) s0 = (Inr (), s1)" and q1: "quiet s0 s1"
    and r1: "bindE (usb_authorization_guard D d) (\<lambda>armed.
        under_guard D d armed
          (claim_usb D d node v p (usb_vms s0 node \<noteq> Some (vm_name v)))
          (record_attachment D d node v)) s1 = (res, t)"
    and x1: "x \<in> set (drop (length (history s1)) (history t))"
    by (rule quiet_stage [OF det _ r0 [unfolded bind_pure] x0 assms(4)])
      (auto intro!: emits_intro ext extends_last)
  obtain armed s2 where g: "usb_authorization_guard D d s1 = (Inr armed, s2)" and q2: "quiet s1 s2"
    and r2: "under_guard D d armed (claim_usb D d node v p (usb_vms s0 node \<noteq> Some (vm_name v)))
          (record_attachment D d node v) s2 = (res, t)"
    and x2: "x \<in> set (drop (length (history s2)) (history t))"
    by (rule quiet_stage [OF guard _ r1 x1 assms(4)]) (auto intro!: extends_last)
  obtain r u where claim: "claim_usb D d node v p (usb_vms s0 node \<noteq> Some (vm_name v)) s2 = (r, u)"
    and xu: "x \<in> fresh_effects s2 u" and ut: "grown u t"
    using under_guard_attach [OF r2 _ assms(4)] x2 by (auto simp: fresh_effects_def)
  obtain gen live w s3 where "grown s2 w" and "grown w s3" and q3: "quiet s2 s3"
    and asked: "case p of Some q \<Rightarrow> q = (gen, live) | None \<Rightarrow> crosvm_listed D v gen live w s3"
    and "grown s3 u" and x3: "x \<in> fresh_effects s3 u"
    by (rule claim_asked_first [OF claim xu assms(4)])
  then have s23: "grown s2 s3" and s3t: "x \<in> fresh_effects s3 t"
    using grown_trans grown_effects(1) [OF _ ut] by blast+
  have "if policy_enabled D \<and> \<not> is_hub d then p = Some (gen, live) \<and> crosvm_listed D v gen live s s0
      else p = None \<and> crosvm_listed D v gen live s2 s3"
    using preflight_listed [OF p] asked
      crosvm_listed_grown [OF _ \<open>grown s2 w\<close> \<open>grown w s3\<close> grown_refl]
    by (cases p) auto
  moreover have "if usb_vms s node \<in> {None, Some (vm_name v)} then s1 = s0
      else detach_one_usb D d False s0 = (Inr (), s1) \<and> usb_vms s1 node = None"
    using d1 h detach_forgets [OF assms(1), of D False s0 s1] by (auto simp: retE_def split: if_splits)
  ultimately show ?thesis
    using p guard_passes [OF g] quiet_trans [OF quiet_trans [OF quiet_trans [OF q0 q1] q2] q3] s23 s3t
    unfolding fresh_effects_def by blast
qed


text \<open>The keyboard held by the network VM and now wanted by the graphics VM, on a host whose
  policy governs it.\<close>

definition moving_manager :: "disk manager" where
  "moving_manager =
     (sample_manager authorizing_config
        [reply ''devices'', reply ''devices 7 a b'', reply ''ok'', reply ''devices'', reply ''ok 3''])
       \<lparr>usb_vms := (\<lambda>n. if n = ''n'' then Some ''net'' else None)\<rparr>"

lemma attach_in_order_witness:
  "\<exists>p s0 s1 s2 gen live. preflight_vm (sample_dm authorizing_config) keyboard gui_vm moving_manager = (Inr p, s0) \<and>
     detach_one_usb (sample_dm authorizing_config) keyboard False s0 = (Inr (), s1) \<and>
     usb_vms s1 ''n'' = None \<and> guard_passed (sample_dm authorizing_config) keyboard s1 s2 \<and>
     p = Some (gen, live) \<and> crosvm_listed (sample_dm authorizing_config) gui_vm gen live moving_manager s0"
proof -
  let ?x = "attach_to_vm (sample_dm authorizing_config) keyboard gui_vm moving_manager"
  have len: "8 < length (history (snd ?x))" and at: "is_usb_attach (fst (history (snd ?x) ! 8))"
    and old: "usb_vms moving_manager ''n'' = Some ''net''"
    and governed: "policy_enabled (sample_dm authorizing_config) \<and> \<not> is_hub keyboard"
    by code_simp+
  have "history moving_manager = []" by (simp add: moving_manager_def)
  then have m: "history (snd ?x) ! 8 \<in> set (drop (length (history moving_manager)) (history (snd ?x)))"
    using nth_mem [OF len] by simp
  have node: "device_node keyboard = Some ''n''" and ne: "''net'' \<noteq> vm_name gui_vm"
    by (simp_all add: keyboard_def gui_vm_def)
  from attach_in_order [OF node surjective_pairing m at] old ne
  show ?thesis unfolding if_P [OF governed] by auto
qed

end
