(* ===== verification/Gate_Properties.thy ===== *)
theory Gate_Properties
  imports System_Effects Manager_Memory Sample_Host
begin

text \<open>
  The properties of the USB gate: which host drivers it takes off and puts back, which
  devices it authorizes and deauthorizes, and what it remembers about routing.
\<close>

section \<open>Drivers\<close>

text \<open>A driver effect that fits the driver bound when it is issued.\<close>

definition fits_driver :: "'k dm \<Rightarrow> effect \<times> 'k \<Rightarrow> bool" where
  "fits_driver D x \<longleftrightarrow>
     (\<forall>i. fst x = Write (unbind_path (usb_root D) i) i \<longrightarrow>
        (\<exists>dr. driver D (usb_root D) i (snd x) = Some dr \<and> dr \<noteq> ''usbfs'' \<and> dr \<noteq> ''hub'')) \<and>
     (\<forall>b n. fst x = Write (b @ [''drivers_probe'']) n \<longrightarrow> driver D (usb_root D) n (snd x) = None)"

lemma fits_other [simp]:
  "fits_driver D (Write (b @ [AUTOPROBE]) v, k)"
  "fits_driver D (Write (usb_root D @ [n, AUTHORIZED]) w, k)"
  by (auto simp: fits_driver_def gate_consts unbind_path_def)

lemma fits_probe [simp]:
  "fits_driver D (Write (b @ [''drivers_probe'']) n, k) \<longleftrightarrow> driver D (usb_root D) n k = None"
  by (auto simp: fits_driver_def unbind_path_def)

lemma fits_release [simp]:
  "fits_driver D (Write (unbind_path (usb_root D) i) i, k) \<longleftrightarrow>
     (\<exists>dr. driver D (usb_root D) i k = Some dr \<and> releasable dr)"
  by (auto simp: fits_driver_def unbind_path_def releasable_def gate_consts)

lemma fits_probe_if_driverless: "emits (fits_driver D) (probe_if_driverless D b n)"
  unfolding probe_if_driverless_def
  by (rule emits_atI) (simp add: emits_at_pure emits_at_wrap emits_at_emits emits_basic)

lemma fits_settle_interface: "emits (fits_driver D) (settle_interface D b routed i)"
  unfolding settle_interface_def
  by (rule emits_atI)
    (simp add: emits_at_pure emits_at_wrap emits_at_emits emits_basic split: option.split)

lemma fits_authorize_for_host: "emits (fits_driver D) (authorize_usb_for_host D)"
  unfolding authorize_usb_for_host_def authorize_one_for_host_def by (intro emits_intro) simp_all

lemma fits_apply_usb_gate: "emits (fits_driver D) (apply_usb_gate D)"
  unfolding apply_usb_gate_def usb_routing_def configure_authorized_def settle_device_def
  by (intro emits_intro fits_authorize_for_host fits_probe_if_driverless fits_settle_interface)
    simp_all

lemma fits_open_usb_gate: "emits (fits_driver D) (open_usb_gate D)"
  unfolding open_usb_gate_def hand_back_one_def
  by (intro emits_intro fits_probe_if_driverless) simp_all

text \<open>C26: settling the drivers of a reconcile pass, and handing them back on the way out, is
  safe for what is bound: whatever the environment does in between, a driver is only ever taken
  off an interface that has one at that very moment, and never the hub driver or a VM's own
  \<open>usbfs\<close> claim; a probe is only written for a device or interface that has no driver at that
  moment.\<close>

theorem gate_fits_drivers:
  assumes "apply_usb_gate D s = (r, t) \<or> open_usb_gate D s = (r, t)"
    and "x \<in> set (drop (length (history s)) (history t))"
  shows "fits_driver D x"
  using assms emits_atD [OF emits_at_emits [OF fits_apply_usb_gate]]
    emits_atD [OF emits_at_emits [OF fits_open_usb_gate]] by metis

lemma gate_fits_drivers_witness:
  "\<exists>k. fits_driver (sample_dm sample_config)
     (Write (unbind_path [''bus'', ''devices''] ''1-2:1.0'') ''1-2:1.0'', k)"
proof -
  let ?x = "apply_usb_gate (sample_dm sample_config) (plugged_manager sample_config [])"
  have len: "1 < length (history (snd ?x))"
    and at: "fst (history (snd ?x) ! 1) = Write (unbind_path [''bus'', ''devices''] ''1-2:1.0'') ''1-2:1.0''"
    by code_simp+
  obtain k where k: "(Write (unbind_path [''bus'', ''devices''] ''1-2:1.0'') ''1-2:1.0'', k)
      \<in> set (history (snd ?x))"
    using issued_at [OF len at] by (elim exE)
  then have m: "(Write (unbind_path [''bus'', ''devices''] ''1-2:1.0'') ''1-2:1.0'', k)
      \<in> set (drop (length (history (plugged_manager sample_config []))) (history (snd ?x)))"
    unfolding fresh_history list.size drop_0 .
  show ?thesis using gate_fits_drivers [OF disjI1 [OF surjective_pairing] m] by (rule exI)
qed

section \<open>Routed devices\<close>

text \<open>Settling keeps a routed device's interfaces free and an unrouted one's served. For a
  routed device no probe is written at all, only unbinds of its own interfaces; for any other
  device no driver is taken off, only probes of its own interfaces are written. Its own
  interfaces are the entries named after it.\<close>

theorem settle_device_respects_routing:
  assumes "settle_device D b routed name s = (r, t)"
    and "x \<in> set (drop (length (history s)) (history t))"
  shows "\<exists>i. prefix (interface_prefix name) i \<and>
     fst x = (if name \<in> routed then Write (unbind_path (usb_root D) i) i
              else Write (b @ [''drivers_probe'']) i)"
proof -
  define A where "A = (\<lambda>x :: effect \<times> 'a. \<exists>i. prefix (interface_prefix name) i \<and>
     fst x = (if name \<in> routed then Write (unbind_path (usb_root D) i) i
              else Write (b @ [''drivers_probe'']) i))"
  have one: "emits A (settle_interface D b (name \<in> routed) i)" if "prefix (interface_prefix name) i" for i
    unfolding settle_interface_def
    by (intro emits_intro) (use that in \<open>auto simp: A_def\<close>)
  have "emits A (settle_device D b routed name)"
    unfolding settle_device_def
  proof (rule emits_look_bind)
    fix k
    show "emits A (case interface_names D (usb_root D) name k of
        Inl _ \<Rightarrow> retE () | Inr ns \<Rightarrow> forE ns (settle_interface D b (name \<in> routed)))"
      by (auto simp: interface_names_def split: option.split sum.split
          intro!: emits_basic emits_forE one)
  qed
  then have "A x" using emits_atD [OF emits_at_emits] assms by metis
  then show ?thesis by (simp add: A_def)
qed

lemma settle_device_respects_routing_witness:
  "\<exists>i. prefix (interface_prefix ''1-2'') i \<and>
     fst (hd (history (snd (settle_device (sample_dm sample_config) [''bus''] {''1-2''} ''1-2''
       (plugged_manager sample_config []))))) = Write (unbind_path [''bus'', ''devices''] i) i"
proof -
  let ?x = "settle_device (sample_dm sample_config) [''bus''] {''1-2''} ''1-2'' (plugged_manager sample_config [])"
  have "history (snd ?x) \<noteq> []" by code_simp
  then have m: "hd (history (snd ?x)) \<in>
      set (drop (length (history (plugged_manager sample_config []))) (history (snd ?x)))"
    unfolding fresh_history list.size drop_0 by (rule hd_in_set)
  have "usb_root (sample_dm sample_config) = [''bus'', ''devices'']" by (simp add: sample_dm_def)
  then show ?thesis
    using settle_device_respects_routing [OF surjective_pairing m] by auto
qed

text \<open>Interface names tell devices apart: an entry of the bus directory belongs to at most
  one device, so what one pass does to the interfaces of an unrouted device never touches those
  of a routed one. The root hub \<open>usbN\<close>, whose interfaces are named after port \<open>N-0\<close>, is
  included.\<close>

theorem interfaces_tell_devices_apart:
  assumes "prefix (interface_prefix a) i" and "prefix (interface_prefix b) i"
    and "CHR '':'' \<notin> set a" and "CHR '':'' \<notin> set b"
    and "\<not> suffix ''-0'' a" and "\<not> suffix ''-0'' b"
  shows "a = b"
proof -
  define stem where "stem = (\<lambda>n. if prefix ''usb'' n \<and> drop 3 n \<noteq> [] \<and> list_all is_ascii_digit (drop 3 n)
      then drop 3 n @ ''-0'' else n)"
  have form: "interface_prefix n = stem n @ '':''" for n
    by (auto simp: interface_prefix_def stem_def)
  have colon: "CHR '':'' \<notin> set (stem n)" if "CHR '':'' \<notin> set n" for n
    using that by (auto simp: stem_def dest: in_set_dropD)
  have "stem a = stem b"
    using prefix_colon_append [OF colon colon, of a b i] assms by (simp add: form)
  moreover have "n = ''usb'' @ drop 3 n" if "prefix ''usb'' n" for n :: string
    using that by (auto simp: prefix_def)
  ultimately show ?thesis
    using assms(5,6) unfolding stem_def suffix_def by (metis append_same_eq)
qed

lemma interfaces_tell_devices_apart_witness:
  "prefix (interface_prefix ''usb3'') ''3-0:1.0'' \<and> \<not> prefix (interface_prefix ''3-1'') ''3-0:1.0''"
proof
  show u: "prefix (interface_prefix ''usb3'') ''3-0:1.0''" by code_simp
  show "\<not> prefix (interface_prefix ''3-1'') ''3-0:1.0''"
    using interfaces_tell_devices_apart [OF u, of "''3-1''"] by (auto simp: suffix_def)
qed

section \<open>Handing binding back\<close>

lemma hand_back_one_names:
  "emits (\<lambda>x. \<exists>n. fst x = Write (b @ [''drivers_probe'']) n \<and> name \<notin> held \<and>
      (n = name \<or> prefix (interface_prefix name) n)) (hand_back_one D b held name)"
proof -
  let ?A = "\<lambda>x. \<exists>n. fst x = Write (b @ [''drivers_probe'']) n \<and> name \<notin> held \<and>
      (n = name \<or> prefix (interface_prefix name) n)"
  have one: "emits ?A (probe_if_driverless D b n)"
    if "name \<notin> held" and "n = name \<or> prefix (interface_prefix name) n" for n
    unfolding probe_if_driverless_def by (intro emits_intro) (use that in auto)
  have rest: "emits ?A (bindE (look (interface_names D (usb_root D) name)) (\<lambda>is.
      case is of Inl _ \<Rightarrow> retE () | Inr ns \<Rightarrow> forE ns (probe_if_driverless D b)))"
    if "name \<notin> held"
    by (rule emits_look_bind)
      (intro emits_sum emits_basic emits_forE one; use that in \<open>auto dest: interface_names_prefix\<close>)
  show ?thesis
    unfolding hand_back_one_def by (intro emits_intro one rest) auto
qed

text \<open>The entry \<open>n\<close> of the bus directory is the device \<open>name\<close> or one of its interfaces; device names,
  as the kernel gives them, have no colon and do not end in \<open>-0\<close>.\<close>

definition entry_of :: "string \<Rightarrow> string \<Rightarrow> bool" where
  "entry_of n name \<longleftrightarrow> n = name \<or> prefix (interface_prefix name) n"

definition plain_name :: "string \<Rightarrow> bool" where
  "plain_name name \<longleftrightarrow> CHR '':'' \<notin> set name \<and> \<not> suffix ''-0'' name"

lemma entry_of_one:
  assumes "entry_of n a" and "entry_of n b" and "plain_name a" and "plain_name b"
  shows "a = b"
proof -
  have colon: "CHR '':'' \<in> set n" if "prefix (interface_prefix c) n" for c
    using set_mono_prefix [OF that] by (auto simp: interface_prefix_def split: if_splits)
  show ?thesis
    using assms colon interfaces_tell_devices_apart [of a n b]
    unfolding entry_of_def plain_name_def by metis
qed

text \<open>C27: on the way out the gate gives everything back except what a VM holds, and leaves a
  deployment that routes no USB alone. Without enabled USB rules, or on a bus that is not closed,
  nothing is written; with them autoprobe is switched on, and every other write is a probe of an
  entry of a device which the bus directory lists just after that, and which is not among those
  held; nor does the entry belong to any device held, where names are as the kernel gives them.
  The devices held are those that a scan at the start finds under a node some VM is recorded for;
  there are none when this scan fails.\<close>

theorem open_gate_spares_held:
  assumes "open_usb_gate D s = (r, t)"
    and "x \<in> set (drop (length (history s)) (history t))"
  shows "routes_usb (cfg D) \<and>
     (\<exists>b. gated_bus D (kern s) = Some b \<and> is_closed D b (kern s) \<and>
        (fst x = Write (b @ [AUTOPROBE]) ''1'' \<or>
         (\<exists>names name n. device_names D (usb_root D) (kern (snd (open_gate D b s))) = Inr names \<and>
            name \<in> set names \<and> name \<notin> usb_held_by_vms D s \<and> entry_of n name \<and>
            fst x = Write (b @ [''drivers_probe'']) n \<and>
            (\<forall>h\<in>usb_held_by_vms D s. plain_name name \<and> plain_name h \<longrightarrow> \<not> entry_of n h))))"
proof -
  let ?held = "usb_held_by_vms D s"
  define A where "A = (\<lambda>b (x :: effect \<times> 'a).
     fst x = Write (b @ [AUTOPROBE]) ''1'' \<or>
     (\<exists>names name n. device_names D (usb_root D) (kern (snd (open_gate D b s))) = Inr names \<and>
        name \<in> set names \<and> name \<notin> ?held \<and> entry_of n name \<and>
        fst x = Write (b @ [''drivers_probe'']) n))"
  have "\<exists>b. gated_bus D (kern s) = Some b \<and> is_closed D b (kern s) \<and> A b x"
  proof (cases "\<exists>b. gated_bus D (kern s) = Some b \<and> is_closed D b (kern s)")
    case False
    then have "t = s" using assms(1)
      by (auto simp: open_usb_gate_def look_bind retE_def split: option.splits)
    then show ?thesis using assms(2) by simp
  next
    case True
    then obtain b where b: "gated_bus D (kern s) = Some b" "is_closed D b (kern s)" by blast
    have "emits_at (A b) (bindE (open_gate D b) (\<lambda>_.
       bindE (look_result (device_names D (usb_root D))) (\<lambda>names.
       forE names (hand_back_one D b ?held)))) s"
    proof (rule emits_at_bind)
      show "emits_at (A b) (open_gate D b) s"
        by (intro emits_at_emits emits_intro) (simp add: A_def)
      fix u s1 assume s1: "open_gate D b s = (Inr u, s1)"
      show "emits_at (A b) (bindE (look_result (device_names D (usb_root D))) (\<lambda>names.
          forE names (hand_back_one D b ?held))) s1"
      proof (cases "device_names D (usb_root D) (kern s1)")
        case (Inl e)
        then show ?thesis by (simp add: emits_at_def look_result_bind)
      next
        case (Inr names)
        have "emits (A b) (forE names (hand_back_one D b ?held))"
          by (intro emits_forE emits_mono [OF hand_back_one_names])
            (use Inr s1 in \<open>auto simp: A_def entry_of_def\<close>)
        then show ?thesis using Inr by (simp add: emits_at_def emits_def look_result_bind)
      qed
    qed
    moreover have "open_usb_gate D s = bindE (open_gate D b) (\<lambda>_.
       bindE (look_result (device_names D (usb_root D))) (\<lambda>names.
       forE names (hand_back_one D b ?held))) s"
      using b by (simp add: open_usb_gate_def look_bind bind_pure)
    ultimately show ?thesis using emits_atD [OF _ _ assms(2)] assms(1) b by metis
  qed
  then obtain b where b: "gated_bus D (kern s) = Some b" "is_closed D b (kern s)" and x: "A b x" by blast
  have "\<forall>h\<in>?held. plain_name name \<and> plain_name h \<longrightarrow> \<not> entry_of n h"
    if "name \<notin> ?held" and "entry_of n name" for n name
    using entry_of_one [OF that(2)] that(1) by blast
  moreover have "routes_usb (cfg D)" using b(1) by (simp add: gated_bus_def split: if_splits)
  ultimately show ?thesis using b x unfolding A_def by blast
qed

text \<open>Leaving while the graphics VM holds the keyboard, and while nobody does.\<close>

definition leaving_manager :: "disk manager" where
  "leaving_manager =
     (plugged_manager sample_config [])
       \<lparr>kern := (plugged_disk [])\<lparr>links := []\<rparr>,
        usb_vms := (\<lambda>n. if n = ''/dev/bus/usb/001/004'' then Some ''gui'' else None)\<rparr>"

lemma open_gate_spares_held_witness:
  "map fst (history (snd (open_usb_gate (sample_dm sample_config) leaving_manager))) =
     [Write [''bus'', ''drivers_autoprobe''] ''1''] \<and>
   usb_held_by_vms (sample_dm sample_config) leaving_manager = {''1-2''} \<and>
   (\<exists>name n. name \<notin> usb_held_by_vms (sample_dm sample_config) (leaving_manager\<lparr>usb_vms := \<lambda>_. None\<rparr>) \<and>
     entry_of n name \<and>
     fst (history (snd (open_usb_gate (sample_dm sample_config) (leaving_manager\<lparr>usb_vms := \<lambda>_. None\<rparr>))) ! 1) =
       Write [''bus'', ''drivers_probe''] n)"
proof (intro conjI)
  show "map fst (history (snd (open_usb_gate (sample_dm sample_config) leaving_manager))) =
     [Write [''bus'', ''drivers_autoprobe''] ''1'']" by code_simp
  show "usb_held_by_vms (sample_dm sample_config) leaving_manager = {''1-2''}" by code_simp
  let ?s = "leaving_manager\<lparr>usb_vms := \<lambda>_. None\<rparr>"
  let ?x = "open_usb_gate (sample_dm sample_config) ?s"
  have len: "1 < length (history (snd ?x))"
    and at: "fst (history (snd ?x) ! 1) = Write [''bus'', ''drivers_probe''] ''1-2''"
    and bus: "gated_bus (sample_dm sample_config) (kern ?s) = Some [''bus'']"
    by code_simp+
  have "history ?s = []" by (simp add: leaving_manager_def plugged_manager_def initial_manager_def)
  then have m: "history (snd ?x) ! 1 \<in> set (drop (length (history ?s)) (history (snd ?x)))"
    using nth_mem [OF len] by simp
  show "\<exists>name n. name \<notin> usb_held_by_vms (sample_dm sample_config) ?s \<and> entry_of n name \<and>
     fst (history (snd ?x) ! 1) = Write [''bus'', ''drivers_probe''] n"
    using open_gate_spares_held [OF surjective_pairing m] bus at by auto
qed

section \<open>Routing verdicts\<close>

lemma new_verdicts_lookup:
  "new_verdicts D cache ds i =
     (case find (\<lambda>d. usb_persistent_id d = i) (rev ds) of
        None \<Rightarrow> None | Some d \<Rightarrow> Some (routing_verdict D cache d))"
proof (induction ds rule: rev_induct)
  case (snoc d ds)
  then show ?case by (simp add: new_verdicts_def)
qed (simp add: new_verdicts_def)

text \<open>A routing verdict is remembered exactly as long as the device stays plugged in. In the
  pass after \<open>usb_routing\<close> saw the devices \<open>ds\<close>, a device is routed if a rule matches it now, or
  if the device that carried its identity in \<open>ds\<close> was routed then; a device not in \<open>ds\<close> is
  decided afresh. In both cases a device the user detached is not routed.\<close>

theorem routing_is_sticky:
  assumes "usb_routing D ds s = (r, t)" and "distinct (map usb_persistent_id ds)"
    and "d \<in> set ds'" and "sys_name d = name" and "inj_on sys_name (set ds')"
  shows "name \<in> routed_names D (usb_routing_cache t) (persistent t) ds' \<longleftrightarrow>
     \<not> disconnected (persistent s) (usb_persistent_id d) \<and>
     (usb_rule D (cfg D) d \<noteq> None \<or>
      (\<exists>e\<in>set ds. usb_persistent_id e = usb_persistent_id d \<and>
         routing_verdict D (usb_routing_cache s) e))"
proof -
  have t: "usb_routing_cache t = new_verdicts D (usb_routing_cache s) ds" "persistent t = persistent s"
    using assms(1) by (auto simp: usb_routing_def bind_pure retE_def)
  have look: "new_verdicts D (usb_routing_cache s) ds i = Some True \<longleftrightarrow>
      (\<exists>e\<in>set ds. usb_persistent_id e = i \<and> routing_verdict D (usb_routing_cache s) e)" for i
  proof (cases "find (\<lambda>d. usb_persistent_id d = i) (rev ds)")
    case None
    then show ?thesis by (simp add: new_verdicts_lookup) (auto simp: find_None_iff)
  next
    case (Some e)
    then obtain ys zs where "rev ds = ys @ e # zs" and i: "usb_persistent_id e = i"
      using find_Some_split [OF Some] by auto
    then have "e \<in> set (rev ds)" by simp
    then have e: "e \<in> set ds" "usb_persistent_id e = i" using i by simp_all
    have uniq: "e' = e" if "e' \<in> set ds" and "usb_persistent_id e' = i" for e'
      using assms(2) e that by (auto simp: distinct_map inj_on_def)
    have "new_verdicts D (usb_routing_cache s) ds i = Some (routing_verdict D (usb_routing_cache s) e)"
      using Some by (simp add: new_verdicts_lookup)
    then show ?thesis using e uniq by (metis option.inject)
  qed
  have "name \<in> routed_names D (usb_routing_cache t) (persistent t) ds' \<longleftrightarrow>
      routing_verdict D (usb_routing_cache t) d \<and> \<not> disconnected (persistent t) (usb_persistent_id d)"
    using assms(3-5) by (auto simp: routed_names_def inj_on_def)
  then show ?thesis by (auto simp: t routing_verdict_def look)
qed

text \<open>The keyboard as it looks once its descriptors are unreadable: no rule matches it any more.\<close>

definition blank_keyboard :: usb_device where
  "blank_keyboard = keyboard\<lparr>interfaces := []\<rparr>"

lemma routing_is_sticky_witness:
  "''1-2'' \<in> routed_names (sample_dm sample_config)
     (usb_routing_cache (snd (usb_routing (sample_dm sample_config) [keyboard] (sample_manager sample_config []))))
     (persistent (snd (usb_routing (sample_dm sample_config) [keyboard] (sample_manager sample_config []))))
     [blank_keyboard]"
proof -
  let ?s = "sample_manager sample_config []"
  have v: "routing_verdict (sample_dm sample_config) (usb_routing_cache ?s) keyboard" by code_simp
  have n: "\<not> disconnected (persistent ?s) (usb_persistent_id blank_keyboard)" by code_simp
  have i: "usb_persistent_id keyboard = usb_persistent_id blank_keyboard" by code_simp
  have "sys_name blank_keyboard = ''1-2''" by (simp add: blank_keyboard_def keyboard_def)
  then show ?thesis
    using routing_is_sticky [OF surjective_pairing, of "[keyboard]" blank_keyboard "[blank_keyboard]"
        "''1-2''" "sample_dm sample_config" ?s] v n i by simp
qed

section \<open>Authorization\<close>

definition auth_write :: "'k dm \<Rightarrow> usb_device \<Rightarrow> bool \<Rightarrow> effect" where
  "auth_write D d v = Write (usb_root D @ [sys_name d, AUTHORIZED]) (flag v)"

text \<open>Default deny. Enforcing the policy on devices left on the host only ever revokes: every
  write is a \<open>0\<close> to the authorization attribute of a scanned device that is not a hub, is not
  held by a VM, is not allowed for the host, and is authorized at that moment; and it happens
  only when the policy and \<open>deauthorizeUnmatched\<close> are both on.\<close>

theorem deauthorize_only_unmatched:
  assumes "deauthorize_unmatched_usb D s = (r, t)"
    and "(e, k) \<in> set (drop (length (history s)) (history t))"
  shows "policy_enabled D \<and> deauthorize_unmatched (authorization_policy (cfg D)) \<and>
     (\<exists>ds d. scan_usb D (usb_root D) (kern s) = Inr ds \<and> d \<in> set ds \<and> e = auth_write D d False \<and>
        \<not> is_hub d \<and> \<not> usb_attached s d \<and> \<not> usb_authorization_host_allowed D (cfg D) d \<and>
        authorization D (usb_root D) (sys_name d) k = Some True)"
proof -
  define A where "A = (\<lambda>x :: effect \<times> 'a. \<exists>ds d. scan_usb D (usb_root D) (kern s) = Inr ds \<and> d \<in> set ds \<and>
        fst x = auth_write D d False \<and>
        \<not> is_hub d \<and> \<not> usb_attached s d \<and> \<not> usb_authorization_host_allowed D (cfg D) d \<and>
        authorization D (usb_root D) (sys_name d) (snd x) = Some True)"
  let ?on = "policy_enabled D \<and> deauthorize_unmatched (authorization_policy (cfg D))"
  have on: ?on using assms by (auto simp: deauthorize_unmatched_usb_def retE_def split: if_splits)
  obtain ds where ds: "scan_usb D (usb_root D) (kern s) = Inr ds"
    using assms on by (cases "scan_usb D (usb_root D) (kern s)")
      (auto simp: deauthorize_unmatched_usb_def look_result_bind)
  have step: "emits_at A (deauthorize_one_unmatched D d) u \<and> usb_vms (snd (deauthorize_one_unmatched D d u)) = usb_vms s"
    if "d \<in> set ds" and u: "usb_vms u = usb_vms s" for d u
  proof
    have "usb_attached u d = usb_attached s d" using u by (simp add: usb_attached_def)
    then show "emits_at A (deauthorize_one_unmatched D d) u"
      by (auto simp: deauthorize_one_unmatched_def emits_at_pure emits_at_wrap
          intro!: emits_at_authorize emits_at_emits [OF emits_basic(1)])
        (use that(1) ds in \<open>auto simp: A_def auth_write_def\<close>)
    have "kernel_only (deauthorize_one_unmatched D d)"
      unfolding deauthorize_one_unmatched_def by (intro kernel_only_intro)
    then show "usb_vms (snd (deauthorize_one_unmatched D d u)) = usb_vms s"
      using u same_memory_fields(2) unfolding kernel_only_def by metis
  qed
  have "emits_at A (forE ds' (deauthorize_one_unmatched D)) u"
    if "set ds' \<subseteq> set ds" and "usb_vms u = usb_vms s" for ds' u
    using that
  proof (induction ds' arbitrary: u)
    case Nil
    then show ?case by (simp add: emits_at_emits emits_basic)
  next
    case (Cons d ds')
    then show ?case
      using step [of d u] by (auto intro!: emits_at_bind Cons.IH dest!: arg_cong [where f = snd])
  qed
  then have "emits_at A (deauthorize_unmatched_usb D) s"
    using on ds
    by (simp add: deauthorize_unmatched_usb_def emits_at_def look_result_bind)
  from emits_atD [OF this assms] on show ?thesis by (auto simp: A_def)
qed

text \<open>The plugged keyboard authorized, on a host whose policy has no rule for it.\<close>

definition strict_config :: config where
  "strict_config = authorizing_config\<lparr>usb_passthrough := []\<rparr>"

definition open_disk :: disk where
  "open_disk = snd (disk_write [''bus'', ''devices'', ''1-2'', ''authorized''] ''1'' (plugged_disk []))"

lemma deauthorize_only_unmatched_witness:
  "\<exists>ds d. scan_usb (sample_dm strict_config) [''bus'', ''devices''] open_disk = Inr ds \<and> d \<in> set ds \<and>
     \<not> is_hub d \<and> fst (hd (history (snd (deauthorize_unmatched_usb (sample_dm strict_config)
       (initial_manager (sample_dm strict_config) open_disk))))) = auth_write (sample_dm strict_config) d False"
proof -
  let ?s = "initial_manager (sample_dm strict_config) open_disk"
  let ?x = "deauthorize_unmatched_usb (sample_dm strict_config) ?s"
  have "history (snd ?x) \<noteq> []" by code_simp
  moreover have "history ?s = []" by (simp add: initial_manager_def)
  ultimately have "(fst (hd (history (snd ?x))), snd (hd (history (snd ?x)))) \<in>
      set (drop (length (history ?s)) (history (snd ?x)))"
    by simp
  note m = deauthorize_only_unmatched [OF surjective_pairing this]
  have "usb_root (sample_dm strict_config) = [''bus'', ''devices'']" "kern ?s = open_disk"
    by (simp_all add: sample_dm_def initial_manager_def)
  then show ?thesis using m by auto
qed

text \<open>The only devices the manager authorizes for the host are hubs and those the
  configuration allows, and only those the kernel holds unauthorized at that moment.\<close>

theorem authorize_only_host_allowed:
  assumes "authorize_usb_for_host D s = (r, t)"
    and "(e, k) \<in> set (drop (length (history s)) (history t))"
  shows "policy_enabled D \<and>
     (\<exists>ds d. scan_usb D (usb_root D) (kern s) = Inr ds \<and> d \<in> set ds \<and> e = auth_write D d True \<and>
        (is_hub d \<or> usb_authorization_host_allowed D (cfg D) d) \<and>
        authorization D (usb_root D) (sys_name d) k = Some False)"
proof -
  define A where "A = (\<lambda>x :: effect \<times> 'a. \<exists>ds d. scan_usb D (usb_root D) (kern s) = Inr ds \<and> d \<in> set ds \<and>
        fst x = auth_write D d True \<and> (is_hub d \<or> usb_authorization_host_allowed D (cfg D) d) \<and>
        authorization D (usb_root D) (sys_name d) (snd x) = Some False)"
  have on: "policy_enabled D" using assms by (auto simp: authorize_usb_for_host_def retE_def split: if_splits)
  obtain ds where ds: "scan_usb D (usb_root D) (kern s) = Inr ds"
    using assms on by (cases "scan_usb D (usb_root D) (kern s)")
      (auto simp: authorize_usb_for_host_def look_result_bind)
  have "emits A (authorize_one_for_host D d)" if "d \<in> set ds" for d
  proof (rule emits_atI)
    fix u
    show "emits_at A (authorize_one_for_host D d) u"
      by (auto simp: authorize_one_for_host_def emits_at_pure emits_at_wrap
          intro!: emits_at_authorize emits_at_emits [OF emits_basic(1)])
        (use that ds in \<open>auto simp: A_def auth_write_def host_authorized_def\<close>)
  qed
  then have "emits A (forE ds (authorize_one_for_host D))" by (rule emits_forE)
  then have "emits_at A (authorize_usb_for_host D) s"
    using on ds by (simp add: authorize_usb_for_host_def emits_at_def look_result_bind emits_def)
  from emits_atD [OF this assms] on show ?thesis by (auto simp: A_def)
qed

definition host_config :: config where
  "host_config =
     strict_config\<lparr>authorization_policy := (authorization_policy strict_config)\<lparr>host_allow :=
       [JObj [(''vendorId'', JStr ''A''), (''productId'', JStr ''B'')]]\<rparr>\<rparr>"

lemma authorize_only_host_allowed_witness:
  "\<exists>ds d. scan_usb (sample_dm host_config) [''bus'', ''devices''] (plugged_disk []) = Inr ds \<and>
     d \<in> set ds \<and> (is_hub d \<or> usb_authorization_host_allowed (sample_dm host_config) host_config d)"
proof -
  let ?s = "plugged_manager host_config []"
  let ?x = "authorize_usb_for_host (sample_dm host_config) ?s"
  have "history (snd ?x) \<noteq> []" by code_simp
  then have "(fst (hd (history (snd ?x))), snd (hd (history (snd ?x)))) \<in>
      set (drop (length (history ?s)) (history (snd ?x)))"
    by simp
  note m = authorize_only_host_allowed [OF surjective_pairing this]
  have "usb_root (sample_dm host_config) = [''bus'', ''devices'']" "kern ?s = plugged_disk []"
    "cfg (sample_dm host_config) = host_config"
    by (simp_all add: sample_dm_def plugged_manager_def initial_manager_def)
  then show ?thesis using m by auto
qed

end
