(* ===== verification/Pci_Properties.thy ===== *)
theory Pci_Properties
  imports System_Effects Manager_Memory Sample_Host
begin

text \<open>
  The properties of PCI passthrough: which devices are candidates and in which order, how a
  function is bound to vfio-pci, that a hotplug is verified before it counts, and what a
  successful attach and detach record.
\<close>

section \<open>Candidates\<close>

lemma pci_candidates_iff:
  assumes "pci_candidates D k ds = Inr xs"
  shows "(d, r) \<in> set xs \<longleftrightarrow> d \<in> set ds \<and> pci_rule (cfg D) d = Some r \<and>
     (iommu_skip_if_shared r \<longrightarrow>
        (\<exists>g. iommu_group D (address d) (pci_root D) k = Inr g \<and> length g \<le> 1))"
  using assms
proof (induction ds arbitrary: xs)
  case (Cons e ds)
  show ?case
  proof (cases "pci_rule (cfg D) e")
    case None
    then show ?thesis using Cons by auto
  next
    case (Some q)
    show ?thesis
      using Cons.prems Some Cons.IH
      by (auto split: sum.splits if_splits)
  qed
qed simp

text \<open>\<open>pci_devices\<close> lists exactly the scanned functions that a rule routes, each with that
  rule, leaving out those whose rule skips shared IOMMU groups when the group has more than one
  member, in the order of the rules and, within one order, of the addresses.\<close>

theorem pci_devices_exact:
  assumes "pci_devices D k = Inr xs"
  shows "sorted (map pci_key_of xs) \<and>
     (\<exists>ds. scan_pci D (pci_root D) k = Inr ds \<and>
        (\<forall>d r. (d, r) \<in> set xs \<longleftrightarrow> d \<in> set ds \<and> pci_rule (cfg D) d = Some r \<and>
           (iommu_skip_if_shared r \<longrightarrow>
              (\<exists>g. iommu_group D (address d) (pci_root D) k = Inr g \<and> length g \<le> 1))))"
proof -
  obtain ds cs where "scan_pci D (pci_root D) k = Inr ds" and cs: "pci_candidates D k ds = Inr cs"
    and "xs = pci_sort cs"
    using assms by (auto simp: pci_devices_def split: sum.splits)
  then have "sorted (map pci_key_of xs)" and "set xs = set cs"
    by (simp_all add: pci_sort_def)
  then show ?thesis
    using \<open>scan_pci D (pci_root D) k = Inr ds\<close> pci_candidates_iff [OF cs]
    by (intro conjI exI [of _ ds]) simp_all
qed

lemma pci_devices_exact_witness:
  "\<exists>xs. pci_devices (sample_dm full_config) (plugged_disk []) = Inr xs \<and> xs \<noteq> [] \<and> sorted (map pci_key_of xs)"
proof -
  let ?x = "pci_devices (sample_dm full_config) (plugged_disk [])"
  have ok: "is_ok ?x" and ne: "ok_value ?x \<noteq> []" by code_simp+
  show ?thesis using pci_devices_exact [OF is_ok_value [OF ok]] is_ok_value [OF ok] ne by (intro exI conjI; elim conjE)
qed

section \<open>Binding to vfio-pci\<close>

definition bind_writes :: "string \<Rightarrow> path \<Rightarrow> string option \<Rightarrow> effect list" where
  "bind_writes a root current =
     (if current = Some ''vfio-pci'' then []
      else (if current = None then [] else [Write (root @ [a, ''driver'', ''unbind'']) a]) @
           [Write (root @ [a, ''driver_override'']) ''vfio-pci'',
            Write (butlast root @ [''drivers_probe'']) a])"

text \<open>C23: binding a function to vfio-pci is a fixed sequence. It writes nothing if vfio-pci
  already has it; otherwise it unbinds the present driver, if there is one, then sets the
  override and only then has the bus probe it; when it reports success it has written exactly
  that, and when it fails only a proper beginning of it.\<close>

theorem bind_vfio_sequence:
  assumes "bind_vfio E a root s = (r, t)"
  shows "\<exists>new. history t = history s @ new \<and>
     prefix (map fst new) (bind_writes a root (fs_driver E (root @ [a]) (kern s))) \<and>
     (r = Inr () \<longrightarrow> map fst new = bind_writes a root (fs_driver E (root @ [a]) (kern s)))"
proof -
  let ?cur = "fs_driver E (root @ [a]) (kern s)"
  define go :: "('a, 'b, unit) host_op" where "go =
     bindE (if ?cur \<noteq> None
            then ctxE (''failed to unbind PCI device '' @ a)
                   (fs_write E (root @ [a, ''driver'', ''unbind'']) a)
            else retE ()) (\<lambda>_.
     bindE (ctxE (''failed to set driver_override for '' @ a)
              (fs_write E (root @ [a, ''driver_override'']) ''vfio-pci'')) (\<lambda>_.
     bindE (liftE (option_context ''invalid PCI sysfs root'' (path_parent root))) (\<lambda>parent.
     ctxE (''failed to probe vfio-pci for '' @ a)
       (fs_write E (parent @ [''drivers_probe'']) a))))"
  have parent: "path_parent root = Some b \<Longrightarrow> b = butlast root" for b
    by (auto simp: path_parent_def split: if_splits)
  have "issues (bind_writes a root ?cur) go" if "?cur \<noteq> Some ''vfio-pci''"
    unfolding go_def bind_writes_def if_not_P [OF that]
    by (intro issues_bind issues_bind_one issues_lift_bind issues_intro)
      (auto intro!: issues_intro dest: parent)
  moreover have "bind_vfio E a root s = (if ?cur = Some ''vfio-pci'' then retE () s else go s)"
    by (simp add: bind_vfio_def look_bind go_def)
  ultimately show ?thesis
    using assms issuesD [of "bind_writes a root ?cur" go s r t]
    by (cases "?cur = Some ''vfio-pci''") (simp_all add: retE_def bind_writes_def is_ok_unit)
qed

lemma bind_vfio_sequence_witness:
  "\<exists>new. history (snd (bind_vfio (sample_dm full_config) ''0000:00:02.0'' [''pci'', ''devices'']
      (plugged_manager full_config []))) = new \<and>
     map fst new = bind_writes ''0000:00:02.0'' [''pci'', ''devices''] (Some ''e1000e'')"
proof -
  let ?s = "plugged_manager full_config []"
  let ?x = "bind_vfio (sample_dm full_config) ''0000:00:02.0'' [''pci'', ''devices''] ?s"
  have ok: "fst ?x = Inr ()" and cur: "fs_driver (sample_dm full_config)
      ([''pci'', ''devices''] @ [''0000:00:02.0'']) (kern ?s) = Some ''e1000e''"
    by code_simp+
  show ?thesis using bind_vfio_sequence [OF surjective_pairing [of ?x]] unfolding ok cur by auto
qed

section \<open>Attaching\<close>

definition passed_through :: "pci_device \<Rightarrow> rule_match \<Rightarrow> string list \<Rightarrow> string list" where
  "passed_through d r g = (if iommu_add_all r then group_or_self (address d) g else [address d])"

definition is_vfio_add :: "effect \<Rightarrow> bool" where
  "is_vfio_add e \<longleftrightarrow> (\<exists>B p so. e = request B [''vfio'', ''add'', p, so])"

text \<open>The stages of an attach that went through the binding of its group.\<close>

lemma attach_pci_to_stages:
  assumes "attach_pci_to D d r v s = (res, t)"
  obtains (early) "emits_at (\<lambda>x. \<not> is_vfio_add (fst x)) (\<lambda>u. (res, t)) s" and "res \<noteq> Inr ()"
  | (bound) live s1 g s2 where
      "vfio_list D (crosvm D) (vm_socket v) s = (Inr live, s1)"
      "iommu_group D (address d) (pci_root D) (kern s1) = Inr g"
      "\<not> (iommu_skip_if_shared r \<and> 1 < length g)"
      "forE (group_or_self (address d) g) (\<lambda>a. bind_vfio D a (pci_root D)) s1 = (Inr (), s2)"
      "bindE (getE (\<lambda>s. list_ex (\<lambda>a. pci_vms s a \<noteq> Some (vm_name v)) (passed_through d r g))) (\<lambda>unrecorded.
        bindE (forE (passed_through d r g) (add_missing D (vm_socket v) live)) (\<lambda>_.
        bindE (modE (record_pci (passed_through d r g) (vm_name v))) (\<lambda>_.
        bindE (set_disconnected D (pci_persistent_id d) False) (\<lambda>_.
        if unrecorded \<or> list_ex (\<lambda>a. vfio_path a \<notin> set live) (passed_through d r g)
        then notify (PciAttached d (vm_name v)) else retE ())))) s2 = (res, t)"
proof -
  let ?A = "\<lambda>x. \<not> is_vfio_add (fst x)"
  let ?list = "ctxE ''VFIO hotplug preflight failed'' (vfio_list D (crosvm D) (vm_socket v))"
  have quiet_list: "emits ?A ?list"
    by (intro emits_intro) (auto simp: is_vfio_add_def)
  have quiet_bind: "emits ?A (forE as (\<lambda>a. bind_vfio D a (pci_root D)))" for as
    by (intro emits_forE emits_bind_vfio) (auto simp: is_vfio_add_def bind_effect_def)
  obtain rl s1 where l: "?list s = (rl, s1)" by fastforce
  have at1: "emits_at ?A (\<lambda>u. (res, s1)) s"
    using emits_at_emits [OF quiet_list, of s] l by (simp add: emits_at_def)
  show thesis
  proof (cases "\<exists>live g. rl = Inr live \<and> iommu_group D (address d) (pci_root D) (kern s1) = Inr g \<and>
      \<not> (iommu_skip_if_shared r \<and> 1 < length g)")
    case False
    then have "t = s1 \<and> res \<noteq> Inr ()"
      using assms l
      by (cases rl)
        (auto simp: attach_pci_to_def bindE_apply [of ?list] look_result_bind failE_def
          split: sum.splits if_splits)
    then show thesis using at1 early by simp
  next
    case True
    then obtain live g where rl: "rl = Inr live"
      and g: "iommu_group D (address d) (pci_root D) (kern s1) = Inr g"
      and alone: "\<not> (iommu_skip_if_shared r \<and> 1 < length g)" by blast
    let ?bind = "forE (group_or_self (address d) g) (\<lambda>a. bind_vfio D a (pci_root D))"
    obtain rb s2 where b: "?bind s1 = (rb, s2)" by fastforce
    note run = assms [unfolded attach_pci_to_def bindE_apply [of ?list] l rl sum.case prod.case
        look_result_bind g if_not_P [OF alone] Let_def bindE_apply [of ?bind] b,
        folded passed_through_def]
    show thesis
    proof (cases rb)
      case (Inl e)
      obtain n1 where n1: "history s1 = history s @ n1" "list_all ?A n1"
        using at1 by (auto simp: emits_at_def)
      obtain n2 where "history s2 = history s1 @ n2" "list_all ?A n2"
        using emitsD [OF quiet_bind b] by blast
      then have "emits_at ?A (\<lambda>u. (res, t)) s" using run Inl n1 by (auto simp: emits_at_def)
      moreover have "res \<noteq> Inr ()" using run Inl by auto
      ultimately show thesis by (rule early)
    next
      case (Inr u)
      have "vfio_list D (crosvm D) (vm_socket v) s = (Inr live, s1)"
        using l rl by (simp add: ctxE_apply prod_eq_iff)
      then show thesis using bound [OF _ g alone] b Inr run by simp
    qed
  qed
qed

text \<open>C22: the whole IOMMU group is quarantined first. Every command that adds a function to a VM
  is issued only after that VM's Crosvm has listed what it has, the device's group was read from
  the sysfs in the kernel state after that answer, and from there on every member of the group
  was bound to vfio-pci successfully; before that no such command was issued.\<close>

theorem quarantine_before_hotplug:
  assumes "attach_pci_to D d r v s = (res, t)"
    and "x \<in> fresh_effects s t" and "is_vfio_add (fst x)"
  shows "\<exists>live s1 g s2. vfio_list D (crosvm D) (vm_socket v) s = (Inr live, s1) \<and>
     iommu_group D (address d) (pci_root D) (kern s1) = Inr g \<and>
     \<not> (iommu_skip_if_shared r \<and> 1 < length g) \<and>
     forE (group_or_self (address d) g) (\<lambda>a. bind_vfio D a (pci_root D)) s1 = (Inr (), s2) \<and>
     (\<forall>y\<in>fresh_effects s s2. \<not> is_vfio_add (fst y)) \<and> x \<in> fresh_effects s2 t"
  using assms(1)
proof (cases rule: attach_pci_to_stages)
  case early
  then show ?thesis using assms(2,3) by (auto simp: emits_at_def fresh_effects_def list_all_iff)
next
  case (bound live s1 g s2)
  have quiet: "emits (\<lambda>x. \<not> is_vfio_add (fst x)) (vfio_list D (crosvm D) (vm_socket v))"
    "emits (\<lambda>x. \<not> is_vfio_add (fst x)) (forE as (\<lambda>a. bind_vfio D a (pci_root D)))" for as
    by (intro emits_intro emits_bind_vfio; auto simp: is_vfio_add_def bind_effect_def)+
  obtain n1 where n1: "history s1 = history s @ n1" "list_all (\<lambda>x. \<not> is_vfio_add (fst x)) n1"
    using emitsD [OF quiet(1) bound(1)] by blast
  obtain n2 where n2: "history s2 = history s1 @ n2" "list_all (\<lambda>x. \<not> is_vfio_add (fst x)) n2"
    using emitsD [OF quiet(2) bound(4)] by blast
  have tail: "emits (\<lambda>_. True) (bindE (getE h) (\<lambda>unrecorded.
        bindE (forE as (add_missing D (vm_socket v) live)) (\<lambda>_.
        bindE (modE (record_pci as (vm_name v))) (\<lambda>_.
        bindE (set_disconnected D i False) (\<lambda>_.
        if unrecorded \<or> z then notify n else retE ())))))" for h as i z n
    unfolding add_missing_def by (intro emits_intro) (simp_all add: record_pci_def)
  obtain n3 where n3: "history t = history s2 @ n3" using emitsD [OF tail bound(5)] by blast
  have "x \<notin> set n1 \<union> set n2" using n1(2) n2(2) assms(3) by (auto simp: list_all_iff)
  then have "x \<in> fresh_effects s2 t"
    using assms(2) n1(1) n2(1) n3 by (auto simp: fresh_effects_append)
  moreover have "\<forall>y\<in>fresh_effects s s2. \<not> is_vfio_add (fst y)"
    using n1 n2 by (auto simp: fresh_effects_append list_all_iff)
  ultimately show ?thesis using bound by blast
qed

lemma attach_one_pci_recorded:
  assumes "attach_one_pci D d r requested s = (Inr (), t)"
  shows "\<exists>v live s1 g. v \<in> set (vms (cfg D)) \<and> target_vm r = Some (vm_name v) \<and>
     (requested = None \<or> requested = Some (vm_name v)) \<and>
     vfio_list D (crosvm D) (vm_socket v) s = (Inr live, s1) \<and>
     iommu_group D (address d) (pci_root D) (kern s1) = Inr g \<and>
     \<not> (iommu_skip_if_shared r \<and> 1 < length g) \<and>
     (\<forall>a\<in>set (passed_through d r g).
        \<exists>x\<in>fresh_effects s t. shown D (crosvm D) (vm_socket v) True a x) \<and>
     pci_vms t = (\<lambda>a. if a \<in> set (passed_through d r g) then Some (vm_name v) else pci_vms s a) \<and>
     \<not> disconnected (persistent t) (pci_persistent_id d)"
proof -
  obtain v where v: "v \<in> set (vms (cfg D))" "target_vm r = Some (vm_name v)"
      "requested = None \<or> requested = Some (vm_name v)"
    and to: "attach_pci_to D d r v s = (Inr (), t)"
    using assms
    by (auto simp: attach_one_pci_def bindE_Inr_iff pure_Inr_iff Let_def dest: find_vm_Inr
        split: if_splits option.splits)
  from to show ?thesis
  proof (cases rule: attach_pci_to_stages)
    case (bound live s1 g s2)
    let ?pass = "passed_through d r g"
    let ?add = "forE ?pass (add_missing D (vm_socket v) live)"
    obtain s3 s4 where add: "?add s2 = (Inr (), s3)"
      and disc: "set_disconnected D (pci_persistent_id d) False (record_pci ?pass (vm_name v) s3) = (Inr (), s4)"
      and last: "(if list_ex (\<lambda>a. pci_vms s2 a \<noteq> Some (vm_name v)) ?pass \<or>
             list_ex (\<lambda>a. vfio_path a \<notin> set live) ?pass
          then notify (PciAttached d (vm_name v)) else retE ()) s4 = (Inr (), t)"
      using bound(5) by (auto simp: bind_pure bindE_Inr_iff)
    have k: "kernel_only ?add" "kernel_only (forE (group_or_self (address d) g) (\<lambda>a. bind_vfio D a (pci_root D)))"
      "kernel_only (if b then notify (PciAttached d (vm_name v)) else retE ())" for b
      by (intro kernel_only_intro)+
    have m3: "same_memory s s3"
      using kernel_onlyD [OF kernel_only_vfio_list bound(1)] kernel_onlyD [OF k(2) bound(4)]
        kernel_onlyD [OF k(1) add] by (blast intro: same_memory_trans)
    have "same_memory (record_pci ?pass (vm_name v) s3
        \<lparr>persistent := mark_disconnected (pci_persistent_id d) False
           (persistent (record_pci ?pass (vm_name v) s3))\<rparr>) t"
      using set_disconnected_memory [OF disc] kernel_onlyD [OF k(3) last] same_memory_trans by blast
    note mt = same_memory_fields [OF this]
    have mem: "pci_vms t = (\<lambda>a. if a \<in> set ?pass then Some (vm_name v) else pci_vms s a)"
      "\<not> disconnected (persistent t) (pci_persistent_id d)"
      using same_memory_fields(3) [OF m3]
      by (simp_all add: mt record_pci_def disc.lookup_put_same cong: if_cong)
    have ext: "emits (\<lambda>_. True) (set_disconnected D i w)"
      "emits (\<lambda>_. True) (if b then notify n else retE ())"
      "emits (\<lambda>_. True) (forE as (\<lambda>a. bind_vfio D a (pci_root D)))"
      "emits (\<lambda>_. True) ?add" for i w b n as
      unfolding add_missing_def by (intro emits_intro emits_bind_vfio; simp)+
    obtain n1 where n1: "history s1 = history s @ n1" using emitsD [OF emits_True_vfio(1) bound(1)] by blast
    obtain n2 where n2: "history s2 = history s1 @ n2" using emitsD [OF ext(3) bound(4)] by blast
    obtain n3 where n3: "history s3 = history s2 @ n3" using emitsD [OF ext(4) add] by blast
    obtain n4 where n4: "history s4 = history (record_pci ?pass (vm_name v) s3) @ n4"
      using emitsD [OF ext(1) disc] by blast
    obtain n5 where n5: "history t = history s4 @ n5" using emitsD [OF ext(2) last] by blast
    have all: "fresh_effects s s1 \<subseteq> fresh_effects s t" "fresh_effects s2 s3 \<subseteq> fresh_effects s t"
      using n1 n2 n3 n4 n5 by (auto simp: fresh_effects_append record_pci_def)
    have "\<exists>x\<in>fresh_effects s t. shown D (crosvm D) (vm_socket v) True a x" if "a \<in> set ?pass" for a
    proof (cases "vfio_path a \<in> set live")
      case True
      then show ?thesis using vfio_list_shown [OF bound(1), of a] all(1) by auto
    next
      case False
      have "\<exists>x\<in>fresh_effects s2 s3. shown D (crosvm D) (vm_socket v) True a x"
        by (rule add_step.chosen_changes_seen [where P = "\<lambda>a. vfio_path a \<in> set live",
              OF add [unfolded add_missing_def [abs_def]] that False])
      then show ?thesis using all(2) by blast
    qed
    then show ?thesis using v bound(1,2,3) mem by blast
  qed simp
qed

text \<open>C24: a PCI attach that reports success is verified and recorded. The VM is the rule's
  target, whoever asked; a rule that skips shared groups is not applied to one; every function
  passed through was listed by that VM's Crosvm during the attach and is recorded for it, no
  other record changed, and the device is no longer marked disconnected.\<close>

theorem attach_pci_verified:
  assumes "attach_one_pci D d r requested s = (Inr (), t)"
  shows "\<exists>v k g. v \<in> set (vms (cfg D)) \<and> target_vm r = Some (vm_name v) \<and>
     (requested = None \<or> requested = Some (vm_name v)) \<and>
     iommu_group D (address d) (pci_root D) k = Inr g \<and>
     \<not> (iommu_skip_if_shared r \<and> 1 < length g) \<and>
     (\<forall>a\<in>set (passed_through d r g).
        \<exists>x\<in>fresh_effects s t. shown D (crosvm D) (vm_socket v) True a x) \<and>
     pci_vms t = (\<lambda>a. if a \<in> set (passed_through d r g) then Some (vm_name v) else pci_vms s a) \<and>
     \<not> disconnected (persistent t) (pci_persistent_id d)"
  using attach_one_pci_recorded [OF assms] by blast

text \<open>The network card attached to the network VM, whose Crosvm shows it after the add.\<close>

definition nic_manager :: "disk manager" where
  "nic_manager =
     plugged_manager full_config
       [reply ''devices'', reply ''devices'', reply ''ok'',
        reply ''devices /sys/bus/pci/devices/0000:00:02.0'']"

definition nic :: pci_device where
  "nic = pci_device_at (sample_dm full_config) [''pci'', ''devices''] (plugged_disk []) ''0000:00:02.0''"

definition nic_match :: rule_match where
  "nic_match = the (pci_rule full_config nic)"

lemma attach_pci_verified_witness:
  "pci_vms (snd (attach_one_pci (sample_dm full_config) nic nic_match None nic_manager)) ''0000:00:02.0'' =
     Some ''net''"
proof -
  let ?x = "attach_one_pci (sample_dm full_config) nic nic_match None nic_manager"
  have ok: "fst ?x = Inr ()" and rule: "target_vm nic_match = Some ''net''" "\<not> iommu_add_all nic_match"
    and addr: "address nic = ''0000:00:02.0''"
    by code_simp+
  have run: "?x = (Inr (), snd ?x)" using ok by (simp add: prod_eq_iff)
  show ?thesis
    using attach_pci_verified [OF run] rule addr by (auto simp: passed_through_def)
qed

lemma quarantine_before_hotplug_witness:
  "\<exists>live s1 g s2. vfio_list (sample_dm full_config) [''crosvm''] [''net.sock''] nic_manager = (Inr live, s1) \<and>
     fs_driver (sample_dm full_config) [''pci'', ''devices'', ''0000:00:02.0''] (kern s1) = Some ''e1000e'' \<and>
     forE (group_or_self ''0000:00:02.0'' g)
      (\<lambda>a. bind_vfio (sample_dm full_config) a [''pci'', ''devices'']) s1 = (Inr (), s2) \<and>
     fresh_effects s2 (snd (attach_pci_to (sample_dm full_config) nic nic_match net_vm nic_manager)) \<noteq> {}"
proof -
  let ?D = "sample_dm full_config"
  let ?x = "attach_pci_to ?D nic nic_match net_vm nic_manager"
  have len: "5 < length (history (snd ?x))"
    and at: "fst (history (snd ?x) ! 5) = request [''crosvm''] [''vfio'', ''add'',
      ''/sys/bus/pci/devices/0000:00:02.0'', ''net.sock'']"
    and addr: "address nic = ''0000:00:02.0''" "pci_root ?D = [''pci'', ''devices'']"
      "crosvm ?D = [''crosvm'']" "vm_socket net_vm = [''net.sock'']"
    and drv: "fs_driver ?D [''pci'', ''devices'', ''0000:00:02.0'']
      (kern (snd (vfio_list ?D [''crosvm''] [''net.sock''] nic_manager))) = Some ''e1000e''"
    by code_simp+
  have m: "history (snd ?x) ! 5 \<in> fresh_effects nic_manager (snd ?x)"
    using nth_mem [OF len] by (simp add: fresh_effects_def nic_manager_def)
  have "is_vfio_add (fst (history (snd ?x) ! 5))" unfolding at is_vfio_add_def by blast
  from quarantine_before_hotplug [OF surjective_pairing m this] drv show ?thesis
    unfolding addr by fastforce
qed

end
