(* ===== verification/Config_Properties.thy ===== *)
theory Config_Properties
  imports Sample_Host
begin

text \<open>
  The properties of rule matching and of the validated configuration: which rule a device
  gets, how rules are ordered, that the module cache changes nothing, and what validation
  guarantees about VM names.
\<close>

section \<open>USB rules\<close>

text \<open>C29: a USB device with a classified interface gets the first rule that applies: an enabled
  rule that names a VM, as \<open>targetVm\<close> or in \<open>allowedVms\<close>, with at least one enabled allow selector
  that matches and no enabled deny selector that does. A rule that names no VM is passed over even
  when its selectors match; disabled rules and disabled selectors are as if absent, and a deny
  always beats an allow of the same rule.\<close>

theorem usb_rule_first_match:
  assumes "has_valid_interface d"
    and applies: "\<And>rule. applies rule \<longleftrightarrow>
      enabled rule \<and>
      (string_field rule ''targetVm'' \<noteq> None \<or> string_list rule ''allowedVms'' \<noteq> []) \<and>
      (\<exists>a\<in>set (items rule ''allow''). enabled a \<and> usb_selector_matches E c a d) \<and>
      (\<forall>x\<in>set (items rule ''deny''). enabled x \<longrightarrow> \<not> usb_selector_matches E c x d)"
  shows "usb_rule E c d = Some r \<longleftrightarrow>
     (\<exists>before_it rule after. usb_passthrough c = before_it @ rule # after \<and> applies rule \<and>
        (\<forall>x\<in>set before_it. \<not> applies x) \<and> r = usb_rule_match rule)"
proof -
  have same: "usb_rule_applies E c d rule \<longleftrightarrow> applies rule" for rule
    using usb_sel.rule_matches_iff [OF assms(1)] by (auto simp: usb_rule_applies_def applies)
  show ?thesis
  proof
    assume "usb_rule E c d = Some r"
    then show "\<exists>before_it rule after. usb_passthrough c = before_it @ rule # after \<and> applies rule \<and>
        (\<forall>x\<in>set before_it. \<not> applies x) \<and> r = usb_rule_match rule"
      by (elim usb_rule_Some) (auto simp: same)
  next
    assume "\<exists>before_it rule after. usb_passthrough c = before_it @ rule # after \<and> applies rule \<and>
        (\<forall>x\<in>set before_it. \<not> applies x) \<and> r = usb_rule_match rule"
    then obtain pre rule post where "usb_passthrough c = pre @ rule # post" "applies rule"
      "\<forall>x\<in>set pre. \<not> applies x" "r = usb_rule_match rule" by blast
    moreover from this(3) have "find applies pre = None" by (simp add: find_None_iff)
    then have "find applies (pre @ rule # post) = Some rule" if "applies rule"
      using that by (induction pre) (auto split: if_splits)
    moreover have "usb_rule_applies E c d = applies" by (simp add: fun_eq_iff same)
    ultimately show "usb_rule E c d = Some r" by (simp add: usb_rule_def)
  qed
qed

lemma usb_rule_first_match_witness:
  "\<exists>before_it rule after. usb_passthrough sample_config = before_it @ rule # after \<and>
     usb_rule (sample_dm sample_config) sample_config keyboard = Some (usb_rule_match rule)"
proof -
  have "has_valid_interface keyboard" and s: "usb_rule (sample_dm sample_config) sample_config keyboard \<noteq> None"
    by code_simp+
  then show ?thesis
    using usb_rule_first_match [OF \<open>has_valid_interface keyboard\<close> refl,
        of "sample_dm sample_config" sample_config] by fastforce
qed

text \<open>C30: a disabled selector can still match. For a device without a classified interface the
  \<open>driverPath\<close> of a selector is consulted whether or not the selector is enabled, so a rule whose
  only allow selector is disabled routes the device when the path of a bound driver matches.\<close>

theorem disabled_driver_path_matches:
  assumes "\<not> has_valid_interface d" and "get_str sel ''driverPath'' = Some p"
    and "regex E (''^(?:'' @ p @ '')'') = Some m" and "\<exists>x\<in>set (driver_paths d). m x"
    and "enabled rule" and "items rule ''allow'' = [sel]" and "items rule ''deny'' = []"
    and "string_field rule ''targetVm'' = Some v" and "usb_passthrough c = [rule]"
  shows "usb_rule E c d = Some (usb_rule_match rule)"
  using assms
  by (auto simp: usb_rule_def usb_rule_applies_def rule_matches_def usb_selector_matches_def list_ex_iff)

definition disabled_selector :: json where
  "disabled_selector = JObj [(''disable'', JBool True), (''driverPath'', JStr ''uas'')]"

lemma disabled_driver_path_matches_witness:
  "\<not> enabled disabled_selector \<and>
   usb_rule (sample_dm sample_config)
     (sample_config\<lparr>usb_passthrough :=
        [JObj [(''targetVm'', JStr ''gui''), (''allow'', JArr [disabled_selector])]]\<rparr>)
     (keyboard\<lparr>interfaces := [], driver_paths := [''uas'']\<rparr>) \<noteq> None"
proof
  let ?rule = "JObj [(''targetVm'', JStr ''gui''), (''allow'', JArr [disabled_selector])]"
  let ?d = "keyboard\<lparr>interfaces := [], driver_paths := [''uas'']\<rparr>"
  show "\<not> enabled disabled_selector" by code_simp
  have "\<not> has_valid_interface ?d" "get_str disabled_selector ''driverPath'' = Some ''uas''"
    "enabled ?rule" "items ?rule ''allow'' = [disabled_selector]" "items ?rule ''deny'' = []"
    "string_field ?rule ''targetVm'' = Some ''gui''"
    by code_simp+
  moreover have "regex (sample_dm sample_config) (''^(?:'' @ ''uas'' @ '')'') =
      Some (\<lambda>s. ''^(?:'' @ s @ '')'' = ''^(?:'' @ ''uas'' @ '')'')"
    by (simp add: sample_dm_def)
  ultimately show "usb_rule (sample_dm sample_config) (sample_config\<lparr>usb_passthrough := [?rule]\<rparr>) ?d \<noteq> None"
    using disabled_driver_path_matches [of ?d disabled_selector "''uas''" "sample_dm sample_config"
        _ ?rule "''gui''" "sample_config\<lparr>usb_passthrough := [?rule]\<rparr>"] by simp
qed

section \<open>PCI rules\<close>

lemma try_allow_none:
  "\<forall>a\<in>set as. \<not> pci_selector_matches a d \<Longrightarrow> try_allow d n (as @ bs) = try_allow d (n + length as) bs"
  by (induction as arbitrary: n) auto

lemma pci_rule_from_skip:
  assumes "\<forall>p\<in>set pre. enabled p \<longrightarrow> (\<forall>a\<in>set (items p ''allow''). \<not> pci_selector_matches a d)"
  shows "pci_rule_from d n (pre @ rules) =
     pci_rule_from d (n + sum_list (map (\<lambda>p. length (items p ''allow'')) (filter enabled pre))) rules"
  using assms
proof (induction pre arbitrary: n)
  case (Cons p pre)
  show ?case
  proof (cases "enabled p")
    case True
    then have "try_allow d n (items p ''allow'') = (False, n + length (items p ''allow''))"
      using Cons.prems try_allow_none [of "items p ''allow''" d n "[]"] by simp
    then show ?thesis using True Cons by (simp add: add.assoc split: option.split)
  next
    case False
    then show ?thesis using Cons by simp
  qed
qed simp

text \<open>The order of a PCI match is the position of the allow entry that made it. When no earlier
  enabled rule has a matching allow entry, the first enabled rule with a target whose allow list
  matches, and whose deny list does not, is the one the function gets, and its order is one plus
  the number of allow entries before the matching one over all enabled rules.\<close>

theorem pci_rule_position:
  assumes "pci_passthrough c = pre @ rule # post"
    and "\<forall>p\<in>set pre. enabled p \<longrightarrow> (\<forall>a\<in>set (items p ''allow''). \<not> pci_selector_matches a d)"
    and "enabled rule" and "items rule ''allow'' = as @ a # bs"
    and "\<forall>x\<in>set as. \<not> pci_selector_matches x d" and "pci_selector_matches a d"
    and "\<forall>x\<in>set (items rule ''deny''). \<not> pci_selector_matches x d"
    and "string_field rule ''targetVm'' = Some target"
  shows "pci_rule c d = Some (pci_rule_match rule target
     (Suc (sum_list (map (\<lambda>p. length (items p ''allow'')) (filter enabled pre)) + length as)))"
proof -
  let ?n = "sum_list (map (\<lambda>p. length (items p ''allow'')) (filter enabled pre))"
  have "try_allow d ?n (items rule ''allow'') = (True, Suc (?n + length as))"
    using try_allow_none [OF assms(5), of ?n "a # bs"] assms(4,6) by simp
  moreover have "\<not> list_ex (\<lambda>s. pci_selector_matches s d) (items rule ''deny'')"
    using assms(7) by (simp add: list_ex_iff)
  ultimately show ?thesis
    using assms(1,3,8) pci_rule_from_skip [OF assms(2), of 0 "rule # post"] by (simp add: pci_rule_def)
qed

definition other_nic_rule :: json where
  "other_nic_rule =
     JObj [(''targetVm'', JStr ''gui''),
           (''allow'', JArr [JObj [(''address'', JStr ''0000:00:03.0'')],
                             JObj [(''address'', JStr ''0000:00:04.0'')]])]"

definition sample_nic :: pci_device where
  "sample_nic =
     \<lparr>address = ''0000:00:02.0'', pci_driver = None, vendor_id = Some 0x8086, device_id = Some 0x1234,
      vendor_id_text = Some ''8086'', device_id_text = Some ''1234'', pci_vendor_name = None,
      pci_device_name = None, pci_class = None, pci_subclass = None, prog_if = None,
      pci_subsystem_vendor_id = None, pci_subsystem_id = None\<rparr>"

lemma pci_rule_position_witness:
  "pci_rule (sample_config\<lparr>pci_passthrough := [other_nic_rule, nic_rule]\<rparr>) sample_nic =
     Some (pci_rule_match nic_rule ''net'' 3)"
proof -
  let ?a = "JObj [(''vendorId'', JStr ''8086''), (''deviceId'', JStr ''1234'')]"
  have f: "list_all (\<lambda>a. \<not> pci_selector_matches a sample_nic) (items other_nic_rule ''allow'')"
    "enabled nic_rule" "items nic_rule ''allow'' = [] @ ?a # []" "pci_selector_matches ?a sample_nic"
    "list_all (\<lambda>a. \<not> pci_selector_matches a sample_nic) (items nic_rule ''deny'')"
    "string_field nic_rule ''targetVm'' = Some ''net''"
    "sum_list (map (\<lambda>p. length (items p ''allow'')) (filter enabled [other_nic_rule])) = 2"
    by code_simp+
  show ?thesis
    using pci_rule_position [of "sample_config\<lparr>pci_passthrough := [other_nic_rule, nic_rule]\<rparr>"
        "[other_nic_rule]" nic_rule "[]" sample_nic "[]" ?a "[]" "''net''"] f
    by (simp add: list_all_iff del: filter.simps)
qed

text \<open>Every PCI match is justified. The rule that a function gets is enabled, names its target,
  has an enabled allow entry that matches and no enabled deny entry that does, its settings are
  the rule's own, and its order lies between one and the number of allow entries up to and
  including that rule.\<close>

theorem pci_rule_justified:
  assumes "pci_rule c d = Some r"
  shows "\<exists>pre rule post target. pci_passthrough c = pre @ rule # post \<and> enabled rule \<and>
     string_field rule ''targetVm'' = Some target \<and> r = pci_rule_match rule target (order r) \<and>
     (\<exists>a\<in>set (items rule ''allow''). enabled a \<and> pci_selector_matches a d) \<and>
     (\<forall>x\<in>set (items rule ''deny''). enabled x \<longrightarrow> \<not> pci_selector_matches x d) \<and>
     1 \<le> order r \<and>
     order r \<le> sum_list (map (\<lambda>p. length (items p ''allow'')) (pre @ [rule]))"
proof -
  have "\<exists>pre rule post target. rules = pre @ rule # post \<and> enabled rule \<and>
     string_field rule ''targetVm'' = Some target \<and> r = pci_rule_match rule target (order r) \<and>
     (\<exists>a\<in>set (items rule ''allow''). pci_selector_matches a d) \<and>
     (\<forall>x\<in>set (items rule ''deny''). \<not> pci_selector_matches x d) \<and>
     Suc n \<le> order r \<and> order r \<le> n + sum_list (map (\<lambda>p. length (items p ''allow'')) (pre @ [rule]))"
    if "pci_rule_from d n rules = Some r" for n rules
    using that
  proof (induction rules arbitrary: n)
    case (Cons rule rules)
    obtain f m where ta: "try_allow d n (items rule ''allow'') = (f, m)" by fastforce
    note count = try_allow_count [OF ta] and found = try_allow_found [OF ta]
    let ?denied = "list_ex (\<lambda>s. pci_selector_matches s d) (items rule ''deny'')"
    show ?case
    proof (cases "enabled rule \<and> f \<and> \<not> ?denied \<and> string_field rule ''targetVm'' \<noteq> None")
      case True
      then obtain target where t: "string_field rule ''targetVm'' = Some target" by blast
      then have "r = pci_rule_match rule target m" using Cons.prems True ta by simp
      then have "r = pci_rule_match rule target (order r)" "order r = m"
        by (simp_all add: pci_rule_match_def)
      then show ?thesis
        using True t count found
        by (intro exI [of _ "[]"] exI [of _ rule] exI [of _ rules] exI [of _ target])
          (auto simp: list_ex_iff)
    next
      case False
      define n' where "n' = (if enabled rule then m else n)"
      have n': "n \<le> n'" "n' \<le> n + length (items rule ''allow'')" using count by (auto simp: n'_def)
      have "pci_rule_from d n' rules = Some r"
        using Cons.prems False ta by (auto simp: n'_def split: option.splits if_splits)
      from Cons.IH [OF this] obtain pre rule' post target where
        "rules = pre @ rule' # post" "enabled rule'" "string_field rule' ''targetVm'' = Some target"
        "r = pci_rule_match rule' target (order r)"
        "\<exists>a\<in>set (items rule' ''allow''). pci_selector_matches a d"
        "\<forall>x\<in>set (items rule' ''deny''). \<not> pci_selector_matches x d"
        "Suc n' \<le> order r"
        "order r \<le> n' + sum_list (map (\<lambda>p. length (items p ''allow'')) (pre @ [rule']))"
        by blast
      then show ?thesis
        using n' by (intro exI [of _ "rule # pre"] exI [of _ rule'] exI [of _ post] exI [of _ target]) auto
    qed
  qed simp
  from this [of 0 "pci_passthrough c"] assms show ?thesis
    using pci_sel.disabled_matches_nothing by (fastforce simp: pci_rule_def)
qed

lemma pci_rule_justified_witness:
  "\<exists>r pre rule post. pci_rule full_config sample_nic = Some r \<and>
     pci_passthrough full_config = pre @ rule # post \<and> enabled rule"
proof -
  have "pci_rule full_config sample_nic \<noteq> None" by code_simp
  then obtain r where r: "pci_rule full_config sample_nic = Some r" by blast
  from pci_rule_justified [OF r] r show ?thesis by blast
qed

section \<open>The module cache\<close>

fun cached_paths ::
  "('k, 'y) env_scheme \<Rightarrow> config \<Rightarrow> string list \<Rightarrow> driver_cache \<Rightarrow> string list list \<times> driver_cache" where
  "cached_paths E c [] cache = ([], cache)"
| "cached_paths E c (a # as) cache =
     (case module_paths E c a cache of
        (paths, cache') \<Rightarrow>
          (case cached_paths E c as cache' of (rest, cache'') \<Rightarrow> (paths # rest, cache'')))"

text \<open>The module cache changes nothing. Starting from the empty cache, any sequence of
  lookups returns for every modalias what resolving it directly returns, and what the cache
  then holds stays right for every later sequence.\<close>

theorem module_cache_transparent:
  "fst (cached_paths E c as (\<lambda>_. None)) = map (resolve_modules E c) as \<and>
   fst (cached_paths E c bs (snd (cached_paths E c as (\<lambda>_. None)))) = map (resolve_modules E c) bs"
proof -
  have run: "fst (cached_paths E c xs cache) = map (resolve_modules E c) xs \<and>
      cache_coherent E c (snd (cached_paths E c xs cache))"
    if "cache_coherent E c cache" for xs cache
    using that
  proof (induction xs arbitrary: cache)
    case (Cons x xs)
    obtain paths cache' where m: "module_paths E c x cache = (paths, cache')" by fastforce
    then show ?case
      using Cons.IH module_paths_coherent [OF Cons.prems m] by (simp add: case_prod_beta)
  qed simp
  have "cache_coherent E c (\<lambda>_. None)" by (simp add: cache_coherent_def)
  then show ?thesis using run by blast
qed

section \<open>Validation\<close>

text \<open>Validation accepts a configuration exactly when every VM is a Crosvm VM with a name and
  a socket and no two VMs share a name; a VM is then found by its name, and only it.\<close>

theorem validate_exact:
  "validate c = Inr () \<longleftrightarrow>
     (\<forall>v\<in>set (vms c). vm_kind v = CrosvmVm \<and> vm_name v \<noteq> [] \<and> vm_socket v \<noteq> []) \<and>
     inj_on vm_name (set (vms c)) \<and> distinct (vms c) \<and>
     (\<forall>v name. find_vm c name = Inr v \<longleftrightarrow> v \<in> set (vms c) \<and> vm_name v = name)"
proof -
  have found: "find_vm c name = Inr v \<longleftrightarrow> v \<in> set (vms c) \<and> vm_name v = name"
    if "inj_on vm_name (set (vms c))" for v name
  proof
    assume v: "v \<in> set (vms c) \<and> vm_name v = name"
    then obtain w where w: "find (\<lambda>v. vm_name v = name) (vms c) = Some w"
      by (cases "find (\<lambda>v. vm_name v = name) (vms c)") (auto simp: find_None_iff)
    then have "w \<in> set (vms c) \<and> vm_name w = name" using find_vm_Inr [of c name w] by (simp add: find_vm_def)
    then have "w = v" using v that by (auto simp: inj_on_def)
    then show "find_vm c name = Inr v" using w by (simp add: find_vm_def)
  qed (auto dest: find_vm_Inr)
  have "validate c = Inr () \<longleftrightarrow>
     (\<forall>v\<in>set (vms c). vm_kind v = CrosvmVm \<and> vm_name v \<noteq> [] \<and> vm_socket v \<noteq> []) \<and>
     inj_on vm_name (set (vms c)) \<and> distinct (vms c)"
    by (auto simp: validate_def check_vms_ok list_ex_iff distinct_map)
  then show ?thesis using found by blast
qed

lemma validate_exact_witness:
  "inj_on vm_name {gui_vm, net_vm} \<and> (find_vm full_config ''net'' = Inr net_vm)"
proof -
  have ok: "validate full_config = Inr ()" by code_simp
  have vms: "set (vms full_config) = {gui_vm, net_vm}"
    by (simp add: full_config_def sample_config_def)
  note all = validate_exact [of full_config, THEN iffD1, OF ok, unfolded vms]
  have "vm_name net_vm = ''net''" by (simp add: net_vm_def)
  with all show ?thesis by simp
qed

end
