(* ===== verification/Device_Properties.thy ===== *)
theory Device_Properties
  imports Sample_Host
begin

text \<open>
  The properties of the device scan: the descriptor parser against the format it reads, the
  device-number arithmetic, the closure that finds what backs a mounted filesystem, and what
  a scan leaves out.
\<close>

section \<open>Descriptors\<close>

text \<open>A descriptor as USB defines it: its first byte is its own length.\<close>

definition descriptor :: "8 word list \<Rightarrow> bool" where
  "descriptor rec \<longleftrightarrow> 2 \<le> length rec \<and> unat (rec ! 0) = length rec"

definition is_interface :: "8 word list \<Rightarrow> bool" where
  "is_interface rec \<longleftrightarrow> rec ! 1 = 4 \<and> 9 \<le> length rec"

definition interface_of :: "8 word list \<Rightarrow> 8 word \<times> usb_interface" where
  "interface_of rec =
     (rec ! 2, \<lparr>iclass = Some (ucast (rec ! 5)), isubclass = Some (ucast (rec ! 6)),
                iprotocol = Some (ucast (rec ! 7))\<rparr>)"

text \<open>What the blob may end with: nothing, one byte, or a record that does not fit.\<close>

definition broken_tail :: "8 word list \<Rightarrow> bool" where
  "broken_tail rest \<longleftrightarrow> length rest < 2 \<or> unat (rest ! 0) < 2 \<or> length rest < unat (rest ! 0)"

lemma parse_descriptors_from:
  assumes "\<forall>rec\<in>set recs. descriptor rec" and "broken_tail rest"
  shows "parse_descriptors (before_it @ concat recs @ rest) (length before_it) =
     map interface_of (filter is_interface recs)"
  using assms(1)
proof (induction recs arbitrary: before_it)
  case Nil
  then show ?case
    using assms(2) parse_descriptors.simps [of "before_it @ rest" "length before_it"]
    by (auto simp: broken_tail_def nth_append Let_def)
next
  case (Cons rec recs)
  let ?ds = "before_it @ rec @ concat recs @ rest"
  have rec: "2 \<le> length rec" "unat (rec ! 0) = length rec"
    using Cons.prems by (simp_all add: descriptor_def)
  have at: "?ds ! (length before_it + i) = rec ! i" if "i < length rec" for i
    using that by (simp add: nth_append)
  have pos: "0 < length rec" "1 < length rec" using rec(1) by linarith+
  have head: "?ds ! length before_it = rec ! 0" and second: "?ds ! (length before_it + 1) = rec ! 1"
    using at [OF pos(1)] at [OF pos(2)] by simp_all
  have iface: "interface_at ?ds (length before_it) = interface_of rec" if "is_interface rec"
  proof -
    have "9 \<le> length rec" using that by (simp add: is_interface_def)
    then show ?thesis
      using at [of 2] at [of 5] at [of 6] at [of 7] by (simp add: interface_at_def interface_of_def)
  qed
  have step: "parse_descriptors ?ds (length before_it) =
      (if is_interface rec then [interface_at ?ds (length before_it)] else []) @
      parse_descriptors ?ds (length before_it + length rec)"
    using rec head second
    by (subst parse_descriptors.simps) (simp add: Let_def is_interface_def)
  have "parse_descriptors ((before_it @ rec) @ concat recs @ rest) (length (before_it @ rec)) =
      map interface_of (filter is_interface recs)"
    by (rule Cons.IH) (use Cons.prems in simp)
  then show ?case using step iface by (cases "is_interface rec") simp_all
qed

text \<open>The descriptor parser reads its format. On any sequence of descriptors, each as long as
  its first byte says, followed by anything that is not a complete descriptor, it returns exactly
  the interface descriptors in order, each with its number and class triple, and the broken end
  adds nothing.\<close>

theorem parse_descriptors_exact:
  assumes "\<forall>rec\<in>set recs. descriptor rec" and "broken_tail rest"
  shows "parse_descriptors (concat recs @ rest) 0 = map interface_of (filter is_interface recs)"
  using parse_descriptors_from [OF assms, of "[]"] by simp

lemma parse_descriptors_exact_witness:
  "parse_descriptors [3, 2, 0, 9, 4, 1, 0, 0, 14, 1, 0, 0, 9, 4] 0 =
     [(1, \<lparr>iclass = Some 14, isubclass = Some 1, iprotocol = Some 0\<rparr>)]"
proof -
  let ?recs = "[[3, 2, 0], [9, 4, 1, 0, 0, 14, 1, 0, 0]] :: 8 word list list"
  have "\<forall>rec\<in>set ?recs. descriptor rec" by (simp add: descriptor_def)
  moreover have "broken_tail [9, 4]" by (simp add: broken_tail_def)
  ultimately have "parse_descriptors (concat ?recs @ [9, 4]) 0 =
      map interface_of (filter is_interface ?recs)"
    by (rule parse_descriptors_exact)
  then show ?thesis by (simp add: is_interface_def interface_of_def)
qed

section \<open>Device numbers\<close>

text \<open>The kernel's encoding of a device number: 12 bits of major and 20 of minor.\<close>

definition new_encode_dev :: "64 word \<Rightarrow> 64 word \<Rightarrow> 64 word" where
  "new_encode_dev major minor =
     (take_bit 8 minor OR push_bit 8 major) OR push_bit 20 (drop_bit 8 minor)"

lemma bit_bound: "unat (x :: 64 word) < 2 ^ n \<Longrightarrow> bit x m \<Longrightarrow> m < n"
proof (rule ccontr)
  assume x: "unat x < 2 ^ n" "bit x m" and m: "\<not> m < n"
  then have "unat x < 2 ^ m" by (meson le_less_trans not_le order.strict_trans2 power_increasing one_le_numeral)
  moreover have "bit (unat x) m" using x(2) by (simp add: bit_unsigned_iff bit_imp_le_length)
  ultimately show False by (simp add: bit_iff_odd)
qed

lemma dev_masks:
  "(0xfff :: 64 word) = mask 12" "(0xff :: 64 word) = mask 8"
  "(0xfffff000 :: 64 word) = push_bit 12 (mask 20)" "(0xfffff00 :: 64 word) = push_bit 8 (mask 20)"
  by (simp_all add: mask_eq_exp_minus_1 push_bit_eq_mult)

text \<open>The device-number arithmetic inverts the kernel's encoding: the major and minor numbers
  that \<open>/proc/swaps\<close> entries are compared by are those of the device, for every major of 12 bits
  and every minor of 20.\<close>

theorem device_number_roundtrip:
  assumes "unat major < 2 ^ 12" and "unat minor < 2 ^ 20"
  shows "linux_major (new_encode_dev major minor) = major \<and>
     linux_minor (new_encode_dev major minor) = minor"
proof
  note b = bit_bound [OF assms(1)] bit_bound [OF assms(2)]
  show "linux_major (new_encode_dev major minor) = major"
    unfolding linux_major_def new_encode_dev_def dev_masks
    by (rule bit_eqI) (auto simp: bit_simps dest: b)
  show "linux_minor (new_encode_dev major minor) = minor"
    unfolding linux_minor_def new_encode_dev_def dev_masks
    by (rule bit_eqI) (auto simp: bit_simps dest: b)
qed

lemma device_number_roundtrip_witness:
  "linux_major (new_encode_dev 259 70000) = 259 \<and> linux_minor (new_encode_dev 259 70000) = 70000"
  by (rule device_number_roundtrip) simp_all

section \<open>Host storage\<close>

text \<open>What a set of block devices backs: itself, and every block device stacked on one of it.\<close>

inductive backed :: "(string \<times> block_device) list \<Rightarrow> string list \<Rightarrow> string \<Rightarrow> bool"
  for blocks start where
  base: "n \<in> set start \<Longrightarrow> backed blocks start n"
| stacked: "backed blocks start m \<Longrightarrow> (n, b) \<in> set blocks \<Longrightarrow> m \<in> set (slaves b) \<Longrightarrow>
    backed blocks start n"

inductive_cases backedE: "backed blocks start n"

lemma close_backing_sound:
  assumes "\<forall>n\<in>set found. backed blocks start n"
  shows "\<forall>n\<in>set (close_backing blocks found). backed blocks start n"
  using assms
proof (induction blocks found rule: close_backing.induct)
  case (1 blocks found)
  have new: "backed blocks start n" if "n \<in> set (dependents blocks found)" for n
    using that 1(2) by (auto simp: dependents_mem intro: stacked)
  show ?case
  proof (cases "dependents blocks found = []")
    case True
    then show ?thesis using 1(2) by (subst close_backing.simps) simp
  next
    case False
    then show ?thesis
      using 1(1) [OF refl False] 1(2) new by (subst close_backing.simps) (auto simp: Let_def)
  qed
qed

lemma close_backing_closed:
  "set found \<subseteq> set (close_backing blocks found) \<and> dependents blocks (close_backing blocks found) = []"
proof (induction blocks found rule: close_backing.induct)
  case (1 blocks found)
  show ?case
  proof (cases "dependents blocks found = []")
    case True
    then have "close_backing blocks found = found" by (subst close_backing.simps) simp
    then show ?thesis using True by simp
  next
    case False
    then have "close_backing blocks found = close_backing blocks (found @ dependents blocks found)"
      by (subst close_backing.simps) (simp add: Let_def)
    then show ?thesis using 1 [OF refl False] by simp
  qed
qed

lemma close_backing_exact_set: "set (close_backing blocks start) = {n. backed blocks start n}"
proof (intro set_eqI iffI CollectI; (drule CollectD)?)
  fix n
  show "n \<in> set (close_backing blocks start) \<Longrightarrow> backed blocks start n"
    using close_backing_sound [of start blocks start] by (auto intro: base)
next
  fix n
  assume "backed blocks start n"
  then show "n \<in> set (close_backing blocks start)"
  proof induction
    case (base n)
    then show ?case using close_backing_closed by blast
  next
    case (stacked m n b)
    have "n \<notin> set (dependents blocks (close_backing blocks start))" by (simp add: close_backing_closed)
    then show ?case using stacked by (auto simp: dependents_mem)
  qed
qed

text \<open>C32: the search for what a USB device backs ends, and finds exactly the block devices backed by
  its own: those and everything stacked on them, through any number of mapper layers.\<close>

theorem close_backing_exact:
  "n \<in> set (close_backing blocks start) \<longleftrightarrow> backed blocks start n"
  by (simp add: close_backing_exact_set)

lemma scan_usb_entries_mem:
  assumes "scan_usb_entries E root protect k es = Inr ds" and "d \<in> set ds"
  shows "\<exists>n. Some n \<in> set es \<and> d = usb_device_at E root k n \<and> is_usb_device E root k n \<and>
     (protect \<longrightarrow> usb_backs_host_storage E (root @ [n]) k = Inr False)"
  using assms
proof (induction es arbitrary: ds)
  case (Cons e es)
  show ?case
  proof (cases e)
    case None
    then show ?thesis using Cons.prems by simp
  next
    case (Some n)
    define keep where "keep = (if protect then usb_backs_host_storage E (root @ [n]) k else Inr False)"
    show ?thesis
    proof (cases "is_usb_device E root k n \<and> keep = Inr False")
      case False
      then have "scan_usb_entries E root protect k es = Inr ds"
        using Cons.prems(1) Some
        by (simp add: keep_def [symmetric] split: if_split_asm sum.split_asm bool.split_asm)
      from Cons.IH [OF this Cons.prems(2)] show ?thesis by auto
    next
      case True
      then obtain ds' where ds': "scan_usb_entries E root protect k es = Inr ds'"
        "ds = usb_device_at E root k n # ds'"
        using Cons.prems(1) Some by (simp add: keep_def [symmetric] split: sum.split_asm)
      show ?thesis
      proof (cases "d \<in> set ds'")
        case True
        from Cons.IH [OF ds'(1) this] show ?thesis by auto
      next
        case False
        then have "d = usb_device_at E root k n" using Cons.prems(2) ds'(2) by simp
        then show ?thesis
          using True Some by (intro exI [of _ n]) (simp add: keep_def split: if_split_asm)
      qed
    qed
  qed
qed simp

text \<open>C31: a device that backs active host storage is invisible to the manager. On the real bus, no
  device that a scan returns has a block device with a holder, or backs, directly or through
  stacked block devices, one that is mounted or swapped on; and the scan fails rather than guess
  when that cannot be found out.\<close>

theorem scan_spares_host_storage:
  assumes "scan_usb E real_usb_root k = Inr ds" and "d \<in> set ds"
  shows "\<exists>active names dev'. active_host_storage_device_ids E k = Inr active \<and>
     canonicalize E (real_usb_root @ [sys_name d]) k = Some dev' \<and>
     scan_dir E class_block k = Inr names \<and>
     (let blocks = List.map_filter (block_of E class_block k) names;
          own = map fst (filter (\<lambda>(n, b). prefix dev' (sys_path b)) blocks) in
      (\<forall>n b. n \<in> set own \<longrightarrow> map_of blocks n = Some b \<longrightarrow> \<not> has_holders b) \<and>
      (\<forall>n b. backed blocks own n \<longrightarrow> map_of blocks n = Some b \<longrightarrow> block_id b \<notin> active))"
proof -
  obtain es ds' where es: "scan_usb_entries E real_usb_root True k es = Inr ds'" and ds: "set ds = set ds'"
    using assms(1) by (auto simp: scan_usb_def split: option.splits sum.splits)
  from assms(2) ds have "d \<in> set ds'" by simp
  from scan_usb_entries_mem [OF es this] obtain n where "d = usb_device_at E real_usb_root k n"
    and safe: "usb_backs_host_storage E (real_usb_root @ [n]) k = Inr False"
    by (elim exE conjE) simp
  then have n: "n = sys_name d" by (simp add: usb_device_at_def Let_def case_prod_beta)
  obtain active dev' names where f: "active_host_storage_device_ids E k = Inr active"
    "canonicalize E (real_usb_root @ [n]) k = Some dev'" "scan_dir E class_block k = Inr names"
    "\<not> backs_active dev' (List.map_filter (block_of E class_block k) names) active"
    using safe by (auto simp: usb_backs_host_storage_def usb_backs_active_storage_def
        split: sum.splits option.splits)
  define blocks where "blocks = List.map_filter (block_of E class_block k) names"
  define own where "own = map fst (filter (\<lambda>(n, b). prefix dev' (sys_path b)) blocks)"
  have no: "\<not> list_ex (\<lambda>n. case map_of blocks n of None \<Rightarrow> False | Some b \<Rightarrow> has_holders b) own"
    "\<not> list_ex (\<lambda>n. case map_of blocks n of None \<Rightarrow> False | Some b \<Rightarrow> block_id b \<in> active)
        (close_backing blocks own)"
    using f(4) by (auto simp: backs_active_def Let_def blocks_def own_def split: if_splits)
  have "\<not> has_holders b" if "n \<in> set own" and "map_of blocks n = Some b" for n b
    using no(1) that unfolding list_ex_iff by fastforce
  moreover have "block_id b \<notin> active" if "backed blocks own n" and "map_of blocks n = Some b" for n b
    using no(2) that unfolding list_ex_iff close_backing_exact_set by fastforce
  ultimately have "(\<forall>n b. n \<in> set own \<longrightarrow> map_of blocks n = Some b \<longrightarrow> \<not> has_holders b) \<and>
      (\<forall>n b. backed blocks own n \<longrightarrow> map_of blocks n = Some b \<longrightarrow> block_id b \<notin> active)"
    by simp
  then show ?thesis
    using f(1-3) n unfolding Let_def blocks_def own_def
    by (intro exI [of _ active] exI [of _ names] exI [of _ dev']) simp
qed

definition storage_disk :: disk where
  "storage_disk =
     \<lparr>files =
        [([''/'', ''proc'', ''self'', ''mountinfo''], ''22 1 259:1 / / rw''),
         ([''/'', ''proc'', ''swaps''], ''Filename Type''),
         (real_usb_root @ [''1-2'', ''idVendor''], ''a''),
         (real_usb_root @ [''1-2'', ''busnum''], ''1''),
         (class_block @ [''sda'', ''dev''], ''8:0'')],
      links = [],
      dirs = [(real_usb_root, [''1-2'']), (real_usb_root @ [''1-2''], []),
              (class_block, [''sda'']), (class_block @ [''sda''], [])],
      sockets = [], script = []\<rparr>"

definition stick :: usb_device where
  "stick = usb_device_at (sample_dm default_config) real_usb_root storage_disk ''1-2''"

lemma scan_spares_host_storage_witness:
  "\<exists>active names dev'.
     active_host_storage_device_ids (sample_dm default_config) storage_disk = Inr active \<and>
     canonicalize (sample_dm default_config) (real_usb_root @ [sys_name stick]) storage_disk = Some dev' \<and>
     scan_dir (sample_dm default_config) class_block storage_disk = Inr names"
proof -
  have "scan_usb (sample_dm default_config) real_usb_root storage_disk = Inr [stick]"
    by code_simp
  from scan_spares_host_storage [OF this, of stick, OF list.set_intros(1)] show ?thesis
    by (elim exE conjE) (intro exI conjI; assumption)
qed

end
