(* ===== verification/Launch_Properties.thy ===== *)
theory Launch_Properties
  imports Pci_Properties System
begin

text \<open>The properties of the launch arguments of a VM.\<close>

lemma fresh_spec:
  "distinct (fresh seen xs) \<and> set (fresh seen xs) = set xs - set seen"
  by (induction seen xs rule: fresh.induct) auto

text \<open>One entry per function passed through, with the rule that decides its options.\<close>

definition vfio_entries :: "(string \<times> rule_match) list \<Rightarrow> string list" where
  "vfio_entries es = concat (map (\<lambda>(a, r). vfio_arg r a) es)"

text \<open>The state in which the arguments of the \<open>i\<close>-th function are made, when \<open>bound\<close> is what was
  bound to vfio-pci before, and the IOMMU group that is read then.\<close>

fun launch_turn ::
  "'k dm \<Rightarrow> string list \<Rightarrow> (pci_device \<times> rule_match) list \<Rightarrow> nat \<Rightarrow> 'k manager \<Rightarrow> 'k manager" where
  "launch_turn D bound [] i s = s"
| "launch_turn D bound (x # ds) i s =
     (if i = 0 then s
      else case iommu_group D (address (fst x)) (pci_root D) (kern s) of
        Inl _ \<Rightarrow> s
      | Inr g \<Rightarrow>
          (let new = fresh bound (group_or_self (address (fst x)) g) in
           launch_turn D (bound @ new) ds (i - 1)
             (snd (forE new (\<lambda>a. bind_vfio D a (pci_root D)) s))))"

definition group_at ::
  "'k dm \<Rightarrow> string list \<Rightarrow> (pci_device \<times> rule_match) list \<Rightarrow> 'k manager \<Rightarrow> nat \<Rightarrow> string list result" where
  "group_at D bound ds s i =
     iommu_group D (address (fst (ds ! i))) (pci_root D) (kern (launch_turn D bound ds i s))"

text \<open>The rule of the \<open>i\<close>-th function passes \<open>a\<close>, itself or a member of that group.\<close>

definition passes_at ::
  "'k dm \<Rightarrow> string list \<Rightarrow> (pci_device \<times> rule_match) list \<Rightarrow> 'k manager \<Rightarrow> nat \<Rightarrow> string \<Rightarrow> bool" where
  "passes_at D bound ds s i a \<longleftrightarrow>
     (case group_at D bound ds s i of
        Inl _ \<Rightarrow> False
      | Inr g \<Rightarrow> a \<in> set (passed_through (fst (ds ! i)) (snd (ds ! i)) g))"

text \<open>The first function whose rule passes \<open>a\<close> decides the rule for \<open>a\<close>.\<close>

definition decided ::
  "'k dm \<Rightarrow> string list \<Rightarrow> (pci_device \<times> rule_match) list \<Rightarrow> 'k manager \<Rightarrow> string \<Rightarrow> rule_match \<Rightarrow> bool" where
  "decided D bound ds s a r \<longleftrightarrow>
     (\<exists>i<length ds. passes_at D bound ds s i a \<and> r = snd (ds ! i) \<and>
        (\<forall>j<i. \<not> passes_at D bound ds s j a))"

lemma vfio_args_Cons:
  "vfio_args D bound emitted ((d, r) # ds) =
     bindE (look_result (iommu_group D (address d) (pci_root D))) (\<lambda>g.
     bindE (forE (fresh bound (group_or_self (address d) g)) (\<lambda>a. bind_vfio D a (pci_root D))) (\<lambda>_.
     bindE (vfio_args D (bound @ fresh bound (group_or_self (address d) g))
              (emitted @ fresh emitted (passed_through d r g)) ds) (\<lambda>rest.
     retE (concat (map (vfio_arg r) (fresh emitted (passed_through d r g))) @ rest))))"
  unfolding vfio_args.simps Let_def group_or_self_def passed_through_def by (rule refl)

lemma decided_Cons:
  assumes "iommu_group D (address d) (pci_root D) (kern s) = Inr g"
    and "forE (fresh bound (group_or_self (address d) g)) (\<lambda>a. bind_vfio D a (pci_root D)) s = (Inr (), u)"
  shows "passes_at D bound ((d, r) # ds) s 0 a \<longleftrightarrow> a \<in> set (passed_through d r g)"
    and "group_at D bound ((d, r) # ds) s (Suc i) =
      group_at D (bound @ fresh bound (group_or_self (address d) g)) ds u i"
    and "decided D bound ((d, r) # ds) s a q \<longleftrightarrow>
      (if a \<in> set (passed_through d r g) then q = r
       else decided D (bound @ fresh bound (group_or_self (address d) g)) ds u a q)"
proof -
  let ?b = "bound @ fresh bound (group_or_self (address d) g)"
  show zero: "passes_at D bound ((d, r) # ds) s 0 a \<longleftrightarrow> a \<in> set (passed_through d r g)"
    using assms(1) by (simp add: passes_at_def group_at_def)
  show grp: "group_at D bound ((d, r) # ds) s (Suc i) = group_at D ?b ds u i" for i
    using assms by (simp add: group_at_def)
  have suc: "passes_at D bound ((d, r) # ds) s (Suc i) a \<longleftrightarrow> passes_at D ?b ds u i a" for i
    by (simp add: passes_at_def grp split: sum.split)
  show "decided D bound ((d, r) # ds) s a q \<longleftrightarrow>
      (if a \<in> set (passed_through d r g) then q = r else decided D ?b ds u a q)"
    unfolding decided_def by (auto simp: Ex_less_Suc2 All_less_Suc2 zero suc)
qed

lemma vfio_args_entries:
  assumes "vfio_args D bound emitted ds s = (Inr out, t)"
  shows "\<exists>es. out = vfio_entries es \<and> distinct (map fst es) \<and>
    (\<forall>a r. (a, r) \<in> set es \<longleftrightarrow> a \<notin> set emitted \<and> decided D bound ds s a r) \<and>
    (\<forall>i<length ds. is_ok (group_at D bound ds s i))"
  using assms
proof (induction ds arbitrary: bound emitted s out)
  case Nil
  then show ?case by (intro exI [of _ "[]"]) (simp add: retE_def vfio_entries_def decided_def)
next
  case (Cons x ds)
  obtain d r where x: "x = (d, r)" by fastforce
  obtain g s1 rest where g: "iommu_group D (address d) (pci_root D) (kern s) = Inr g"
    and bind: "forE (fresh bound (group_or_self (address d) g)) (\<lambda>a. bind_vfio D a (pci_root D)) s = (Inr (), s1)"
    and rest: "vfio_args D (bound @ fresh bound (group_or_self (address d) g))
        (emitted @ fresh emitted (passed_through d r g)) ds s1 = (Inr rest, t)"
    and out: "out = concat (map (vfio_arg r) (fresh emitted (passed_through d r g))) @ rest"
    using Cons.prems
    by (auto simp: x vfio_args_Cons bindE_Inr_iff pure_Inr_iff look_result_def
        simp del: vfio_args.simps)
  let ?b = "bound @ fresh bound (group_or_self (address d) g)"
  define new where "new = fresh emitted (passed_through d r g)"
  have new: "distinct new" "set new = set (passed_through d r g) - set emitted"
    using fresh_spec by (simp_all add: new_def)
  note cons = decided_Cons [OF g bind, of r]
  obtain es where es: "rest = vfio_entries es" "distinct (map fst es)"
      "\<And>a q. (a, q) \<in> set es \<longleftrightarrow> a \<notin> set (emitted @ new) \<and> decided D ?b ds s1 a q"
    and ok: "\<forall>i<length ds. is_ok (group_at D ?b ds s1 i)"
    using Cons.IH [OF rest, folded new_def] by blast
  let ?es = "map (\<lambda>a. (a, r)) new @ es"
  have "out = vfio_entries ?es" using out es(1) by (simp add: vfio_entries_def new_def comp_def)
  moreover have "distinct (map fst ?es)" using es(2,3) new(1) by (auto simp: comp_def)
  moreover have "(a, q) \<in> set ?es \<longleftrightarrow> a \<notin> set emitted \<and> decided D bound (x # ds) s a q" for a q
    unfolding x cons(3) using es(3) [of a q] new(2) by auto
  moreover have "is_ok (group_at D bound (x # ds) s 0)" by (simp add: group_at_def x g)
  then have "\<forall>i<length (x # ds). is_ok (group_at D bound (x # ds) s i)"
    using ok cons(2) by (auto simp: x All_less_Suc2)
  ultimately show ?case by blast
qed

text \<open>C25: a VM is launched with exactly the PCI functions that are its own. When the arguments are
  made, the configuration knows the VM; where PCI is required, it has a rule for the VM and a
  function of the VM is there. The arguments are, in this order: the request for hotplug isolation,
  if any enabled rule is for this VM; one entry for each function passed, none twice; the ACPI
  tables and then the input devices, each exactly what \<open>acpi_args\<close> and \<open>evdev_args\<close> give for this VM
  at that point of the run. The functions passed are exactly those that the rules of this VM's own
  functions pass, each itself or, under a rule that says so, its IOMMU group as it is read at its
  turn, and each has the options of the rule of the first own function that passes it. Nothing in
  the manager's memory changes.\<close>

theorem launch_devices_exact:
  assumes "vmm_args D name req s = (Inr args, t)"
  shows "name \<in> vm_name ` set (vms (cfg D)) \<and> same_memory s t \<and>
    (\<exists>all own es u acpi evdev. pci_devices D (kern s) = Inr all \<and>
       own = filter (\<lambda>(d, r). target_vm r = Some name) all \<and>
       (req \<longrightarrow> has_pci_rules (cfg D) name \<and> own \<noteq> []) \<and>
       vfio_args D [] [] own s = (Inr (vfio_entries es), u) \<and>
       acpi_args D name u = (Inr acpi, t) \<and> evdev_args D name (kern t) = Inr evdev \<and>
       args = (if has_pci_rules (cfg D) name then [''--vfio-isolate-hotplug''] else []) @
         vfio_entries es @ acpi @ evdev \<and>
       distinct (map fst es) \<and>
       (\<forall>a r. (a, r) \<in> set es \<longleftrightarrow> decided D [] own s a r) \<and>
       (\<forall>i<length own. is_ok (group_at D [] own s i)))"
proof -
  let ?own = "filter (\<lambda>(d, r). target_vm r = Some name)"
  obtain v all pci s1 acpi s2 evdev where v: "find_vm (cfg D) name = Inr v"
    and all: "pci_devices D (kern s) = Inr all"
    and req: "req \<longrightarrow> has_pci_rules (cfg D) name \<and> ?own all \<noteq> []"
    and pci: "vfio_args D [] [] (?own all) s = (Inr pci, s1)"
    and acpi: "acpi_args D name s1 = (Inr acpi, s2)"
    and evdev: "evdev_args D name (kern s2) = Inr evdev"
    and args: "args = (if has_pci_rules (cfg D) name then [''--vfio-isolate-hotplug''] else []) @
        pci @ acpi @ evdev" and t: "t = s2"
    using assms
    by (auto simp: vmm_args_def Let_def bindE_Inr_iff pure_Inr_iff look_result_def
        split: if_splits)
  have "kernel_only (vmm_args D name req)" by (rule kernel_only_vmm_args)
  then have m: "same_memory s t" using assms by (rule kernel_onlyD)
  obtain es where es: "pci = vfio_entries es" "distinct (map fst es)"
      "\<forall>a r. (a, r) \<in> set es \<longleftrightarrow> decided D [] (?own all) s a r"
      "\<forall>i<length (?own all). is_ok (group_at D [] (?own all) s i)"
    using vfio_args_entries [OF pci] by auto
  have "name \<in> vm_name ` set (vms (cfg D))" using find_vm_Inr [OF v] by auto
  then show ?thesis
    using m all req pci acpi evdev args es unfolding t by blast
qed

lemma launch_devices_exact_witness:
  "\<exists>es u acpi evdev r. fst (vmm_args (sample_dm full_config) ''net'' True (plugged_manager full_config [])) =
     Inr ([''--vfio-isolate-hotplug''] @ vfio_entries es @ acpi @ evdev) \<and>
     acpi_args (sample_dm full_config) ''net'' u = (Inr acpi,
       snd (vmm_args (sample_dm full_config) ''net'' True (plugged_manager full_config []))) \<and>
     (''0000:00:02.0'', r) \<in> set es \<and> distinct (map fst es)"
proof -
  let ?D = "sample_dm full_config" and ?s = "plugged_manager full_config []"
  let ?x = "vmm_args ?D ''net'' True ?s"
  define own where "own = filter (\<lambda>(d, r). target_vm r = Some ''net'') (ok_value (pci_devices ?D (kern ?s)))"
  have ok: "is_ok (fst ?x)" and rules: "has_pci_rules (cfg ?D) ''net''"
    and listed: "is_ok (pci_devices ?D (kern ?s))"
    by code_simp+
  have nic: "0 < length own" "passes_at ?D [] own ?s 0 ''0000:00:02.0''"
    unfolding own_def by code_simp+
  then have dec: "decided ?D [] own ?s ''0000:00:02.0'' (snd (own ! 0))"
    unfolding decided_def by (intro exI [of _ 0]) simp
  have "pci_devices ?D (kern ?s) = Inr all \<Longrightarrow>
      filter (\<lambda>(d, r). target_vm r = Some ''net'') all = own" for all
    using is_ok_value [OF listed] by (simp add: own_def)
  then obtain es u acpi evdev where "ok_value (fst ?x) = [''--vfio-isolate-hotplug''] @ vfio_entries es @ acpi @ evdev"
    and "acpi_args ?D ''net'' u = (Inr acpi, snd ?x)" and "distinct (map fst es)"
    and "(''0000:00:02.0'', snd (own ! 0)) \<in> set es"
    using launch_devices_exact [OF is_okD [OF ok]] dec unfolding if_P [OF rules] by metis
  then show ?thesis using is_ok_value [OF ok] by metis
qed

end
