(* ===== verification/Pass_Properties.thy ===== *)
theory Pass_Properties
  imports Pci_Properties Usb_Memory Api
begin

text \<open>
  The properties of a reconcile pass: what a pass that reports success has seen to, and what
  keeps one from getting anywhere.
\<close>

section \<open>What a pass never takes back\<close>

text \<open>
  During the resumes of a pass the disconnected marks can only shrink, the deferred flag stays
  up, a PCI function once recorded stays so, and so does a hub once reported.
\<close>

type_synonym kept = "(string \<Rightarrow> string option) \<Rightarrow> string set \<Rightarrow> bool"

definition steady :: "string set \<Rightarrow> kept \<Rightarrow> 'k manager \<Rightarrow> bool" where
  "steady X P s \<longleftrightarrow>
     set (disconnected_devices (persistent s)) \<subseteq> X \<and>
     (deferred s \<or> P (pci_vms s) (set (reported_usb_hubs s)))"

definition grows :: "kept \<Rightarrow> bool" where
  "grows P \<longleftrightarrow>
     (\<forall>f h as n. P f h \<longrightarrow> P (\<lambda>a. if a \<in> set as then Some n else f a) h) \<and>
     (\<forall>f h j. P f h \<longrightarrow> P f (insert j h))"

lemma grows_basic [simp]:
  "grows (\<lambda>_ _. True)" "grows (\<lambda>_ _. False)" "grows (\<lambda>f _. \<forall>a\<in>A. f a \<noteq> None)"
  "grows (\<lambda>_ h. j \<in> h)"
  by (simp_all add: grows_def)

lemma steady_memory: "memory_invariant (steady X P)"
  unfolding memory_invariant_def
proof (intro allI impI)
  fix s t :: "'k manager"
  assume "same_memory s t" and "steady X P s"
  then show "steady X P t"
    using same_memory_fields [OF \<open>same_memory s t\<close>] by (simp add: steady_def)
qed

lemmas steady_kernel = keeps_kernel_only [OF steady_memory]

lemma steady_update [simp]:
  "steady X P (s\<lparr>usb_vms := u\<rparr>) = steady X P s"
  "steady X P (s\<lparr>pending_usb_selection := q\<rparr>) = steady X P s"
  "steady X P (s\<lparr>usb_routing_cache := c\<rparr>) = steady X P s"
  "steady X P (s\<lparr>observed_usb := ou\<rparr>) = steady X P s"
  "steady X P (s\<lparr>observed_pci := op\<rparr>) = steady X P s"
  "steady X P (s\<lparr>persistent := (persistent s)\<lparr>crosvm_usb_ports := m\<rparr>\<rparr>) = steady X P s"
  "steady X P (s\<lparr>persistent := remember_vm i v (persistent s)\<rparr>) = steady X P s"
  by (simp_all add: steady_def)

lemma steady_unmark: "steady X P s \<Longrightarrow> steady X P (s\<lparr>persistent := mark_disconnected i False (persistent s)\<rparr>)"
  by (auto simp: steady_def mark_disconnected_def Let_def)

lemma steady_forget:
  "steady X P s \<Longrightarrow> steady X P (forget_pending i s)"
  "steady X P s \<Longrightarrow> steady X P (forget_attachment node n s)"
  "steady X P s \<Longrightarrow> steady X P (record_port d n c s)"
  "steady X P s \<Longrightarrow> steady X P (forget_vanished key d s)"
  by (auto simp: steady_def forget_pending_def forget_attachment_def record_port_def forget_vanished_def)

lemma steady_record: "grows P \<Longrightarrow> steady X P s \<Longrightarrow> steady X P (record_pci as n s)"
  by (auto simp: steady_def record_pci_def grows_def)

lemma steady_save:
  "keeps (steady X P) (save D)" "keeps (steady X P) (set_disconnected D i False)"
  "keeps (steady X P) (select_vm D i n)"
  unfolding set_disconnected_def select_vm_def
  by (intro keeps_bind keeps_mod steady_kernel kernel_only_save; simp add: steady_unmark)+

lemma steady_detach_one_usb: "keeps (steady X P) (detach_one_usb D d False)"
  unfolding detach_one_usb_def
  by (intro keeps_intro keeps_mod steady_save steady_kernel kernel_only_intro steady_forget)

lemma steady_release_interfaces:
  assumes "grows P"
  shows "keeps (steady X P) (release_interfaces D d is)"
proof (induction "is")
  case (Cons i "is")
  have "keeps (steady X P) (report_hub j)" for j
    unfolding report_hub_def
    by (rule keeps_mod) (use assms in \<open>auto simp: steady_def grows_def\<close>)
  then show ?case
    unfolding release_interfaces.simps
    by (intro keeps_bind keeps_if keeps_basic Cons.IH) (auto intro: steady_kernel kernel_only_intro)
qed (simp add: keeps_basic)

lemma steady_attach_to_vm:
  assumes "grows P"
  shows "keeps (steady X P) (attach_to_vm D d v)"
proof -
  have claim: "keeps (steady X P) (claim_usb D d node v preflight moved)" for node preflight moved
    unfolding claim_usb_def
    by (intro keeps_bind keeps_if keeps_option keeps_prod keeps_basic steady_release_interfaces assms)
      (intro steady_kernel kernel_only_intro)+
  have recorded: "keeps (steady X P) (record_attachment D d node v c)" for node c
    unfolding record_attachment_def
    by (intro keeps_intro keeps_mod steady_save steady_kernel kernel_only_intro steady_forget) simp
  show ?thesis
    unfolding attach_to_vm_def under_guard_def
    by (intro keeps_bind keeps_wrap keeps_sum keeps_option keeps_if keeps_basic steady_detach_one_usb
        claim recorded steady_kernel kernel_only_intro)
qed

lemma steady_attach_one_usb:
  assumes "grows P"
  shows "keeps (steady X P) (attach_one_usb D d r requested)"
proof -
  have "keeps (steady X P) (ask_selection d r)"
    unfolding ask_selection_def
    by (intro keeps_bind keeps_if keeps_basic keeps_mod steady_kernel kernel_only_intro) simp
  then show ?thesis
    unfolding attach_one_usb_def
    by (intro keeps_bind keeps_option keeps_if keeps_basic steady_attach_to_vm assms)
qed

lemma steady_defer: "keeps (steady X P) f \<Longrightarrow> keeps (steady X P) (defer_if_stopped D t f)"
  unfolding defer_if_stopped_def
  by (intro keeps_intro keeps_mod) (auto simp: steady_def intro: steady_kernel kernel_only_intro)

lemma steady_resume_one_usb:
  "grows P \<Longrightarrow> keeps (steady X P) (resume_one_usb D w d r)"
  unfolding resume_one_usb_def Let_def
  by (intro keeps_bind keeps_if keeps_basic steady_defer steady_attach_one_usb)

lemma steady_resume_usb: "grows P \<Longrightarrow> keeps (steady X P) (resume_usb D w)"
  unfolding resume_usb_def
  by (intro keeps_bind keeps_for_each keeps_prod steady_resume_one_usb steady_kernel
      kernel_only_intro)

lemma steady_attach_one_pci:
  assumes "grows P"
  shows "keeps (steady X P) (attach_one_pci D d r requested)"
  unfolding attach_one_pci_def attach_pci_to_def Let_def
  by (intro keeps_bind keeps_if keeps_basic keeps_mod steady_record steady_save assms;
      (assumption | intro steady_kernel kernel_only_intro))

lemma steady_resume_one_pci:
  assumes "grows P"
  shows "keeps (steady X P) (resume_one_pci D w d r)"
  unfolding resume_one_pci_def
  by (intro keeps_bind keeps_if keeps_basic steady_defer steady_attach_one_pci assms)

lemma steady_resume_pci: "grows P \<Longrightarrow> keeps (steady X P) (resume_pci D w)"
  unfolding resume_pci_def
  by (intro keeps_bind keeps_for_each keeps_prod steady_resume_one_pci steady_kernel
      kernel_only_intro)

lemma steady_before:
  "keeps (steady X (\<lambda>_ _. True)) (apply_usb_gate D)" "keeps (steady X (\<lambda>_ _. True)) (observe D)"
proof -
  have "keeps (steady X (\<lambda>_ _. True)) (usb_routing D ds)" for ds
    unfolding usb_routing_def by (intro keeps_bind keeps_basic keeps_mod) simp
  then show "keeps (steady X (\<lambda>_ _. True)) (apply_usb_gate D)"
    unfolding apply_usb_gate_def
    by (intro keeps_bind keeps_option keeps_if keeps_basic keeps_forE)
      (auto intro!: steady_kernel kernel_only_intro)
  have gone: "keeps (steady X (\<lambda>_ _. True)) (vanished_usb D x)" for x
    unfolding vanished_usb_def
    by (intro keeps_prod keeps_bind keeps_mod steady_save steady_forget)
      (intro steady_kernel kernel_only_intro)+
  have gone_pci: "keeps (steady X (\<lambda>_ _. True)) (vanished_pci x)" for x
    unfolding vanished_pci_def
    by (intro keeps_prod keeps_bind keeps_mod) (auto intro: steady_kernel kernel_only_intro
        simp: steady_def)
  show "keeps (steady X (\<lambda>_ _. True)) (observe D)"
    unfolding observe_def observe_usb_def observe_pci_def
    by (intro keeps_look_result_bind keeps_bind keeps_forE keeps_prod keeps_mod gone gone_pci)
      (auto intro: steady_kernel kernel_only_intro keeps_basic)
qed

section \<open>What a successful pass has seen to\<close>

text \<open>The states in which a pass from \<open>s\<close> comes to the PCI functions, to the \<open>i\<close>-th of them, and
  to the USB devices.\<close>

definition before_pci :: "'k dm \<Rightarrow> 'k manager \<Rightarrow> 'k manager" where
  "before_pci D s = snd (observe D (snd (apply_usb_gate D (s\<lparr>deferred := False\<rparr>))))"

definition pci_turn ::
  "'k dm \<Rightarrow> (pci_device \<times> rule_match) list \<Rightarrow> nat \<Rightarrow> 'k manager \<Rightarrow> 'k manager" where
  "pci_turn D xs i s = at_turn xs (\<lambda>(d, r). resume_one_pci D None d r) i (before_pci D s)"

definition before_usb :: "'k dm \<Rightarrow> 'k manager \<Rightarrow> 'k manager" where
  "before_usb D s = snd (resume_pci D None (before_pci D s))"

text \<open>From \<open>u\<close> to \<open>u'\<close> the function went to the target VM of its rule: that VM's Crosvm was asked,
  the IOMMU group was read after its answer, and everything that the rule passes along is
  recorded for the VM in \<open>u'\<close> and still recorded for some VM in \<open>t\<close>.\<close>

definition brought_along ::
  "'k dm \<Rightarrow> pci_device \<Rightarrow> rule_match \<Rightarrow> 'k manager \<Rightarrow> 'k manager \<Rightarrow> 'k manager \<Rightarrow> bool" where
  "brought_along D d r u u' t \<longleftrightarrow>
     (\<exists>v live w g. v \<in> set (vms (cfg D)) \<and> target_vm r = Some (vm_name v) \<and>
        vfio_list D (crosvm D) (vm_socket v) u = (Inr live, w) \<and>
        iommu_group D (address d) (pci_root D) (kern w) = Inr g \<and>
        (\<forall>a\<in>set (passed_through d r g). pci_vms u' a = Some (vm_name v) \<and> pci_vms t a \<noteq> None))"

lemma resume_one_pci_sees:
  assumes "resume_one_pci D None d r s = (Inr (), t)"
  obtains "disconnected (persistent s) (pci_persistent_id d) \<or> target_vm r = None"
  | "deferred t"
  | "brought_along D d r s t t"
proof (cases "disconnected (persistent s) (pci_persistent_id d) \<or> target_vm r = None")
  case False
  then obtain n where n: "target_vm r = Some n" by blast
  let ?f = "attach_one_pci D d r (target_vm r)"
  have run: "defer_if_stopped D (target_vm r) ?f s = (Inr (), t)"
    using assms False n by (simp add: resume_one_pci_def bind_pure in_vm_def)
  obtain q u where f: "?f s = (q, u)" by fastforce
  show thesis
  proof (cases q)
    case (Inl e)
    then have "t = u\<lparr>deferred := True\<rparr>"
      using run f by (auto simp: defer_if_stopped_def op_simps host_defs split: if_splits)
    then show thesis using that(2) by simp
  next
    case (Inr x)
    then have "?f s = (Inr (), t)"
      using run f by (simp add: defer_if_stopped_def op_simps)
    from attach_one_pci_recorded [OF this] have "brought_along D d r s t t"
      unfolding brought_along_def by force
    then show thesis by (rule that(3))
  qed
qed (rule that(1))

text \<open>The stages of a pass that reports success.\<close>

lemma reconcile_Inr:
  assumes "reconcile D s = (Inr (), t)"
  shows "\<exists>g s1 s2 s3 s4 a. apply_usb_gate D (s\<lparr>deferred := False\<rparr>) = (g, s1) \<and>
    observe D s1 = (Inr (), s2) \<and> resume_pci D None s2 = (Inr (), s3) \<and>
    resume_usb D None s3 = (Inr (), s4) \<and> deauthorize_unmatched_usb D s4 = (a, t)"
proof -
  obtain g s1 where gate: "apply_usb_gate D (s\<lparr>deferred := False\<rparr>) = (g, s1)" by fastforce
  obtain ob s2 where obs: "observe D s1 = (ob, s2)" by fastforce
  obtain p s3 where pci: "resume_pci D None s2 = (p, s3)" by fastforce
  obtain u s4 where usb: "resume_usb D None s3 = (u, s4)" by fastforce
  obtain a s5 where last: "deauthorize_unmatched_usb D s4 = (a, s5)" by fastforce
  have "reconcile D s = (case ob of Inl e \<Rightarrow> (Inl e, s2) | Inr _ \<Rightarrow>
      (aggregate (failure ''PCI'' p @ failure ''USB'' u @ failure ''USB authorization'' a), s5))"
    by (simp add: reconcile_def op_simps gate obs pci usb last
        split: sum.split)
  then show ?thesis
    using assms gate obs pci usb last
    by (auto simp: aggregate_def failure_def split: sum.splits if_splits)
qed

lemma steady_kept_end:
  assumes "grows P" and "steady UNIV P s"
  shows "steady UNIV P (snd (resume_usb D None s))"
    "steady UNIV P (snd (deauthorize_unmatched_usb D s))"
  using assms keepsD [OF steady_resume_usb] keepsD [OF steady_kernel [OF kernel_only_authorize_for_host(3)]]
  by blast+

text \<open>What a resume pass does at the turn of each function, and what of it is still there at the end of
  the pass.\<close>

lemma resume_pci_turn:
  assumes "forE xs (\<lambda>(d, r). resume_one_pci D None d r) s = (Inr (), t)" and "i < length xs"
    and "xs ! i = (d, r)" and "set (disconnected_devices (persistent s)) \<subseteq> X"
    and kept: "\<And>P. grows P \<Longrightarrow> steady UNIV P t \<Longrightarrow> steady UNIV P t'" and "\<not> deferred t'"
  shows "pci_persistent_id d \<in> X \<or> target_vm r = None \<or>
    brought_along D d r (at_turn xs (\<lambda>(d, r). resume_one_pci D None d r) i s)
      (at_turn xs (\<lambda>(d, r). resume_one_pci D None d r) (Suc i) s) t'"
proof -
  let ?step = "\<lambda>(d, r). resume_one_pci D None d r"
  let ?u = "at_turn xs ?step i s" and ?u' = "at_turn xs ?step (Suc i) s"
  have one: "resume_one_pci D None d r ?u = (Inr (), ?u')"
    and rest: "forE (drop (Suc i) xs) ?step ?u' = (Inr (), t)"
    using forE_at_turn [OF assms(1,2)] by (simp_all add: assms(3))
  have loop: "keeps (steady Y P) (forE ys ?step)" if "grows P" for Y P ys
    by (intro keeps_forE keeps_prod steady_resume_one_pci that)
  have "steady X (\<lambda>_ _. True) s" using assms(4) by (simp add: steady_def)
  then have "steady X (\<lambda>_ _. True) ?u"
    using keepsD [OF loop] unfolding at_turn_def by simp
  then have X: "set (disconnected_devices (persistent ?u)) \<subseteq> X" by (simp add: steady_def)
  have keep: "steady UNIV P t'" if "grows P" and "steady UNIV P ?u'" for P
    using keepsD2 [OF loop [OF that(1)] that(2) rest] kept [OF that(1)] by blast
  show ?thesis
    using one
  proof (cases rule: resume_one_pci_sees)
    case 1
    then show ?thesis using X by (auto simp: disconnected_iff)
  next
    case 2
    then show ?thesis using keep [OF grows_basic(2)] assms(6) by (simp add: steady_def)
  next
    case 3
    have "\<forall>a\<in>A. pci_vms t' a \<noteq> None" if "\<forall>a\<in>A. pci_vms ?u' a \<noteq> None" for A
      using keep [OF grows_basic(3) [of A]] that assms(6) by (simp add: steady_def)
    then show ?thesis using 3 unfolding brought_along_def by (metis option.distinct(1))
  qed
qed

text \<open>C7: a pass that runs without a break and reports success leaves no PCI function behind. Take
  the functions that the pass finds routed when it comes to them, after \<open>observe\<close>. At its turn each
  of them, with whatever its rule passes along of the IOMMU group read then, goes to the target VM
  of its rule, whose Crosvm was just asked, and all of that is still recorded for a VM when the
  pass ends; except those the user has detached and those whose rule names no VM, and provided the
  pass does not report having deferred something.\<close>

theorem pass_attaches_pci:
  assumes "reconcile D s = (Inr (), t)" and "\<not> deferred t"
  shows "\<exists>xs. pci_devices D (kern (before_pci D s)) = Inr xs \<and>
    (\<forall>i<length xs. case xs ! i of (d, r) \<Rightarrow>
       disconnected (persistent s) (pci_persistent_id d) \<or> target_vm r = None \<or>
       brought_along D d r (pci_turn D xs i s) (pci_turn D xs (Suc i) s) t)"
proof -
  let ?X = "set (disconnected_devices (persistent s))"
  let ?s0 = "s\<lparr>deferred := False\<rparr>"
  obtain g s1 s2 s3 s4 a where
    gate: "apply_usb_gate D ?s0 = (g, s1)" and obs: "observe D s1 = (Inr (), s2)"
    and pci: "resume_pci D None s2 = (Inr (), s3)"
    and usb: "resume_usb D None s3 = (Inr (), s4)"
    and last: "deauthorize_unmatched_usb D s4 = (a, t)"
    using reconcile_Inr [OF assms(1)] by blast
  have s2: "before_pci D s = s2" by (simp add: before_pci_def gate obs)
  have "steady ?X (\<lambda>_ _. True) ?s0" by (simp add: steady_def)
  then have "steady ?X (\<lambda>_ _. True) s2"
    using keepsD2 [OF steady_before(1) _ gate] keepsD2 [OF steady_before(2) _ obs] by blast
  then have X: "set (disconnected_devices (persistent s2)) \<subseteq> ?X" by (simp add: steady_def)
  obtain xs where xs: "pci_devices D (kern s2) = Inr xs"
    and run: "forE xs (\<lambda>(d, r). resume_one_pci D None d r) s2 = (Inr (), s3)"
    using pci by (auto simp: resume_pci_def bindE_Inr_iff look_result_def for_each_Inr)
  have keep: "steady UNIV P t" if "grows P" and "steady UNIV P s3" for P
    using steady_kept_end [OF that(1)] that(2) usb last by (metis snd_conv)
  show ?thesis
    unfolding s2 pci_turn_def
    using resume_pci_turn [OF run _ _ X keep assms(2)]
    by (intro exI [of _ xs] conjI xs) (auto simp: disconnected_iff split: prod.split)
qed

definition pci_only :: config where
  "pci_only = full_config\<lparr>usb_passthrough := []\<rparr>"

definition pass_manager :: "disk manager" where
  "pass_manager =
     plugged_manager pci_only
       [reply ''devices'', reply ''devices'', reply ''ok'',
        reply ''devices /sys/bus/pci/devices/0000:00:02.0'']"

text \<open>The network card is found in the pass and is recorded for the network VM in its turn.\<close>

lemma pass_attaches_pci_witness:
  "\<exists>xs d r. pci_devices (sample_dm pci_only) (kern (before_pci (sample_dm pci_only) pass_manager)) = Inr xs \<and>
    xs ! 0 = (d, r) \<and> address d = ''0000:00:02.0'' \<and> target_vm r = Some ''net'' \<and>
    brought_along (sample_dm pci_only) d r (pci_turn (sample_dm pci_only) xs 0 pass_manager)
      (pci_turn (sample_dm pci_only) xs 1 pass_manager)
      (snd (reconcile (sample_dm pci_only) pass_manager))"
proof -
  let ?D = "sample_dm pci_only"
  let ?x = "reconcile ?D pass_manager"
  let ?y = "pci_devices ?D (kern (before_pci ?D pass_manager))"
  have "case ?x of (r, t) \<Rightarrow> is_ok r \<and> \<not> deferred t" by code_simp
  then have run: "?x = (Inr (), snd ?x)" and held: "\<not> deferred (snd ?x)"
    by (auto simp: is_ok_unit split: prod.splits)
  have ok: "is_ok ?y" and len: "0 < length (ok_value ?y)"
    and nic: "case ok_value ?y ! 0 of (d, r) \<Rightarrow> address d = ''0000:00:02.0'' \<and>
      target_vm r = Some ''net'' \<and> \<not> disconnected (persistent pass_manager) (pci_persistent_id d)"
    by code_simp+
  obtain d r where dr: "ok_value ?y ! 0 = (d, r)" by fastforce
  show ?thesis
    using pass_attaches_pci [OF run held] is_ok_value [OF ok] len nic dr
    by (intro exI [of _ "ok_value ?y"] exI [of _ d] exI [of _ r]) fastforce
qed

section \<open>The USB devices of a successful pass\<close>

text \<open>A VM holds the device, or the user has been asked which one is to, or it turned out to be a
  hub.\<close>

definition settled_usb :: "usb_device \<Rightarrow> 'k manager \<Rightarrow> bool" where
  "settled_usb d s \<longleftrightarrow>
     (\<exists>n. device_node d = Some n \<and> usb_vms s n \<noteq> None) \<or>
     usb_persistent_id d \<in> set (pending_usb_selection s) \<or>
     usb_persistent_id d \<in> set (reported_usb_hubs s)"

lemma attach_done_settles:
  assumes "attach_done d node name s t" and "device_node d = Some node"
  shows "settled_usb d t"
  using assms(1) unfolding attach_done_def
proof
  assume "\<exists>c. same_memory (attached_memory d node name c s) t"
  then obtain c where m: "same_memory (attached_memory d node name c s) t" ..
  have "usb_vms t node = Some name"
    using same_memory_fields(2) [OF m]
    by (simp add: attached_memory_def forget_pending_def record_port_def)
  then show ?thesis using assms(2) by (auto simp: settled_usb_def)
next
  assume "hub_reported d s t"
  then show ?thesis by (simp add: settled_usb_def hub_reported_def)
qed

lemma ask_selection_asks:
  "ask_selection d r s = (res, t) \<Longrightarrow>
     usb_persistent_id d \<in> set (pending_usb_selection t) \<and> usb_vms t = usb_vms s \<and>
     set (pending_usb_selection s) \<subseteq> set (pending_usb_selection t)"
  by (auto simp: ask_selection_def op_simps host_defs split: if_splits)

lemma attach_one_usb_cases:
  assumes "attach_one_usb D d r requested s = (Inr (), t)"
  obtains (asked) "ask_selection d r s = (Inr (), t)"
  | (tried) v where "attach_to_vm D d v s = (Inr (), t)"
  using assms
  by (auto simp: attach_one_usb_def bind_pure bindE_Inr_iff pure_Inr_iff split: option.splits if_splits)

lemma attach_one_usb_settles:
  assumes "attach_one_usb D d r requested s = (Inr (), t)"
  shows "settled_usb d t"
  using assms
proof (cases rule: attach_one_usb_cases)
  case asked
  then show ?thesis by (simp add: settled_usb_def ask_selection_asks)
next
  case (tried v)
  then show ?thesis using attach_to_vm_memory [OF tried] attach_done_settles by blast
qed

text \<open>Another device's attach does not unsettle this one.\<close>

lemma attach_done_elsewhere:
  assumes "attach_done d node name s t" and "n \<noteq> node" and "i \<noteq> usb_persistent_id d"
  shows "usb_vms t n = usb_vms s n \<and>
    (i \<in> set (pending_usb_selection t) \<longleftrightarrow> i \<in> set (pending_usb_selection s))"
  using assms(1) unfolding attach_done_def
proof
  assume "\<exists>c. same_memory (attached_memory d node name c s) t"
  then obtain c where m: "same_memory (attached_memory d node name c s) t" ..
  show ?thesis
    using same_memory_fields [OF m] assms(2,3)
    by (simp add: attached_memory_def forget_pending_def record_port_def)
next
  assume "hub_reported d s t"
  then have m: "same_memory (s\<lparr>reported_usb_hubs := reported_usb_hubs t\<rparr>) t"
    by (simp add: hub_reported_def)
  show ?thesis using same_memory_fields [OF m] by simp
qed

lemma settled_elsewhere:
  assumes "attach_one_usb D e r requested s = (Inr (), t)" and "settled_usb d s"
    and "usb_persistent_id d \<noteq> usb_persistent_id e" and "device_node d \<noteq> device_node e"
    and hubs: "usb_persistent_id d \<in> set (reported_usb_hubs s) \<Longrightarrow>
      usb_persistent_id d \<in> set (reported_usb_hubs t)"
  shows "settled_usb d t"
  using assms(1)
proof (cases rule: attach_one_usb_cases)
  case asked
  then show ?thesis using ask_selection_asks [OF asked] assms(2) hubs by (auto simp: settled_usb_def)
next
  case (tried v)
  then obtain node u where node: "device_node e = Some node" and ud: "u = s \<or> u = detached_memory e node False s"
    and u: "attach_done e node (vm_name v) u t"
    using attach_to_vm_memory [OF tried] by blast
  have "usb_vms t n = usb_vms s n" if "device_node d = Some n" for n
    using attach_done_elsewhere [OF u, of n] ud that assms(3,4) node
    by (auto simp: detached_memory_def forget_attachment_def forget_pending_def Let_def)
  moreover have "usb_persistent_id d \<in> set (pending_usb_selection t)"
    if "usb_persistent_id d \<in> set (pending_usb_selection s)"
    using attach_done_elsewhere [OF u, of "node @ ''x''" "usb_persistent_id d"] ud that assms(3)
    by (auto simp: detached_memory_def forget_attachment_def forget_pending_def Let_def)
  ultimately show ?thesis using assms(2) hubs by (auto simp: settled_usb_def)
qed

definition usb_seen_to :: "string set \<Rightarrow> usb_device \<times> rule_match \<Rightarrow> 'k manager \<Rightarrow> bool" where
  "usb_seen_to X x s \<longleftrightarrow>
     usb_persistent_id (fst x) \<in> X \<or> deferred s \<or> settled_usb (fst x) s"

lemma resume_one_usb_cases:
  assumes "resume_one_usb D None d r s = (Inr (), t)"
  obtains (skipped) "t = s" and "disconnected (persistent s) (usb_persistent_id d)"
  | (waiting) "deferred t"
  | (attached) requested where "attach_one_usb D d r requested s = (Inr (), t)"
proof (cases "disconnected (persistent s) (usb_persistent_id d)")
  case True
  then show thesis using assms skipped by (simp add: resume_one_usb_def bind_pure retE_def)
next
  case False
  define target where "target = or_else (target_vm r) (selected_vms (persistent s) (usb_persistent_id d))"
  have run: "defer_if_stopped D target (attach_one_usb D d r target) s = (Inr (), t)"
    using assms False by (simp add: resume_one_usb_def bind_pure in_scope_def target_def Let_def)
  obtain q u where f: "attach_one_usb D d r target s = (q, u)" by fastforce
  show thesis
  proof (cases q)
    case (Inl e)
    then have "t = u\<lparr>deferred := True\<rparr>"
      using run f by (auto simp: defer_if_stopped_def op_simps host_defs split: if_splits)
    then show thesis using waiting by simp
  next
    case (Inr x)
    then have "attach_one_usb D d r target s = (Inr (), t)"
      using run f by (simp add: defer_if_stopped_def op_simps)
    then show thesis by (rule attached)
  qed
qed

lemma usb_seen_to_stable:
  assumes "usb_seen_to X (d, q) s" and run: "resume_one_usb D None e r s = (Inr (), t)"
    and "usb_persistent_id d \<noteq> usb_persistent_id e" and "device_node d \<noteq> device_node e"
  shows "usb_seen_to X (d, q) t"
proof -
  note kept = keepsD2 [OF steady_resume_one_usb [where X = UNIV] _ run]
  have flag: "deferred t" if "deferred s"
    using kept [OF grows_basic(2)] that by (simp add: steady_def)
  have hubs: "deferred t \<or> j \<in> set (reported_usb_hubs t)" if "j \<in> set (reported_usb_hubs s)" for j
    using kept [OF grows_basic(4) [of j]] that by (simp add: steady_def)
  show ?thesis
    using run
  proof (cases rule: resume_one_usb_cases)
    case skipped
    then show ?thesis using assms(1) by simp
  next
    case waiting
    then show ?thesis by (simp add: usb_seen_to_def)
  next
    case (attached requested)
    then show ?thesis
      using settled_elsewhere [OF attached _ assms(3,4)] assms(1) flag hubs
      by (auto simp: usb_seen_to_def)
  qed
qed

lemma resume_usb_sees:
  assumes "resume_usb D None s = (Inr (), t)" and "set (disconnected_devices (persistent s)) \<subseteq> X"
  shows "\<exists>xs. usb_devices D (kern s) = Inr xs \<and>
    (inj_on (usb_persistent_id \<circ> fst) (set xs) \<and> inj_on (device_node \<circ> fst) (set xs) \<longrightarrow>
       (\<forall>x\<in>set xs. usb_seen_to X x t))"
proof -
  let ?step = "\<lambda>(d, r). resume_one_usb D None d r"
  obtain xs where xs: "usb_devices D (kern s) = Inr xs"
    and run: "forE xs ?step s = (Inr (), t)"
    using assms(1) by (auto simp: resume_usb_def bindE_Inr_iff look_result_def for_each_Inr)
  let ?I = "steady X (\<lambda>_ _. True)"
  note kept = keepsD2 [OF steady_resume_one_usb [OF grows_basic(1), of X]]
  have step: "?I u' \<and> usb_seen_to X x u'" if I: "?I u" and st: "?step x u = (Inr (), u')" for x u u'
  proof -
    obtain d r where x: "x = (d, r)" by fastforce
    have one: "resume_one_usb D None d r u = (Inr (), u')" using st by (simp add: x)
    have "usb_seen_to X x u'"
      using one
    proof (cases rule: resume_one_usb_cases)
      case skipped
      then show ?thesis using I by (auto simp: usb_seen_to_def x steady_def disconnected_iff)
    next
      case waiting
      then show ?thesis by (simp add: usb_seen_to_def)
    next
      case (attached requested)
      then show ?thesis using attach_one_usb_settles [OF attached] by (simp add: usb_seen_to_def x)
    qed
    then show ?thesis using kept [OF I one] by simp
  qed
  have "\<forall>x\<in>set xs. x \<in> set xs \<longrightarrow> usb_seen_to X x t"
    if ids: "inj_on (usb_persistent_id \<circ> fst) (set xs)" and nodes: "inj_on (device_node \<circ> fst) (set xs)"
  proof (rule forE_all [where I = ?I and Q = "\<lambda>x s. x \<in> set xs \<longrightarrow> usb_seen_to X x s", OF run])
    show "?I s" using assms(2) by (simp add: steady_def)
  next
    fix x u u' assume "?I u" and "?step x u = (Inr (), u')"
    from step [OF this] show "?I u' \<and> (x \<in> set xs \<longrightarrow> usb_seen_to X x u')" by simp
  next
    fix y x u u' assume "x \<in> set xs" and "?I u" and y: "y \<in> set xs \<longrightarrow> usb_seen_to X y u"
      and st: "?step x u = (Inr (), u')"
    show "y \<in> set xs \<longrightarrow> usb_seen_to X y u'"
    proof
      assume "y \<in> set xs"
      show "usb_seen_to X y u'"
      proof (cases "y = x")
        case True
        then show ?thesis using step [OF \<open>?I u\<close> st] by simp
      next
        case False
        obtain d q where yd: "y = (d, q)" by fastforce
        obtain e r where xe: "x = (e, r)" by fastforce
        have "usb_persistent_id d \<noteq> usb_persistent_id e" and "device_node d \<noteq> device_node e"
          using inj_onD [OF ids, of y x] inj_onD [OF nodes, of y x] False \<open>x \<in> set xs\<close> \<open>y \<in> set xs\<close>
          by (auto simp: yd xe)
        then show ?thesis
          using usb_seen_to_stable [of X d q u D e r u'] y \<open>y \<in> set xs\<close> st by (simp add: yd xe)
      qed
    qed
  qed
  then show ?thesis using xs by blast
qed

text \<open>C6: a pass that runs without a break and reports success leaves no USB device behind. Take the
  devices that the pass finds routed when it comes to them, after the PCI functions; provided no
  two of them share an identity or a device node, and the pass does not report having deferred
  something, each of them is afterwards held by a VM, or the user has been asked which VM it is to
  go to, or it is a hub that has been reported; except those the user has detached.\<close>

theorem pass_settles_usb:
  assumes "reconcile D s = (Inr (), t)" and "\<not> deferred t"
  shows "\<exists>xs. usb_devices D (kern (before_usb D s)) = Inr xs \<and>
    (inj_on (usb_persistent_id \<circ> fst) (set xs) \<and> inj_on (device_node \<circ> fst) (set xs) \<longrightarrow>
       (\<forall>(d, r)\<in>set xs. disconnected (persistent s) (usb_persistent_id d) \<or> settled_usb d t))"
proof -
  let ?X = "set (disconnected_devices (persistent s))"
  let ?s0 = "s\<lparr>deferred := False\<rparr>"
  obtain g s1 s2 s3 s4 a where
    gate: "apply_usb_gate D ?s0 = (g, s1)" and obs: "observe D s1 = (Inr (), s2)"
    and pci: "resume_pci D None s2 = (Inr (), s3)"
    and usb: "resume_usb D None s3 = (Inr (), s4)"
    and last: "deauthorize_unmatched_usb D s4 = (a, t)"
    using reconcile_Inr [OF assms(1)] by blast
  have "steady ?X (\<lambda>_ _. True) ?s0" by (simp add: steady_def)
  then have "steady ?X (\<lambda>_ _. True) s3"
    using keepsD2 [OF steady_before(1) _ gate] keepsD2 [OF steady_before(2) _ obs]
      keepsD2 [OF steady_resume_pci [OF grows_basic(1)] _ pci] by blast
  then have X: "set (disconnected_devices (persistent s3)) \<subseteq> ?X" by (simp add: steady_def)
  have m: "same_memory s4 t" by (rule kernel_onlyD [OF kernel_only_authorize_for_host(3) last])
  have same: "usb_seen_to ?X x s4 \<longleftrightarrow> usb_seen_to ?X x t" for x
    using same_memory_fields [OF m] by (simp add: usb_seen_to_def settled_usb_def)
  have s3: "before_usb D s = s3" by (simp add: before_usb_def before_pci_def gate obs pci)
  obtain xs where xs: "usb_devices D (kern s3) = Inr xs"
    and seen: "inj_on (usb_persistent_id \<circ> fst) (set xs) \<and> inj_on (device_node \<circ> fst) (set xs) \<Longrightarrow>
      \<forall>x\<in>set xs. usb_seen_to ?X x s4"
    using resume_usb_sees [OF usb X] by blast
  show ?thesis
    unfolding s3
    by (intro exI [of _ xs] conjI xs impI)
      (use seen [unfolded same] assms(2) in \<open>auto simp: usb_seen_to_def disconnected_iff\<close>)
qed

text \<open>A keyboard that may go to two VMs, on a bus without a gate.\<close>

definition two_vms_rule :: json where
  "two_vms_rule =
     JObj [(''allowedVms'', JArr [JStr ''gui'', JStr ''net'']),
           (''allow'', JArr [JObj [(''vendorId'', JStr ''A''), (''productId'', JStr ''B'')]])]"

definition asking_config :: config where
  "asking_config = sample_config\<lparr>usb_passthrough := [two_vms_rule]\<rparr>"

definition ungated_disk :: disk where
  "ungated_disk =
     (plugged_disk [])\<lparr>files :=
        filter (\<lambda>(p, v). last p \<noteq> ''drivers_autoprobe'') (files (plugged_disk []))\<rparr>"

definition usb_pass_manager :: "disk manager" where
  "usb_pass_manager = initial_manager (sample_dm asking_config) ungated_disk"

lemma pass_settles_usb_witness:
  "\<exists>xs. usb_devices (sample_dm asking_config)
      (kern (before_usb (sample_dm asking_config) usb_pass_manager)) = Inr xs \<and>
    (\<exists>(d, r)\<in>set xs. usb_persistent_id d = ''usb-a:b:None'' \<and>
       settled_usb d (snd (reconcile (sample_dm asking_config) usb_pass_manager)))"
proof -
  let ?D = "sample_dm asking_config"
  let ?x = "reconcile ?D usb_pass_manager"
  let ?y = "usb_devices ?D (kern (before_usb ?D usb_pass_manager))"
  have "case ?x of (r, t) \<Rightarrow> is_ok r \<and> \<not> deferred t" by code_simp
  then have run: "?x = (Inr (), snd ?x)" and held: "\<not> deferred (snd ?x)"
    by (auto simp: is_ok_unit split: prod.splits)
  have ok: "is_ok ?y" and len: "length (ok_value ?y) = 1"
    and keyboard: "case ok_value ?y ! 0 of (d, r) \<Rightarrow> usb_persistent_id d = ''usb-a:b:None'' \<and>
      \<not> disconnected (persistent usb_pass_manager) (usb_persistent_id d)"
    by code_simp+
  obtain d r where one: "ok_value ?y = [(d, r)]"
    using len by (cases "ok_value ?y") auto
  have "?y = Inr [(d, r)]" using is_ok_value [OF ok] one by simp
  then show ?thesis
    using pass_settles_usb [OF run held] keyboard one by (intro exI [of _ "[(d, r)]"]) auto
qed

section \<open>A pass that gets nowhere\<close>

text \<open>Passes one after the other, each in its own kernel state, with their results; and that the
  scan of no pass among them finds \<open>key\<close> when it observes.\<close>

fun passes :: "'k dm \<Rightarrow> 'k list \<Rightarrow> 'k manager \<Rightarrow> (unit result \<times> 'k manager) list" where
  "passes D [] s = []"
| "passes D (k # ks) s =
     (let x = reconcile D (s\<lparr>kern := k\<rparr>) in x # passes D ks (snd x))"

definition missed :: "'k dm \<Rightarrow> string \<Rightarrow> 'k manager \<Rightarrow> bool" where
  "missed D key s \<longleftrightarrow>
     (case usb_devices D (kern (snd (apply_usb_gate D (s\<lparr>deferred := False\<rparr>)))) of
        Inl _ \<Rightarrow> True
      | Inr usb \<Rightarrow> key \<notin> fst ` set (keyed_usb usb))"

fun stays_away :: "'k dm \<Rightarrow> string \<Rightarrow> 'k list \<Rightarrow> 'k manager \<Rightarrow> bool" where
  "stays_away D key [] s = True"
| "stays_away D key (k # ks) s \<longleftrightarrow>
     missed D key (s\<lparr>kern := k\<rparr>) \<and>
     stays_away D key ks (snd (reconcile D (s\<lparr>kern := k\<rparr>)))"

definition seen_bound ::
  "(string \<times> usb_device) list \<Rightarrow> string \<Rightarrow> usb_port_binding \<Rightarrow> 'k manager \<Rightarrow> bool" where
  "seen_bound seen key b s \<longleftrightarrow>
     observed_usb s = seen \<and> crosvm_usb_ports (persistent s) key = Some b"

lemma seen_bound_memory: "memory_invariant (seen_bound seen key b)"
  by (simp add: memory_invariant_def seen_bound_def same_memory_fields)

lemmas seen_bound_kernel = keeps_kernel_only [OF seen_bound_memory]

lemma seen_bound_gate: "keeps (seen_bound seen key b) (apply_usb_gate D)"
proof -
  have "keeps (seen_bound seen key b) (usb_routing D ds)" for ds
    unfolding usb_routing_def
    by (intro keeps_bind keeps_basic keeps_mod) (simp add: seen_bound_def)
  then show ?thesis
    unfolding apply_usb_gate_def
    by (intro keeps_bind keeps_option keeps_if keeps_basic keeps_forE)
      (auto intro!: seen_bound_kernel kernel_only_intro)
qed

lemma vanished_unknown:
  assumes "seen_bound seen key b s" and "find_vm (cfg D) (binding_vm b) = Inl e"
  shows "vanished_usb D (key, d) s = (Inl e, s)"
  using assms by (simp add: seen_bound_def vanished_usb_def release_vanished_def op_simps)

lemma seen_bound_vanished:
  assumes "find_vm (cfg D) (binding_vm b) = Inl e"
  shows "keeps (seen_bound seen key b) (vanished_usb D x)"
proof (cases "fst x = key")
  case True
  then show ?thesis
    using vanished_unknown [OF _ assms] by (cases x) (auto simp: keeps_def)
next
  case False
  then show ?thesis
    unfolding vanished_usb_def
    by (intro keeps_prod keeps_bind keeps_mod seen_bound_kernel kernel_only_intro kernel_only_save)
      (auto simp: seen_bound_def forget_vanished_def forget_pending_def)
qed

lemma observe_unknown:
  assumes "seen_bound seen key b s" and "key \<in> fst ` set seen"
    and vm: "find_vm (cfg D) (binding_vm b) = Inl e"
    and absent: "\<And>usb. usb_devices D (kern s) = Inr usb \<Longrightarrow> key \<notin> fst ` set (keyed_usb usb)"
    and run: "observe D s = (r, t)"
  shows "\<not> is_ok r \<and> seen_bound seen key b t"
proof (cases "usb_devices D (kern s)")
  case (Inl x)
  then show ?thesis using assms(1) run by (auto simp: observe_def look_result_bind)
next
  case (Inr usb)
  show ?thesis
  proof (cases "pci_devices D (kern s)")
    case (Inl x)
    then show ?thesis using assms(1) run Inr by (auto simp: observe_def look_result_bind)
  next
    case (Inr pci)
    let ?gone = "filter (\<lambda>(key, d). key \<notin> fst ` set (keyed_usb usb)) seen"
    obtain h where h: "forE (filter (\<lambda>(key, d). key \<notin> fst ` set seen) (keyed_usb usb))
        (\<lambda>(key, d). notify (UsbConnected d)) s = (Inr (), s\<lparr>history := h\<rparr>)"
      using forE_notify by blast
    have I: "seen_bound seen key b (s\<lparr>history := h\<rparr>)" using assms(1) by (simp add: seen_bound_def)
    obtain q u where loop: "forE ?gone (vanished_usb D) (s\<lparr>history := h\<rparr>) = (q, u)" by fastforce
    have kept: "keeps (seen_bound seen key b) (forE xs (vanished_usb D))" for xs
      by (intro keeps_forE seen_bound_vanished [OF vm])
    have u: "seen_bound seen key b u" using keepsD2 [OF kept I loop] .
    obtain d where d: "(key, d) \<in> set ?gone"
      using assms(2) absent [OF \<open>usb_devices D (kern s) = Inr usb\<close>] by force
    have "q \<noteq> Inr ()"
    proof
      assume "q = Inr ()"
      obtain i where i: "i < length ?gone" "?gone ! i = (key, d)" using d by (meson in_set_conv_nth)
      let ?v = "at_turn ?gone (vanished_usb D) i (s\<lparr>history := h\<rparr>)"
      have "seen_bound seen key b ?v" using keepsD [OF kept I] by (simp add: at_turn_def)
      then show False
        using forE_at_turn [OF loop [unfolded \<open>q = Inr ()\<close>] i(1)] vanished_unknown [OF _ vm]
        by (simp add: i(2))
    qed
    then obtain x where q: "q = Inl x" by (cases q) auto
    have "observe D s = (Inl x, u)"
      using \<open>usb_devices D (kern s) = Inr usb\<close> Inr h loop assms(1)
      by (simp add: observe_def observe_usb_def op_simps look_result_def q seen_bound_def)
    then show ?thesis using run u by auto
  qed
qed

text \<open>From \<open>s\<close> to \<open>t\<close> nothing was attached to a VM; neither the gate nor \<open>observe\<close> does that.\<close>

definition no_attach :: "effect \<times> 'k \<Rightarrow> bool" where
  "no_attach x \<longleftrightarrow> \<not> is_usb_attach (fst x) \<and> \<not> is_vfio_add (fst x)"

definition attaches_nothing :: "'k manager \<Rightarrow> 'k manager \<Rightarrow> bool" where
  "attaches_nothing s t \<longleftrightarrow> (\<exists>new. history t = history s @ new \<and> list_all no_attach new)"

lemma attaches_nothing_trans:
  "attaches_nothing s t \<Longrightarrow> attaches_nothing t u \<Longrightarrow> attaches_nothing s u"
  by (auto simp: attaches_nothing_def)

lemma no_attach_simps:
  "no_attach (Write p w, k)" "no_attach (Notify n, k)"
  "no_attach (request B [''usb'', ''list'', x], k)" "no_attach (request B (detach_args q so), k)"
  by (simp_all add: no_attach_def is_vfio_add_def request_def detach_args_def)

lemma no_attach_state_file: "state_file_effect c e \<Longrightarrow> no_attach (e, k)"
  by (auto simp: no_attach_def is_vfio_add_def request_def state_file_effect_def Let_def
      split: option.splits effect.splits)

lemma emits_no_attach: "emits no_attach (apply_usb_gate D)" "emits no_attach (observe D)"
proof -
  show "emits no_attach (apply_usb_gate D)"
    unfolding apply_usb_gate_def usb_routing_def configure_authorized_def settle_device_def
      settle_interface_def authorize_usb_for_host_def authorize_one_for_host_def
      probe_if_driverless_def
    by (intro emits_intro no_attach_simps(1)) simp_all
  show "emits no_attach (observe D)"
    unfolding observe_def observe_usb_def observe_pci_def vanished_usb_def vanished_pci_def
      release_vanished_def
    by (intro emits_look_result_bind emits_lift_bind emits_intro)
      (auto simp: no_attach_simps forget_vanished_def forget_pending_def
        intro: no_attach_state_file)
qed

lemma emits_attaches_nothing: "emits no_attach f \<Longrightarrow> f s = (r, t) \<Longrightarrow> attaches_nothing s t"
  by (auto simp: attaches_nothing_def dest: emitsD)

lemma reconcile_stops:
  assumes "seen_bound seen key b s" and "key \<in> fst ` set seen"
    and "find_vm (cfg D) (binding_vm b) = Inl e" and "missed D key s"
    and run: "reconcile D s = (r, t)"
  shows "\<not> is_ok r \<and> seen_bound seen key b t \<and> attaches_nothing s t"
proof -
  let ?s0 = "s\<lparr>deferred := False\<rparr>"
  obtain g s1 where gate: "apply_usb_gate D ?s0 = (g, s1)" by fastforce
  obtain ob s2 where obs: "observe D s1 = (ob, s2)" by fastforce
  have "seen_bound seen key b ?s0" using assms(1) by (simp add: seen_bound_def)
  then have "seen_bound seen key b s1" by (rule keepsD2 [OF seen_bound_gate _ gate])
  then have stop: "\<not> is_ok ob" "seen_bound seen key b s2"
    using observe_unknown [OF _ assms(2,3) _ obs] assms(4) gate
    by (auto simp: missed_def split: sum.splits)
  have "reconcile D s = (ob, s2)"
    using not_is_okD [OF stop(1)] gate obs by (auto simp: reconcile_def op_simps)
  moreover have "attaches_nothing ?s0 s2"
    by (rule attaches_nothing_trans [OF emits_attaches_nothing [OF emits_no_attach(1) gate]
          emits_attaches_nothing [OF emits_no_attach(2) obs]])
  ultimately show ?thesis using run stop by (simp add: attaches_nothing_def)
qed

text \<open>C35: a binding to a VM that is no longer configured stops every pass once its device is gone.
  Suppose that a device seen before has a port recorded for a VM that the configuration does not
  name. However many passes follow one another, in whatever kernel states, as long as none of
  them finds the device again and nothing else is done in between, every one of them fails before
  it attaches anything, and leaves the table of devices seen and the recorded port as they were.\<close>

theorem unknown_vm_blocks_passes:
  assumes "key \<in> fst ` set (observed_usb s)" and "crosvm_usb_ports (persistent s) key = Some b"
    and "find_vm (cfg D) (binding_vm b) = Inl e" and "stays_away D key ks s"
  shows "length (passes D ks s) = length ks \<and>
    list_all (\<lambda>(r, t). \<not> is_ok r \<and> observed_usb t = observed_usb s \<and>
      crosvm_usb_ports (persistent t) key = Some b \<and> attaches_nothing s t) (passes D ks s)"
  using assms
proof (induction ks arbitrary: s)
  case (Cons k ks)
  obtain r t where x: "reconcile D (s\<lparr>kern := k\<rparr>) = (r, t)" by fastforce
  have "seen_bound (observed_usb s) key b (s\<lparr>kern := k\<rparr>)"
    using Cons.prems(2) by (simp add: seen_bound_def)
  from reconcile_stops [OF this Cons.prems(1,3) _ x] Cons.prems(4)
  have one: "\<not> is_ok r" "observed_usb t = observed_usb s" "crosvm_usb_ports (persistent t) key = Some b"
    and now: "attaches_nothing s t"
    by (simp_all add: seen_bound_def attaches_nothing_def)
  have "stays_away D key ks t" using Cons.prems(4) x by simp
  from Cons.IH [OF _ one(3) Cons.prems(3) this] one Cons.prems(1) attaches_nothing_trans [OF now]
  show ?case by (auto simp: x now list_all_iff)
qed simp

text \<open>The keyboard was seen and is gone; its recorded port belongs to a VM that was renamed.\<close>

definition renamed_binding :: usb_port_binding where
  "renamed_binding =
     \<lparr>binding_vm = ''old-gui'', binding_port = 3, socket_gen = ''1:2:3'',
      binding_vid = Some ''a'', binding_pid = Some ''b'', binding_serial = None\<rparr>"

definition blocked_manager :: "disk manager" where
  "blocked_manager =
     (plugged_manager pci_only [])
       \<lparr>observed_usb := [(''1-2'', keyboard)],
        persistent := default_persistent
          \<lparr>crosvm_usb_ports := (\<lambda>_. None)(''1-2'' := Some renamed_binding)\<rparr>\<rparr>"

lemma unknown_vm_blocks_passes_witness:
  "list_all (\<lambda>(r, t). \<not> is_ok r \<and> observed_usb t = [(''1-2'', keyboard)] \<and>
      crosvm_usb_ports (persistent t) ''1-2'' = Some renamed_binding)
     (passes (sample_dm pci_only) [kern blocked_manager, plugged_disk []] blocked_manager) \<and>
   length (passes (sample_dm pci_only) [kern blocked_manager, plugged_disk []] blocked_manager) = 2"
proof -
  let ?D = "sample_dm pci_only" and ?ks = "[kern blocked_manager, plugged_disk []]"
  have away: "stays_away ?D ''1-2'' ?ks blocked_manager"
    and vm: "\<not> is_ok (find_vm (cfg ?D) ''old-gui'')"
    by code_simp+
  have seen: "observed_usb blocked_manager = [(''1-2'', keyboard)]"
    and port: "crosvm_usb_ports (persistent blocked_manager) ''1-2'' = Some renamed_binding"
    and old: "binding_vm renamed_binding = ''old-gui''"
    by (simp_all add: blocked_manager_def renamed_binding_def)
  obtain e where e: "find_vm (cfg ?D) (binding_vm renamed_binding) = Inl e"
    using not_is_okD [OF vm] old by auto
  show ?thesis
    using unknown_vm_blocks_passes [OF _ port e away] by (auto simp: seen list_all_iff)
qed

end
