(* ===== verification/Server.thy ===== *)
theory Server
  imports Api
begin

text \<open>
  The serving side of \<open>src/api.rs\<close>: setting up the listeners, the accept loops that share one
  set of connection permits, and the life of one connection. What the framing, the listeners
  and the broadcast channel deliver is an explicit sequence of events.
\<close>

section \<open>Setting up the listeners\<close>

definition tcp_port_of :: "api \<Rightarrow> 16 word result" where
  "tcp_port_of a =
     (case api_port a of
        None \<Rightarrow> Inr (tcp_port a)
      | Some p \<Rightarrow>
          if unat p < 2 ^ 16 then Inr (ucast p)
          else Inl (Bail ''out of range integral type conversion attempted''))"

definition tcp_address :: "api \<Rightarrow> 16 word \<Rightarrow> string" where
  "tcp_address a p = api_host a @ '':'' @ show_dec (unat p)"

definition listen_unix :: "'k dm \<Rightarrow> api \<Rightarrow> ('k, unit) manager_op" where
  "listen_unix D a =
     (let p = unix_socket a in
      bindE (case path_parent p of None \<Rightarrow> retE () | Some d \<Rightarrow> sys D (CreateDirAll d)) (\<lambda>_.
      bindE (look (path_exists D p)) (\<lambda>stale.
      bindE (if stale then sys D (RemoveFile p) else retE ()) (\<lambda>_.
      bindE (ctxE (''failed to bind Unix socket '' @ path_str p) (sys D (Bind (UnixEndpoint p)))) (\<lambda>_.
      configure_unix_socket D p (unix_socket_user a) (unix_socket_group a) (unix_socket_mode a))))))"

definition listen_tcp :: "'k dm \<Rightarrow> api \<Rightarrow> ('k, unit) manager_op" where
  "listen_tcp D a =
     bindE (liftE (tcp_port_of a)) (\<lambda>p.
     ctxE (''failed to bind TCP address '' @ tcp_address a p)
       (sys D (Bind (TcpEndpoint (tcp_address a p)))))"

definition listen_vsock :: "'k dm \<Rightarrow> api \<Rightarrow> ('k, unit) manager_op" where
  "listen_vsock D a =
     ctxE (''failed to bind VSOCK port '' @ show_dec (unat (vsock_port a)))
       (sys D (Bind (VsockEndpoint (vsock_port a))))"

fun listen_on :: "'k dm \<Rightarrow> api_transport \<Rightarrow> ('k, unit) manager_op" where
  "listen_on D UnixTransport = listen_unix D (api_config (cfg D))"
| "listen_on D TcpTransport = listen_tcp D (api_config (cfg D))"
| "listen_on D VsockTransport = listen_vsock D (api_config (cfg D))"

text \<open>
  The start of \<open>serve\<close>: whether it is to wait for ever because there is nothing to serve;
  otherwise all listeners are set up before any accept loop can fail.
\<close>

definition serves :: "config \<Rightarrow> bool" where
  "serves c \<longleftrightarrow> api_enable (api_config c) \<and> transports (api_config c) \<noteq> []"

definition start_serving :: "'k dm \<Rightarrow> ('k, unit) manager_op" where
  "start_serving D =
     (if serves (cfg D) then forE (transports (api_config (cfg D))) (listen_on D) else retE ())"

section \<open>Accepting\<close>

text \<open>
  One accept loop per transport. It takes a permit before it accepts; the permit goes with an
  accepted connection until that closes, and comes back when the peer is rejected or, after the
  backoff, when accepting failed.
\<close>

datatype phase = Idle | Accepting | BackingOff

datatype peer = UnixPeer | TcpPeer | VsockPeer "32 word"

record server =
  permits :: nat
  loops :: "(api_transport \<times> phase) list"
  connections :: "peer list"

fun peer_of :: "api_transport \<Rightarrow> peer \<Rightarrow> bool" where
  "peer_of UnixTransport p \<longleftrightarrow> p = UnixPeer"
| "peer_of TcpTransport p \<longleftrightarrow> p = TcpPeer"
| "peer_of VsockTransport p \<longleftrightarrow> (case p of VsockPeer c \<Rightarrow> True | _ \<Rightarrow> False)"

fun admitted :: "32 word list \<Rightarrow> peer \<Rightarrow> bool" where
  "admitted allowed (VsockPeer c) \<longleftrightarrow> vsock_admits allowed c"
| "admitted allowed _ \<longleftrightarrow> True"

definition set_phase :: "nat \<Rightarrow> phase \<Rightarrow> server \<Rightarrow> server" where
  "set_phase i p s = s\<lparr>loops := (loops s)[i := (fst (loops s ! i), p)]\<rparr>"

definition phase_is :: "server \<Rightarrow> nat \<Rightarrow> phase \<Rightarrow> bool" where
  "phase_is s i p \<longleftrightarrow> i < length (loops s) \<and> snd (loops s ! i) = p"

definition start_server :: "api_transport list \<Rightarrow> server" where
  "start_server ts =
     \<lparr>permits = MAX_CONNECTIONS, loops = map (\<lambda>t. (t, Idle)) ts, connections = []\<rparr>"

inductive server_step :: "32 word list \<Rightarrow> server \<Rightarrow> server \<Rightarrow> bool" for allowed where
  acquire: "phase_is s i Idle \<Longrightarrow> permits s = Suc n \<Longrightarrow>
    server_step allowed s (set_phase i Accepting s\<lparr>permits := n\<rparr>)"
| accepted: "phase_is s i Accepting \<Longrightarrow> peer_of (fst (loops s ! i)) p \<Longrightarrow> admitted allowed p \<Longrightarrow>
    server_step allowed s (set_phase i Idle s\<lparr>connections := p # connections s\<rparr>)"
| rejected: "phase_is s i Accepting \<Longrightarrow> peer_of (fst (loops s ! i)) p \<Longrightarrow> \<not> admitted allowed p \<Longrightarrow>
    server_step allowed s (set_phase i Idle s\<lparr>permits := Suc (permits s)\<rparr>)"
| failed: "phase_is s i Accepting \<Longrightarrow> server_step allowed s (set_phase i BackingOff s)"
| resumed: "phase_is s i BackingOff \<Longrightarrow>
    server_step allowed s (set_phase i Idle s\<lparr>permits := Suc (permits s)\<rparr>)"
| closed: "p \<in> set (connections s) \<Longrightarrow>
    server_step allowed s (s\<lparr>connections := remove1 p (connections s), permits := Suc (permits s)\<rparr>)"

definition served :: "32 word list \<Rightarrow> api_transport list \<Rightarrow> server \<Rightarrow> bool" where
  "served allowed ts = runs (\<lambda>s. s = start_server ts) (server_step allowed)"

section \<open>One connection\<close>

text \<open>
  What a connection's loop can be woken by: a frame, with whether the reply could be sent, or,
  once notifications are on, what \<open>recv\<close> yields from its subscription, with whether it could be
  sent on. The subscription is made when the connection opens, so that what was broadcast since
  then may wait in it; the channel is \<open>tokio\<close>'s. The manager is shared: what other connections and the
  reconcile loop did to it since the last event is an event of its own.
\<close>

datatype received = News string | Lagged | ChannelClosed

datatype 'k event =
    Frame "(string + string) option" bool
  | Received received bool
  | Meanwhile "'k manager"

datatype sent_line = Replied string | Pushed string

record 'k conn =
  serving :: "'k manager"
  notifying :: bool
  sent :: "sent_line list"
  opened :: bool

definition handle_frame ::
  "'k dm \<Rightarrow> (string \<Rightarrow> string + action) \<Rightarrow> (response \<Rightarrow> string result) \<Rightarrow>
     (string + string) option \<Rightarrow> bool \<Rightarrow> 'k conn \<Rightarrow> 'k conn" where
  "handle_frame D decode encode line ok c =
     (case handle_line D decode line (notifying c) (serving c) of
        ((None, n), s) \<Rightarrow> c\<lparr>opened := False\<rparr>
      | ((Some r, n), s) \<Rightarrow>
          (let c' = c\<lparr>serving := s, notifying := n\<rparr> in
           case encode r of
             Inl _ \<Rightarrow> c'\<lparr>opened := False\<rparr>
           | Inr text \<Rightarrow>
               if ok then c'\<lparr>sent := sent c @ [Replied text]\<rparr> else c'\<lparr>opened := False\<rparr>))"

text \<open>While notifications are off only a frame is waited for; the subscription is not asked.\<close>

definition on_event ::
  "'k dm \<Rightarrow> (string \<Rightarrow> string + action) \<Rightarrow> (response \<Rightarrow> string result) \<Rightarrow> 'k event \<Rightarrow>
     'k conn \<Rightarrow> 'k conn" where
  "on_event D decode encode ev c =
     (if \<not> opened c then c
      else case ev of
             Frame line ok \<Rightarrow> handle_frame D decode encode line ok c
           | Received b ok \<Rightarrow>
               if \<not> notifying c then c
               else (case b of
                       News text \<Rightarrow>
                         if ok then c\<lparr>sent := sent c @ [Pushed text]\<rparr> else c\<lparr>opened := False\<rparr>
                     | Lagged \<Rightarrow> c
                     | ChannelClosed \<Rightarrow> c\<lparr>opened := False\<rparr>)
           | Meanwhile s \<Rightarrow> c\<lparr>serving := s\<rparr>)"

definition open_connection :: "'k manager \<Rightarrow> 'k conn" where
  "open_connection s = \<lparr>serving = s, notifying = False, sent = [], opened = True\<rparr>"

definition run_connection ::
  "'k dm \<Rightarrow> (string \<Rightarrow> string + action) \<Rightarrow> (response \<Rightarrow> string result) \<Rightarrow> 'k event list \<Rightarrow>
     'k manager \<Rightarrow> 'k conn" where
  "run_connection D decode encode evs s = fold (on_event D decode encode) evs (open_connection s)"

end
