(* ===== verification/Store_Properties.thy ===== *)
theory Store_Properties
  imports Server Sample_Host
begin

text \<open>
  The properties of what is kept and exposed in the file system and of what Crosvm reports: the
  state file is replaced as a whole, its disconnected marks are the last ones set, the API
  socket is private before it is handed over, and a list reply is read back as it was written.
\<close>

section \<open>Saving the state\<close>

definition save_effects :: "path \<Rightarrow> path \<Rightarrow> string result \<Rightarrow> effect list" where
  "save_effects dir final text =
     (let tmp = dir @ [temporary_name final] in
      [CreateDirAll dir, OpenTruncate tmp 0x180] @
      (case text of
         Inl _ \<Rightarrow> []
       | Inr x \<Rightarrow> [WriteAll tmp x, WriteAll tmp [newline], SyncAll tmp, Rename tmp final]))"

lemma issues_save:
  assumes "persistency (cfg D)" and "path_parent (state_path (cfg D)) = Some dir"
  shows "\<exists>new. history (snd (save D s)) = history s @ new \<and>
     prefix (map fst new) (save_effects dir (state_path (cfg D)) (encode_state D (persistent s))) \<and>
     (is_ok (fst (save D s)) \<longrightarrow>
        map fst new = save_effects dir (state_path (cfg D)) (encode_state D (persistent s)))"
proof -
  let ?p = "state_path (cfg D)" and ?tmp = "dir @ [temporary_name (state_path (cfg D))]"
  define go :: "persistent_state \<Rightarrow> ('a, unit) manager_op" where "go = (\<lambda>st.
     bindE (liftE (encode_state D st)) (\<lambda>text.
     bindE (sys D (WriteAll ?tmp text)) (\<lambda>_.
     bindE (sys D (WriteAll ?tmp [newline])) (\<lambda>_.
     bindE (sys D (SyncAll ?tmp)) (\<lambda>_.
     sys D (Rename ?tmp ?p))))))"
  define all :: "persistent_state \<Rightarrow> ('a, unit) manager_op" where "all = (\<lambda>st.
     bindE (sys D (CreateDirAll dir)) (\<lambda>_.
     bindE (sys D (OpenTruncate ?tmp 0x180)) (\<lambda>_. go st)))"
  have "issues (save_effects dir ?p (encode_state D st)) (all st)" for st
  proof (cases "encode_state D st")
    case (Inl e)
    then show ?thesis
      unfolding all_def go_def save_effects_def Let_def append_Cons append_Nil
      by (intro issues_bind_one issues_lift_bind issues_intro) simp_all
  next
    case (Inr x)
    then show ?thesis
      unfolding all_def go_def save_effects_def Let_def append_Cons append_Nil
      by (intro issues_bind_one issues_lift_bind issues_intro) (auto intro!: issues_bind_one issues_intro)
  qed
  moreover have "save D s = all (persistent s) s"
    using assms
    by (simp add: save_def all_def go_def op_simps host_defs Let_def split: prod.split sum.split)
  ultimately show ?thesis by (simp add: issues_def)
qed

text \<open>C33: the state file is replaced as a whole or not at all. A save writes the encoding of the
  state that is in memory then, and a newline, to a private temporary file in the directory of
  the state file, syncs it, and only then renames it over the state file, which no other effect
  of the save touches; when it fails it has done a beginning of that.\<close>

theorem save_replaces_whole:
  assumes "persistency (cfg D)" and "path_parent (state_path (cfg D)) = Some dir"
    and "save D s = (r, t)"
  shows "dir @ [temporary_name (state_path (cfg D))] \<noteq> state_path (cfg D) \<and>
    (\<exists>new. history t = history s @ new \<and>
       prefix (map fst new) (save_effects dir (state_path (cfg D)) (encode_state D (persistent s))) \<and>
       (r = Inr () \<longrightarrow>
          map fst new = save_effects dir (state_path (cfg D)) (encode_state D (persistent s))))"
  using issues_save [OF assms(1,2), of s] temporary_differs assms(3) by (simp add: is_ok_unit)

definition saving_dm :: "disk dm" where
  "saving_dm = sample_dm (sample_config\<lparr>persistency := True\<rparr>)"

lemma save_replaces_whole_witness:
  "map fst (history (snd (save saving_dm (plugged_manager sample_config [])))) =
     save_effects (butlast (state_path sample_config)) (state_path sample_config) (Inr ''{}'')"
proof -
  let ?x = "save saving_dm (plugged_manager sample_config [])"
  have "persistency (cfg saving_dm)" by code_simp
  moreover have "path_parent (state_path (cfg saving_dm)) = Some (butlast (state_path sample_config))"
    by code_simp
  moreover have "encode_state saving_dm (persistent (plugged_manager sample_config [])) = Inr ''{}''"
    and "state_path (cfg saving_dm) = state_path sample_config"
    by (simp_all add: saving_dm_def sample_dm_def)
  moreover have "fst ?x = Inr ()" by code_simp
  ultimately show ?thesis
    using save_replaces_whole [OF _ _ surjective_pairing [of ?x]] by auto
qed

section \<open>The disconnected marks\<close>

text \<open>The disconnected marks are exactly what was last asked for. Over any sequence of marking
  and unmarking, a device is disconnected if the last request about it marked it, and as it was
  before if there was none; whatever the order, the list stored is sorted and without
  duplicates when it was so before.\<close>

theorem marks_are_last_requests:
  assumes "marks_wf st"
  shows "disconnected (fold (\<lambda>(i, v). mark_disconnected i v) ms st) j =
      (case map_of (rev ms) j of None \<Rightarrow> disconnected st j | Some v \<Rightarrow> v) \<and>
    marks_wf (fold (\<lambda>(i, v). mark_disconnected i v) ms st)"
  using disc.lookup_fold disc.wf_fold [OF assms] by (rule conjI)

lemma marks_are_last_requests_witness:
  "disconnected (fold (\<lambda>(i, v). mark_disconnected i v)
     [(''usb:b'', True), (''usb:a'', True), (''usb:b'', False)] default_persistent) ''usb:a''"
proof -
  have "marks_wf default_persistent" by (simp add: marks_wf_def default_persistent_def)
  from marks_are_last_requests [OF this, of "[(''usb:b'', True), (''usb:a'', True), (''usb:b'', False)]" "''usb:a''"]
  show ?thesis by simp
qed

section \<open>Crosvm's list of USB ports\<close>

text \<open>A port list is read back as it was written. A reply that says \<open>devices\<close> and then, for each
  occupied port, its number and the two identifiers, in whatever spacing, is parsed to exactly
  those ports.\<close>

theorem usb_list_roundtrip:
  assumes "split_whitespace out = ''devices'' # concat (map (\<lambda>(p, v, i). [show_dec (unat p), v, i]) es)"
  shows "parse_usb_list out = Inr es"
  using assms parse_entries_render [of es] length_entries [of es]
  by (simp add: parse_usb_list_def)

lemma usb_list_roundtrip_witness:
  "parse_usb_list '' devices  3 1d6b 0002  255 046d c077 '' =
     Inr [(3, ''1d6b'', ''0002''), (255, ''046d'', ''c077'')]"
proof (rule usb_list_roundtrip)
  show "split_whitespace '' devices  3 1d6b 0002  255 046d c077 '' =
      ''devices'' # concat (map (\<lambda>(p, v, i). [show_dec (unat p), v, i])
        [(3 :: 8 word, ''1d6b'', ''0002''), (255, ''046d'', ''c077'')])"
    by code_simp
qed

section \<open>The API socket\<close>

definition socket_rest ::
  "path \<Rightarrow> 32 word option result \<Rightarrow> 32 word option result \<Rightarrow> string option \<Rightarrow> effect list" where
  "socket_rest p uid gid mode =
     (case (uid, gid) of
        (Inr u, Inr g) \<Rightarrow>
          (if u = None \<and> g = None then [] else [Chown p u g]) @
          (case Option.bind mode parse_mode of None \<Rightarrow> [] | Some w \<Rightarrow> [SetMode p w])
      | _ \<Rightarrow> [])"

definition socket_effects :: "'k dm \<Rightarrow> api \<Rightarrow> bool \<Rightarrow> effect list" where
  "socket_effects D a old =
     (let p = unix_socket a in
      (case path_parent p of None \<Rightarrow> [] | Some d \<Rightarrow> [CreateDirAll d]) @
      (if old then [RemoveFile p] else []) @ [Bind (UnixEndpoint p), SetMode p 0x180] @
      socket_rest p (transpose_lookup (user_id D) (unix_socket_user a))
        (transpose_lookup (group_id D) (unix_socket_group a)) (unix_socket_mode a))"

lemma issues_configure_unix_socket:
  "issues (SetMode p 0x180 # socket_rest p (transpose_lookup (user_id D) user)
       (transpose_lookup (group_id D) grp) mode)
     (configure_unix_socket D p user grp mode)"
proof -
  have last: "issues (case Option.bind mode parse_mode of None \<Rightarrow> [] | Some w \<Rightarrow> [SetMode p w])
     (case mode of
       None \<Rightarrow> retE ()
     | Some m \<Rightarrow>
         bindE (liftE (case parse_mode m of
                         None \<Rightarrow> Inl (Context ''invalid unixSocketMode'' (Bail (int_error 8 32 0 m)))
                       | Some w \<Rightarrow> Inr w)) (\<lambda>w. sys D (SetMode p w)))"
    by (cases mode) (auto intro!: issues_intro issues_lift_bind split: option.split)
  have chown: "issues (if u = None \<and> g = None then [] else [Chown p u g])
      (if u \<noteq> None \<or> g \<noteq> None then sys D (Chown p u g) else retE ())" for u g
    by (auto intro: issues_intro)
  have "issues (socket_rest p uid gid mode)
      (bindE (liftE uid) (\<lambda>u. bindE (liftE gid) (\<lambda>g.
       bindE (if u \<noteq> None \<or> g \<noteq> None then sys D (Chown p u g) else retE ()) (\<lambda>_.
       case mode of
         None \<Rightarrow> retE ()
       | Some m \<Rightarrow>
           bindE (liftE (case parse_mode m of
                           None \<Rightarrow> Inl (Context ''invalid unixSocketMode'' (Bail (int_error 8 32 0 m)))
                         | Some w \<Rightarrow> Inr w)) (\<lambda>w. sys D (SetMode p w))))))" for uid gid
  proof (intro issues_lift_bind)
    fix u g
    assume "uid = Inr u" and "gid = Inr g"
    then have "socket_rest p uid gid mode = (if u = None \<and> g = None then [] else [Chown p u g]) @
        (case Option.bind mode parse_mode of None \<Rightarrow> [] | Some w \<Rightarrow> [SetMode p w])"
      by (simp only: socket_rest_def prod.case sum.case)
    then show "issues (socket_rest p uid gid mode)
       (bindE (if u \<noteq> None \<or> g \<noteq> None then sys D (Chown p u g) else retE ()) (\<lambda>_.
       case mode of
         None \<Rightarrow> retE ()
       | Some m \<Rightarrow>
           bindE (liftE (case parse_mode m of
                           None \<Rightarrow> Inl (Context ''invalid unixSocketMode'' (Bail (int_error 8 32 0 m)))
                         | Some w \<Rightarrow> Inr w)) (\<lambda>w. sys D (SetMode p w))))"
      by (simp only: issues_bind [OF chown last])
  qed
  then show ?thesis
    unfolding configure_unix_socket_def by (rule issues_bind_one [OF issues_basic(5)])
qed

lemma issues_listen_unix:
  fixes D :: "'k dm" and s :: "'k manager"
  shows "\<exists>old new. history (snd (listen_unix D a s)) = history s @ new \<and>
     prefix (map fst new) (socket_effects D a old) \<and>
     (is_ok (fst (listen_unix D a s)) \<longrightarrow> map fst new = socket_effects D a old)"
proof -
  let ?p = "unix_socket a"
  define dir :: "('k, unit) manager_op" where "dir = (case path_parent ?p of None \<Rightarrow> retE () | Some d \<Rightarrow> sys D (CreateDirAll d))"
  define rest :: "bool \<Rightarrow> ('k, unit) manager_op" where "rest = (\<lambda>old. bindE (if old then sys D (RemoveFile ?p) else retE ()) (\<lambda>_.
      bindE (ctxE (''failed to bind Unix socket '' @ path_str ?p) (sys D (Bind (UnixEndpoint ?p)))) (\<lambda>_.
      configure_unix_socket D ?p (unix_socket_user a) (unix_socket_group a) (unix_socket_mode a))))"
  have rest: "issues ((if old then [RemoveFile ?p] else []) @ Bind (UnixEndpoint ?p) # SetMode ?p 0x180 #
      socket_rest ?p (transpose_lookup (user_id D) (unix_socket_user a))
        (transpose_lookup (group_id D) (unix_socket_group a)) (unix_socket_mode a)) (rest old)" for old
    unfolding rest_def
    by (intro issues_bind issues_bind_one issues_ctxE issues_basic issues_configure_unix_socket)
      (auto intro: issues_intro)
  have dir: "issues (case path_parent ?p of None \<Rightarrow> [] | Some d \<Rightarrow> [CreateDirAll d]) dir"
    unfolding dir_def by (auto intro: issues_intro split: option.split)
  have all: "issues (socket_effects D a old) (bindE dir (\<lambda>_. rest old))" for old
    using issues_bind [OF dir rest] by (simp only: socket_effects_def Let_def append_assoc append_Cons append_Nil)
  have "listen_unix D a s = bindE dir (\<lambda>_. rest (path_exists D ?p (kern (snd (dir s))))) s"
    by (simp add: listen_unix_def dir_def rest_def Let_def bindE_apply look_def op_simps
        split: prod.split sum.split)
  then show ?thesis
    using all [of "path_exists D ?p (kern (snd (dir s)))", unfolded issues_def, THEN spec, of s]
    by (intro exI [of _ "path_exists D ?p (kern (snd (dir s)))"]) simp
qed

text \<open>C37: the API socket is private before it is handed to anyone. Setting up the Unix listener
  binds the socket, at once takes every permission but the owner's, and only after both the user
  and the group are known gives it to them; the configured mode comes last. A name that is not
  known or a mode that does not parse stops it before that, with the socket still private.\<close>

theorem socket_private_first:
  assumes "listen_unix D a s = (r, t)"
  shows "\<exists>old new. history t = history s @ new \<and> prefix (map fst new) (socket_effects D a old) \<and>
    (is_ok r \<longrightarrow> map fst new = socket_effects D a old)"
  using issues_listen_unix [of D a s] assms by simp

definition shared_api :: api where
  "shared_api = (api_config default_config)
     \<lparr>unix_socket := [''run'', ''dm.sock''], unix_socket_user := None,
      unix_socket_group := Some ''root'', unix_socket_mode := Some ''0660''\<rparr>"

lemma socket_private_first_witness:
  "map fst (history (snd (listen_unix (sample_dm sample_config) shared_api
      (plugged_manager sample_config [])))) =
   [CreateDirAll [''run''], Bind (UnixEndpoint [''run'', ''dm.sock'']), SetMode [''run'', ''dm.sock''] 0x180,
    Chown [''run'', ''dm.sock''] None (Some 0), SetMode [''run'', ''dm.sock''] 0x1B0] \<and>
   socket_effects (sample_dm sample_config) shared_api False =
   [CreateDirAll [''run''], Bind (UnixEndpoint [''run'', ''dm.sock'']), SetMode [''run'', ''dm.sock''] 0x180,
    Chown [''run'', ''dm.sock''] None (Some 0), SetMode [''run'', ''dm.sock''] 0x1B0]"
proof -
  let ?x = "listen_unix (sample_dm sample_config) shared_api (plugged_manager sample_config [])"
  have ok: "is_ok (fst ?x)" and len: "length (history (snd ?x)) = 5"
    and none: "socket_effects (sample_dm sample_config) shared_api False =
      [CreateDirAll [''run''], Bind (UnixEndpoint [''run'', ''dm.sock'']), SetMode [''run'', ''dm.sock''] 0x180,
       Chown [''run'', ''dm.sock''] None (Some 0), SetMode [''run'', ''dm.sock''] 0x1B0]"
    and six: "length (socket_effects (sample_dm sample_config) shared_api True) = 6"
    by code_simp+
  obtain old new where n: "history (snd ?x) = history (plugged_manager sample_config []) @ new"
    "map fst new = socket_effects (sample_dm sample_config) shared_api old"
    using socket_private_first [OF surjective_pairing [of ?x]] ok by blast
  then have "old = False" using len six by (cases old) (auto dest: arg_cong [of _ _ length])
  then show ?thesis using n none by simp
qed

end
