(* ===== verification/Server_Properties.thy ===== *)
theory Server_Properties
  imports Server Sample_Host
begin

text \<open>
  The properties of the serving side: how many clients are served at once and which, what a
  connection is answered, and when a notification may reach it.
\<close>

section \<open>Permits\<close>

text \<open>The accept loops that hold a permit.\<close>

definition busy :: "server \<Rightarrow> nat" where
  "busy s = length (filter (\<lambda>(t, p). p \<noteq> Idle) (loops s))"

definition permits_ok :: "32 word list \<Rightarrow> api_transport list \<Rightarrow> server \<Rightarrow> bool" where
  "permits_ok allowed ts s \<longleftrightarrow>
     permits s + busy s + length (connections s) = MAX_CONNECTIONS \<and>
     map fst (loops s) = ts \<and>
     (\<forall>p\<in>set (connections s). admitted allowed p \<and> (\<exists>t\<in>set ts. peer_of t p))"

lemma busy_update [simp]:
  "busy (s\<lparr>permits := n\<rparr>) = busy s" "busy (s\<lparr>connections := cs\<rparr>) = busy s"
  by (simp_all add: busy_def)

lemma filter_update_length:
  assumes "i < length xs"
  shows "length (filter P (xs[i := y])) + (if P (xs ! i) then 1 else 0) =
     length (filter P xs) + (if P y then 1 else 0)"
  using assms
proof (induction xs arbitrary: i)
  case (Cons x xs)
  then show ?case by (cases i) auto
qed simp

lemma busy_set_phase:
  assumes "phase_is s i q"
  shows "busy (set_phase i p s) + (if q \<noteq> Idle then 1 else 0) = busy s + (if p \<noteq> Idle then 1 else 0)"
proof -
  obtain t where t: "loops s ! i = (t, q)" and i: "i < length (loops s)"
    using assms by (metis phase_is_def prod.collapse)
  show ?thesis
    using filter_update_length [OF i, of "\<lambda>(t, p). p \<noteq> Idle" "(t, p)"]
    by (simp add: busy_def set_phase_def t)
qed

lemma set_phase_simps [simp]:
  "permits (set_phase i p s) = permits s" "connections (set_phase i p s) = connections s"
  by (simp_all add: set_phase_def)

lemma loops_set_phase: "phase_is s i q \<Longrightarrow> map fst (loops (set_phase i p s)) = map fst (loops s)"
  by (simp add: set_phase_def phase_is_def map_update list_update_same_conv)

lemma phase_is_update [simp]:
  "phase_is (s\<lparr>permits := n\<rparr>) i q = phase_is s i q"
  "phase_is (s\<lparr>connections := cs\<rparr>) i q = phase_is s i q"
  by (simp_all add: phase_is_def)

lemma loop_transport: "phase_is s i q \<Longrightarrow> fst (loops s ! i) \<in> set (map fst (loops s))"
  by (auto simp: phase_is_def)

lemma permits_ok_step: "server_step allowed s s' \<Longrightarrow> permits_ok allowed ts s \<Longrightarrow> permits_ok allowed ts s'"
proof (induction rule: server_step.induct)
  case (acquire s i n)
  then show ?case
    using busy_set_phase [of s i Idle Accepting] loops_set_phase [of s i Idle Accepting]
    by (simp add: permits_ok_def)
next
  case (accepted s i p)
  then show ?case
    using busy_set_phase [of s i Accepting Idle] loops_set_phase [of s i Accepting Idle]
      loop_transport [of s i Accepting]
    by (auto simp: permits_ok_def)
next
  case (rejected s i p)
  then show ?case
    using busy_set_phase [of s i Accepting Idle] loops_set_phase [of s i Accepting Idle]
    by (simp add: permits_ok_def)
next
  case (failed s i)
  then show ?case
    using busy_set_phase [of s i Accepting BackingOff] loops_set_phase [of s i Accepting BackingOff]
    by (simp add: permits_ok_def)
next
  case (resumed s i)
  then show ?case
    using busy_set_phase [of s i BackingOff Idle] loops_set_phase [of s i BackingOff Idle]
    by (simp add: permits_ok_def)
next
  case (closed p s)
  then have "length (connections s) = Suc (length (remove1 p (connections s)))"
    by (metis One_nat_def Suc_pred length_pos_if_in_set length_remove1)
  then show ?case using closed by (auto simp: permits_ok_def dest: set_remove1_subset [THEN subsetD])
qed

interpretation permit_runs: machine_invariant
  "\<lambda>s. s = start_server ts" "server_step allowed" "permits_ok allowed ts" for allowed ts
proof
  fix s
  assume "s = start_server ts"
  moreover have "filter (\<lambda>(t, p). p \<noteq> Idle) (map (\<lambda>t. (t, Idle)) ts) = []"
    by (simp add: filter_empty_conv)
  ultimately show "permits_ok allowed ts s"
    by (simp add: permits_ok_def start_server_def busy_def comp_def)
qed (rule permits_ok_step)

lemma served_permits_ok: "served allowed ts s \<Longrightarrow> permits_ok allowed ts s"
  unfolding served_def by (rule permit_runs.always)

lemma peer_of_vsock [simp]: "peer_of t (VsockPeer c) \<longleftrightarrow> t = VsockTransport"
  by (cases t) simp_all

text \<open>C38: clients never cost the daemon more than its share, whatever the clients do. In every
  state the accept loops can reach, the permits left, the loops that hold one and the connections
  open add up to 64: no permit is lost by a failed accept, a rejected peer or a closed
  connection, and none is made up. Every VSOCK client served is on the allow list, unless that is
  empty, and came in over a configured VSOCK transport.\<close>

theorem connections_bounded:
  assumes "served allowed ts s"
  shows "permits s + busy s + length (connections s) = 64 \<and>
    {c. VsockPeer c \<in> set (connections s)} \<subseteq>
      (if VsockTransport \<in> set ts then {c. vsock_admits allowed c} else {})"
proof -
  have ok: "permits_ok allowed ts s" by (rule served_permits_ok [OF assms])
  show ?thesis using ok by (fastforce simp: permits_ok_def MAX_CONNECTIONS_def)
qed

text \<open>A VSOCK client with the host's CID comes in, and one that is not allowed is turned away.\<close>

definition one_client :: server where
  "one_client = \<lparr>permits = 63, loops = [(VsockTransport, Idle)], connections = [VsockPeer 2]\<rparr>"

lemma one_client_served: "served [2] [VsockTransport] one_client"
proof -
  have "runs (\<lambda>s. s = start_server [VsockTransport]) (server_step [2]) (start_server [VsockTransport])"
    by (rule runs_init) (rule refl)
  moreover have "server_step [2] (start_server [VsockTransport])
      \<lparr>permits = 63, loops = [(VsockTransport, Accepting)], connections = []\<rparr>"
    using acquire [of "start_server [VsockTransport]" 0 63 "[2]"]
    by (simp add: start_server_def phase_is_def set_phase_def MAX_CONNECTIONS_def)
  moreover have "server_step [2]
      \<lparr>permits = 63, loops = [(VsockTransport, Accepting)], connections = []\<rparr> one_client"
    using accepted [of "\<lparr>permits = 63, loops = [(VsockTransport, Accepting)], connections = []\<rparr>"
        0 "VsockPeer 2" "[2]"]
    by (simp add: phase_is_def set_phase_def vsock_admits_def one_client_def)
  ultimately show ?thesis unfolding served_def by (rule runs_move [OF runs_move])
qed

lemma connections_bounded_witness:
  "permits one_client + busy one_client + length (connections one_client) = 64 \<and>
   vsock_admits [2] 2 \<and> \<not> vsock_admits [2] 3"
  using connections_bounded [OF one_client_served]
  by (simp add: one_client_def vsock_admits_def)

section \<open>One connection\<close>

definition replied :: "sent_line list \<Rightarrow> string list" where
  "replied xs = List.map_filter (\<lambda>x. case x of Replied t \<Rightarrow> Some t | Pushed _ \<Rightarrow> None) xs"

text \<open>What the frames of a connection are answered, notifications left aside.\<close>

fun answers ::
  "'k dm \<Rightarrow> (string \<Rightarrow> string + action) \<Rightarrow> (response \<Rightarrow> string result) \<Rightarrow> 'k event list \<Rightarrow>
     'k manager \<Rightarrow> string list" where
  "answers D decode encode [] s = []"
| "answers D decode encode (Received b ok # evs) s = answers D decode encode evs s"
| "answers D decode encode (Meanwhile s' # evs) s = answers D decode encode evs s'"
| "answers D decode encode (Frame line ok # evs) s =
     (case handle_line D decode line False s of
        ((None, _), _) \<Rightarrow> []
      | ((Some r, _), s') \<Rightarrow>
          (case encode r of
             Inl _ \<Rightarrow> []
           | Inr text \<Rightarrow> if ok then text # answers D decode encode evs s' else []))"

lemma replied_simps [simp]:
  "replied [] = []" "replied (xs @ ys) = replied xs @ replied ys"
  "replied [Replied t] = [t]" "replied [Pushed t] = []"
  by (simp_all add: replied_def List.map_filter_def)

lemma handle_line_flag:
  "\<exists>n'. handle_line D decode line n s =
     ((fst (fst (handle_line D decode line False s)), n'), snd (handle_line D decode line False s))"
  by (auto simp: handle_line_def split: option.split sum.split prod.split)

lemma closed_stays: "\<not> opened c \<Longrightarrow> fold (on_event D decode encode) evs c = c"
  by (induction evs) (simp_all add: on_event_def)

lemma replied_fold:
  assumes "opened c"
  shows "prefix (replied (sent (fold (on_event D decode encode) evs c)))
      (replied (sent c) @ answers D decode encode evs (serving c)) \<and>
    (opened (fold (on_event D decode encode) evs c) \<longrightarrow>
       replied (sent (fold (on_event D decode encode) evs c)) =
         replied (sent c) @ answers D decode encode evs (serving c))"
  using assms
proof (induction evs arbitrary: c)
  case Nil
  then show ?case by simp
next
  case (Cons ev evs)
  let ?c = "on_event D decode encode ev c"
  show ?case
  proof (cases "opened ?c")
    case True
    have "replied (sent ?c) @ answers D decode encode evs (serving ?c) =
        replied (sent c) @ answers D decode encode (ev # evs) (serving c)"
    proof (cases ev)
      case (Frame line ok)
      obtain n' where h: "handle_line D decode line (notifying c) (serving c) =
          ((fst (fst (handle_line D decode line False (serving c))), n'),
            snd (handle_line D decode line False (serving c)))"
        using handle_line_flag by metis
      show ?thesis
        using True Cons.prems unfolding Frame
        by (auto simp: on_event_def handle_frame_def h Let_def split: option.splits prod.splits
            sum.splits if_splits)
    next
      case (Received b ok)
      then show ?thesis
        using True Cons.prems by (cases b) (auto simp: on_event_def split: if_splits)
    next
      case (Meanwhile s)
      then show ?thesis using Cons.prems by (simp add: on_event_def)
    qed
    then show ?thesis using Cons.IH [OF True] by simp
  next
    case False
    then have "fold (on_event D decode encode) (ev # evs) c = ?c" by (simp add: closed_stays)
    moreover have "sent ?c = sent c"
      using False Cons.prems
      by (cases ev) (auto simp: on_event_def handle_frame_def Let_def
          split: option.splits prod.splits sum.splits if_splits received.splits)
    ultimately show ?thesis using False by simp
  qed
qed

text \<open>C39: a connection answers its frames one to one and in order, whatever is pushed in
  between. The replies sent are a beginning of what the frames alone would be answered, a frame
  that is no valid request included, and all of it as long as the connection is open; other
  connections only matter through what they do to the manager.\<close>

theorem connection_answers:
  assumes "run_connection D decode encode evs s = c"
  shows "prefix (replied (sent c)) (answers D decode encode evs s) \<and>
    (\<not> opened c \<or> replied (sent c) = answers D decode encode evs s)"
  using replied_fold [of "open_connection s" D decode encode evs] assms
  by (auto simp: run_connection_def open_connection_def)

definition sample_decode :: "string \<Rightarrow> string + action" where
  "sample_decode text =
     (if text = ''on'' then Inr EnableNotifications
      else if text = ''list'' then Inr (UsbList None None)
      else Inl ''expected value'')"

definition sample_encode :: "response \<Rightarrow> string result" where
  "sample_encode r =
     Inr (case r of OkResponse EmptyPayload \<Rightarrow> ''ok'' | OkResponse _ \<Rightarrow> ''listed'' | FailedResponse m \<Rightarrow> m)"

definition sample_events :: "disk event list" where
  "sample_events =
     [Received (News ''early'') True, Frame (Some (Inr ''?'')) True, Frame (Some (Inr ''on'')) True,
      Received (News ''late'') True, Frame (Some (Inr ''list'')) True]"

definition sample_connection :: "disk conn" where
  "sample_connection =
     run_connection (sample_dm sample_config) sample_decode sample_encode sample_events
       (plugged_manager sample_config [])"

lemma sample_connection_sent:
  "opened sample_connection \<and>
   sent sample_connection =
     [Replied ''Invalid API message: expected value'', Replied ''ok'', Pushed ''late'',
      Replied ''listed'']"
  by code_simp

lemma connection_answers_witness:
  "answers (sample_dm sample_config) sample_decode sample_encode sample_events
     (plugged_manager sample_config []) =
   [''Invalid API message: expected value'', ''ok'', ''listed'']"
  using connection_answers [OF sample_connection_def [symmetric]] sample_connection_sent
  by (simp add: replied_def List.map_filter_def)

text \<open>Where notifications come from: the frame that asked for them.\<close>

definition asked ::
  "(string \<Rightarrow> string + action) \<Rightarrow> 'k event list \<Rightarrow> 'k event list \<Rightarrow> bool" where
  "asked decode evs post \<longleftrightarrow>
     (\<exists>pre text. evs = pre @ Frame (Some (Inr text)) True # post \<and> decode text = Inr EnableNotifications)"

lemma asked_snoc: "asked decode evs post \<Longrightarrow> asked decode (evs @ [ev]) (post @ [ev])"
  by (force simp: asked_def)

lemma handle_line_notifying:
  "handle_line D decode line n s = ((r, n'), s') \<Longrightarrow> n' \<Longrightarrow> \<not> n \<Longrightarrow>
     \<exists>text. line = Some (Inr text) \<and> decode text = Inr EnableNotifications"
  by (auto simp: handle_line_def split: option.splits sum.splits prod.splits)

lemma on_event_sent:
  "sent (on_event D decode encode ev c) = sent c \<or>
   (\<exists>r. sent (on_event D decode encode ev c) = sent c @ [Replied r]) \<or>
   (\<exists>t. sent (on_event D decode encode ev c) = sent c @ [Pushed t] \<and>
      ev = Received (News t) True \<and> opened c \<and> notifying c)"
proof (cases ev)
  case (Frame line ok)
  then show ?thesis
    by (auto simp: on_event_def handle_frame_def Let_def split: option.split prod.split sum.split)
next
  case (Received b ok)
  then show ?thesis by (cases b) (auto simp: on_event_def)
qed (simp add: on_event_def)

lemma on_event_opened: "opened (on_event D decode encode ev c) \<Longrightarrow> opened c"
  by (auto simp: on_event_def split: if_splits)

lemma on_event_notifying:
  assumes "opened (on_event D decode encode ev c)" and "notifying (on_event D decode encode ev c)"
    and "\<not> notifying c"
  shows "\<exists>text r. ev = Frame (Some (Inr text)) True \<and> decode text = Inr EnableNotifications \<and>
    sent (on_event D decode encode ev c) = sent c @ [Replied r]"
proof (cases ev)
  case (Frame line ok)
  obtain r n' s' where h: "handle_line D decode line False (serving c) = ((r, n'), s')"
    by (metis prod.collapse)
  show ?thesis
    using assms on_event_opened [OF assms(1)] handle_line_notifying [OF h] unfolding Frame
    by (auto simp: on_event_def handle_frame_def h Let_def split: option.splits sum.splits if_splits)
next
  case (Received b ok)
  then show ?thesis using assms by (auto simp: on_event_def split: if_splits)
next
  case (Meanwhile s)
  then show ?thesis using assms by (auto simp: on_event_def split: if_splits)
qed

lemma sent_on_request:
  fixes D :: "'k dm" and decode :: "string \<Rightarrow> string + action"
    and encode :: "response \<Rightarrow> string result" and s :: "'k manager"
  defines "C \<equiv> \<lambda>evs. run_connection D decode encode evs s"
  shows "(opened (C evs) \<and> notifying (C evs) \<longrightarrow>
      replied (sent (C evs)) \<noteq> [] \<and> (\<exists>post. asked decode evs post)) \<and>
    (\<forall>xs t ys. sent (C evs) = xs @ Pushed t # ys \<longrightarrow>
      replied xs \<noteq> [] \<and> (\<exists>post. asked decode evs post \<and> Received (News t) True \<in> set post))"
proof (induction evs rule: rev_induct)
  case Nil
  then show ?case by (simp add: C_def run_connection_def open_connection_def)
next
  case (snoc ev evs)
  let ?c = "C evs" and ?d = "on_event D decode encode ev (C evs)"
  have d: "C (evs @ [ev]) = ?d" by (simp add: C_def run_connection_def)
  have now: "replied (sent ?d) \<noteq> [] \<and> (\<exists>post. asked decode (evs @ [ev]) post)"
    if o: "opened ?d" and n: "notifying ?d"
  proof (cases "notifying ?c")
    case True
    then obtain post where "replied (sent ?c) \<noteq> []" and "asked decode evs post"
      using snoc.IH on_event_opened [OF o] by blast
    then show ?thesis
      using on_event_sent [of D decode encode ev ?c] asked_snoc [of decode evs post ev] by auto
  next
    case False
    then show ?thesis
      using on_event_notifying [OF o n False] by (fastforce simp: asked_def)
  qed
  have past: "replied xs \<noteq> [] \<and>
      (\<exists>post. asked decode (evs @ [ev]) post \<and> Received (News t) True \<in> set post)"
    if pushed: "sent ?d = xs @ Pushed t # ys" for xs t ys
  proof (cases "\<exists>zs. sent ?c = xs @ Pushed t # zs")
    case True
    then obtain post where "replied xs \<noteq> []" "asked decode evs post" "Received (News t) True \<in> set post"
      using snoc.IH by blast
    then show ?thesis using asked_snoc [of decode evs post ev] by auto
  next
    case False
    then have old: "xs @ Pushed t # zs \<noteq> sent ?c" for zs by metis
    have last: "ys = [] \<and> sent ?c = xs \<and> ev = Received (News t) True \<and> opened ?c \<and> notifying ?c"
      using on_event_sent [of D decode encode ev ?c] pushed old
      by (cases ys rule: rev_cases) auto
    then obtain post where "replied xs \<noteq> []" "asked decode evs post"
      using snoc.IH by blast
    then show ?thesis using last asked_snoc [of decode evs post ev] by auto
  qed
  show ?case unfolding d using now past by blast
qed

text \<open>Nobody is sent a notification who did not ask. Whatever a connection has been pushed was
  taken from its subscription after a well-formed request of this connection for notifications,
  and something was replied to it before.\<close>

theorem notified_on_request:
  assumes "sent (run_connection D decode encode evs s) = xs @ Pushed t # ys"
  shows "replied xs \<noteq> [] \<and>
    (\<exists>pre text post. evs = pre @ Frame (Some (Inr text)) True # post \<and>
       decode text = Inr EnableNotifications \<and> Received (News t) True \<in> set post)"
proof -
  obtain post where "replied xs \<noteq> []" "asked decode evs post" "Received (News t) True \<in> set post"
    using sent_on_request [of D decode encode evs s] assms by blast
  then show ?thesis by (auto simp: asked_def)
qed

lemma notified_on_request_witness:
  "\<exists>pre text post. sample_events = pre @ Frame (Some (Inr text)) True # post \<and>
     sample_decode text = Inr EnableNotifications \<and> Received (News ''late'') True \<in> set post"
proof -
  have "sent sample_connection =
      [Replied ''Invalid API message: expected value'', Replied ''ok''] @ Pushed ''late'' #
      [Replied ''listed'']"
    using sample_connection_sent by simp
  from notified_on_request [OF this [unfolded sample_connection_def]] show ?thesis by (rule conjunct2)
qed

end
