(* ===== verification/Daemon.thy ===== *)
theory Daemon
  imports Server System
begin

text \<open>
  The daemon, \<open>src/bin/ghaf-device-manager.rs\<close>: what it does before, while and after it
  serves. The interleaving of API requests, the stages of reconcile passes and changes of the
  environment is an explicit sequence of events, and the way the wait ends is an input. A pass
  that is under way when the wait ends is aborted: its remaining stages do not happen. The effects of
  setting up the API's listeners are not in this history: they are \<open>start_serving\<close>, which touches
  nothing of the manager's memory, and here only the result of serving comes in, as the way the
  wait ends.
\<close>

definition RECONCILE_RETRY_INTERVAL :: nat where "RECONCILE_RETRY_INTERVAL = 2"
definition RECONCILE_SAFETY_INTERVAL :: nat where "RECONCILE_SAFETY_INTERVAL = 30"

text \<open>The wait before the next pass, in seconds.\<close>

definition next_delay :: "unit result \<Rightarrow> bool \<Rightarrow> nat" where
  "next_delay r waiting =
     (case r of
        Inr _ \<Rightarrow> if waiting then RECONCILE_RETRY_INTERVAL else RECONCILE_SAFETY_INTERVAL
      | Inl _ \<Rightarrow> RECONCILE_RETRY_INTERVAL)"

text \<open>Whether a batch of udev events wakes the loop.\<close>

definition relevant :: "string option list \<Rightarrow> bool" where
  "relevant subsystems \<longleftrightarrow> list_ex (\<lambda>s. s = Some ''usb'' \<or> s = Some ''pci'') subsystems"

text \<open>A request is served, the loop wakes up and begins a pass, the pass gets on by one stage, or
  the environment changes.\<close>

datatype 'k occurrence =
    Requested action
  | Woken
  | Advanced
  | Changed 'k

record 'k daemon =
  managed :: "'k manager"
  delay :: nat
  progress :: "point option"

definition passed_over :: "unit result \<Rightarrow> 'k manager \<Rightarrow> 'k daemon" where
  "passed_over r t = \<lparr>managed = t, delay = next_delay r (deferred t), progress = None\<rparr>"

definition pass :: "'k dm \<Rightarrow> 'k manager \<Rightarrow> 'k daemon" where
  "pass D s = (case reconcile D s of (r, t) \<Rightarrow> passed_over r t)"

definition pass_on :: "'k dm \<Rightarrow> point \<Rightarrow> 'k daemon \<Rightarrow> 'k daemon" where
  "pass_on D q d =
     (case advance D (q, managed d) of (q', t) \<Rightarrow>
        (case q' of
           Over r \<Rightarrow> passed_over r t
         | _ \<Rightarrow> d\<lparr>managed := t, progress := Some q'\<rparr>))"

fun occurs :: "'k dm \<Rightarrow> 'k occurrence \<Rightarrow> 'k daemon \<Rightarrow> 'k daemon" where
  "occurs D (Requested a) d = d\<lparr>managed := snd (handle D a (managed d))\<rparr>"
| "occurs D Woken d = (if progress d = None then d\<lparr>progress := Some Settling\<rparr> else d)"
| "occurs D Advanced d = (case progress d of None \<Rightarrow> d | Some q \<Rightarrow> pass_on D q d)"
| "occurs D (Changed k) d = d\<lparr>managed := (managed d)\<lparr>kern := k\<rparr>\<rparr>"

text \<open>The first pass decides the first delay; without \<open>attach_connected\<close> there is none. Nothing
  is served before it is over.\<close>

definition first_pass :: "'k dm \<Rightarrow> bool \<Rightarrow> 'k manager \<Rightarrow> 'k daemon" where
  "first_pass D attach_connected s =
     (if attach_connected then pass D s
      else \<lparr>managed = s, delay = RECONCILE_RETRY_INTERVAL, progress = None\<rparr>)"

text \<open>How the wait of \<open>daemon\<close> ends.\<close>

datatype stop =
    Served "unit result"
  | LoopStopped
  | LoopPanicked string
  | ShutDown

fun outcome_of :: "stop \<Rightarrow> unit result" where
  "outcome_of (Served r) = r"
| "outcome_of LoopStopped = Inl (Bail ''device reconciliation stopped'')"
| "outcome_of (LoopPanicked m) = Inl (Bail (''device reconciliation panicked: '' @ m))"
| "outcome_of ShutDown = Inr ()"

definition daemon_main ::
  "'k dm \<Rightarrow> bool \<Rightarrow> unit result \<Rightarrow> 'k occurrence list \<Rightarrow> stop \<Rightarrow> ('k, unit) manager_op" where
  "daemon_main D attach_connected monitor occs ending =
     bindE (liftE monitor) (\<lambda>_.
     (\<lambda>s. (outcome_of ending, managed (fold (occurs D) occs (first_pass D attach_connected s)))))"

definition left_closed :: string where
  "left_closed = ''USB driver binding was left with the manager''"

text \<open>\<open>run\<close>, from the construction of the manager on. \<open>signals\<close> is the registration of the
  signal handlers.\<close>

definition run_daemon ::
  "'k dm \<Rightarrow> bool \<Rightarrow> unit result \<Rightarrow> unit result \<Rightarrow> 'k occurrence list \<Rightarrow> stop \<Rightarrow>
     ('k, unit) manager_op" where
  "run_daemon D attach_connected signals monitor occs ending =
     bindE (liftE signals) (\<lambda>_.
     bindE (tryE (enable_usb_authorization D)) (\<lambda>_.
     bindE (tryE (close_usb_gate D)) (\<lambda>_.
     bindE (tryE (daemon_main D attach_connected monitor occs ending)) (\<lambda>out.
     bindE (tryE (open_usb_gate D)) (\<lambda>reopened.
     case reopened of
       Inl e \<Rightarrow> liftE (case out of Inl e' \<Rightarrow> Inl e' | Inr _ \<Rightarrow> Inl (Context left_closed e))
     | Inr _ \<Rightarrow> liftE out)))))"

definition start_daemon ::
  "'k dm \<Rightarrow> bool \<Rightarrow> unit result \<Rightarrow> unit result \<Rightarrow> 'k occurrence list \<Rightarrow> stop \<Rightarrow> 'k \<Rightarrow>
     unit result \<times> 'k manager option" where
  "start_daemon D attach_connected signals monitor occs ending k =
     (case with_roots D k of
        Inl e \<Rightarrow> (Inl e, None)
      | Inr s \<Rightarrow>
          (case run_daemon D attach_connected signals monitor occs ending s of
             (r, t) \<Rightarrow> (r, Some t)))"

text \<open>The whole of \<open>run\<close>, from the configuration file on, and the exit status of \<open>main\<close>.\<close>

definition run_main ::
  "'k dm \<Rightarrow> (string \<Rightarrow> config result) \<Rightarrow> path \<Rightarrow> bool \<Rightarrow> unit result \<Rightarrow> unit result \<Rightarrow>
     'k occurrence list \<Rightarrow> stop \<Rightarrow> 'k \<Rightarrow> unit result \<times> 'k manager option" where
  "run_main D parse file_path attach_connected signals monitor occs ending k =
     (case load_config D parse file_path k of
        Inl e \<Rightarrow> (Inl e, None)
      | Inr c \<Rightarrow>
          start_daemon (D\<lparr>cfg := c\<rparr>) attach_connected signals monitor occs ending k)"

definition daemon_status :: "unit result \<Rightarrow> string option \<times> nat" where
  "daemon_status r =
     (case r of Inr _ \<Rightarrow> (None, 0) | Inl e \<Rightarrow> (Some (''ERROR '' @ error_chain e), 1))"

end
