(* ===== verification/Daemon_Properties.thy ===== *)
theory Daemon_Properties
  imports Daemon Gate_Properties
begin

text \<open>
  The properties of the daemon as a whole: it stays within the step relation of the system, and
  it hands USB driver binding back however it ends.
\<close>

section \<open>The daemon is a run of the system\<close>

lemma reachable_advance: "reachable D s \<Longrightarrow> point_ok D q \<Longrightarrow> reachable D (snd (advance D (q, s)))"
  by (rule reachable_step, assumption, rule step.stage) (auto intro: surjective_pairing)

lemma reachable_reconcile: "reachable D s \<Longrightarrow> reachable D (snd (reconcile D s))"
proof -
  assume "reachable D s"
  then have "point_ok D (fst ((advance D ^^ n) (Settling, s))) \<and>
      reachable D (snd ((advance D ^^ n) (Settling, s)))" for n
  proof (induction n)
    case (Suc n)
    let ?x = "(advance D ^^ n) (Settling, s)"
    show ?case
      using reachable_advance [of D "snd ?x" "fst ?x"] point_ok_advance [of D "fst ?x" "snd ?x"] Suc
      by simp
  qed simp
  then show ?thesis
    using advance_runs [where x = "(Settling, s)" and D = D, OF order_refl]
    by (metis (no_types, lifting) case_prod_beta fst_conv pass_rest.simps(1) snd_conv)
qed

lemma reachable_steps:
  assumes "reachable D s"
  shows "reachable D (snd (handle D a s))" "reachable D (snd (close_usb_gate D s))"
    "reachable D (snd (enable_usb_authorization D s))" "reachable D (snd (open_usb_gate D s))"
    "reachable D (s\<lparr>kern := k\<rparr>)"
  by (rule reachable_step [OF assms], rule step.intros, rule surjective_pairing)+
    (rule reachable_step [OF assms environment])

text \<open>The daemon's manager is reachable, and a pass under way carries tables that scans gave.\<close>

definition daemon_ok :: "'k dm \<Rightarrow> 'k daemon \<Rightarrow> bool" where
  "daemon_ok D d \<longleftrightarrow>
     reachable D (managed d) \<and> (case progress d of None \<Rightarrow> True | Some q \<Rightarrow> point_ok D q)"

lemma daemon_ok_pass_on:
  assumes "daemon_ok D d" and "progress d = Some q"
  shows "daemon_ok D (pass_on D q d)"
proof -
  obtain q' t where a: "advance D (q, managed d) = (q', t)" by fastforce
  have "reachable D t" and "point_ok D q'"
    using reachable_advance [of D "managed d" q] point_ok_advance [of D q "managed d"] assms a
    by (simp_all add: daemon_ok_def)
  then show ?thesis
    by (cases q') (simp_all add: pass_on_def a passed_over_def daemon_ok_def)
qed

lemma daemon_ok_occurs:
  assumes "daemon_ok D d"
  shows "daemon_ok D (occurs D x d)"
proof (cases x)
  case Advanced
  then show ?thesis using assms daemon_ok_pass_on by (auto split: option.split)
qed (use assms in \<open>auto simp: daemon_ok_def reachable_steps\<close>)

lemma reachable_fold:
  "daemon_ok D d \<Longrightarrow> reachable D (managed (fold (occurs D) xs d))"
proof -
  assume "daemon_ok D d"
  then have "daemon_ok D (fold (occurs D) xs d)"
    by (induction xs arbitrary: d) (simp_all add: daemon_ok_occurs)
  then show ?thesis by (simp add: daemon_ok_def)
qed

lemma daemon_ok_first_pass: "reachable D s \<Longrightarrow> daemon_ok D (first_pass D a s)"
  using reachable_reconcile [of D s]
  by (simp add: first_pass_def pass_def passed_over_def daemon_ok_def case_prod_beta)

lemma keeps_daemon_main: "keeps (reachable D) (daemon_main D a monitor occs ending)"
  unfolding daemon_main_def
  by (intro keeps_bind keeps_basic) (simp add: keeps_def reachable_fold daemon_ok_first_pass)

lemma keeps_run_daemon: "keeps (reachable D) (run_daemon D a signals monitor occs ending)"
proof -
  have "keeps (reachable D) (enable_usb_authorization D)" "keeps (reachable D) (close_usb_gate D)"
    "keeps (reachable D) (open_usb_gate D)"
    by (simp_all add: keeps_def reachable_steps)
  then show ?thesis
    unfolding run_daemon_def by (intro keeps_intro keeps_daemon_main)
qed

lemma start_daemon_reachable:
  assumes "validate (cfg D) = Inr ()"
  shows "\<exists>t. snd (start_daemon D a signals monitor occs ending k) = Some t \<and> reachable D t"
proof -
  have w: "with_roots D k = Inr (initial_manager D k)" using assms by (simp add: with_roots_def)
  have "reachable D (snd (run_daemon D a signals monitor occs ending (initial_manager D k)))"
    by (rule keepsD [OF keeps_run_daemon reachable_start [OF w]])
  then show ?thesis by (simp add: start_daemon_def w case_prod_beta)
qed

text \<open>C9: everything shown of the states the system can reach holds of the daemon. A run of the
  program either ends early, with an error and no manager, because the configuration could not be
  read, parsed or validated; or, whatever the requests, the stages of its passes, the changes of the
  environment and the way the wait ends, the state it leaves behind is one that the steps of the
  system reach under the configuration it loaded.\<close>

theorem daemon_within_system:
  assumes "run_main D parse p attach_connected signals monitor occs ending k = (r, final)"
  shows "(\<exists>e. load_config D parse p k = Inl e \<and> r = Inl e \<and> final = None) \<or>
    (\<exists>c t. load_config D parse p k = Inr c \<and> validate c = Inr () \<and> final = Some t \<and>
       reachable (D\<lparr>cfg := c\<rparr>) t)"
proof (cases "load_config D parse p k")
  case (Inl e)
  then show ?thesis using assms by (simp add: run_main_def)
next
  case (Inr c)
  have v: "validate (cfg (D\<lparr>cfg := c\<rparr>)) = Inr ()" using load_config_valid [OF Inr] by simp
  have "final = snd (start_daemon (D\<lparr>cfg := c\<rparr>) attach_connected signals monitor occs ending k)"
    using assms by (simp add: run_main_def Inr)
  then show ?thesis
    using start_daemon_reachable [OF v] Inr v by auto
qed

definition early_failure :: "unit result \<times> disk manager option" where
  "early_failure =
     run_main (sample_dm default_config) (\<lambda>_. Inr sample_config) [''bus'', ''drivers_autoprobe''] True
       (Inr ()) (Inl (Bail ''no netlink'')) [] ShutDown (plugged_disk [])"

lemma daemon_within_system_witness:
  "case snd early_failure of
     None \<Rightarrow> False
   | Some t \<Rightarrow> reachable ((sample_dm default_config)\<lparr>cfg := sample_config\<rparr>) t"
proof -
  have "load_config (sample_dm default_config) (\<lambda>_. Inr sample_config)
      [''bus'', ''drivers_autoprobe''] (plugged_disk []) = Inr sample_config"
    by code_simp
  then show ?thesis
    using daemon_within_system [OF surjective_pairing, of "sample_dm default_config"
        "\<lambda>_. Inr sample_config" "[''bus'', ''drivers_autoprobe'']" "plugged_disk []" True "Inr ()"
        "Inl (Bail ''no netlink'')" "[]" ShutDown]
    by (auto simp: early_failure_def)
qed

section \<open>The gate is reopened\<close>

text \<open>The way out of \<open>daemon\<close>, and the manager at that moment.\<close>

definition leaving ::
  "'k dm \<Rightarrow> bool \<Rightarrow> unit result \<Rightarrow> 'k occurrence list \<Rightarrow> stop \<Rightarrow> 'k manager \<Rightarrow>
     unit result \<times> 'k manager" where
  "leaving D a monitor occs ending s =
     daemon_main D a monitor occs ending
       (snd (close_usb_gate D (snd (enable_usb_authorization D s))))"

lemma run_daemon_reopens:
  "run_daemon D a (Inr ()) monitor occs ending s =
     (let (out, s1) = leaving D a monitor occs ending s;
          (reopened, t) = open_usb_gate D s1
      in (case reopened of
            Inl e \<Rightarrow> (case out of Inl e' \<Rightarrow> Inl e' | Inr _ \<Rightarrow> Inl (Context left_closed e))
          | Inr _ \<Rightarrow> out, t))"
  by (auto simp: run_daemon_def leaving_def op_simps split: prod.splits sum.splits)

lemma open_usb_gate_writes:
  assumes "gated_bus D (kern s) = Some b" and "is_closed D b (kern s)"
  shows "\<exists>more. history (snd (open_usb_gate D s)) =
    history s @ (Write (b @ [AUTOPROBE]) ''1'', kern s) # more"
proof -
  let ?rest = "\<lambda>_. bindE (look_result (device_names D (usb_root D))) (\<lambda>names.
      forE names (hand_back_one D b (usb_held_by_vms D s)))"
  have all: "emits (\<lambda>x. True) (?rest u)" for u
    by (intro emits_intro emits_mono [OF hand_back_one_names]) simp_all
  have open_at: "open_usb_gate D s = bindE (open_gate D b) ?rest s"
    using assms by (simp add: open_usb_gate_def look_def bindE_def getE_def)
  obtain r s1 where one: "open_gate D b s = (r, s1)" by fastforce
  then have h: "history s1 = history s @ [(Write (b @ [AUTOPROBE]) ''1'', kern s)]"
    by (auto simp: open_gate_def autoprobe_def op_simps host_defs)
  show ?thesis
  proof (cases r)
    case (Inl e)
    then show ?thesis using one h by (simp add: open_at bindE_def)
  next
    case (Inr u)
    obtain q t where two: "?rest u s1 = (q, t)" by fastforce
    then show ?thesis
      using emitsD [OF all two] one h Inr by (fastforce simp: open_at bindE_def)
  qed
qed

text \<open>C8: every way out of the daemon hands USB driver binding back. Once the signal handlers are
  registered, whatever happens next, an early failure, a signal, the death of the reconcile loop
  or the end of the server, the run ends with \<open>open_usb_gate\<close>; if the bus is still closed then,
  autoprobe is written first of all; and the run only reports success if both the daemon and the
  handing back succeeded.\<close>

theorem gate_reopened:
  assumes "run_daemon D a (Inr ()) monitor occs ending s = (r, t)"
    and "leaving D a monitor occs ending s = (out, s1)"
  shows "(\<exists>q. open_usb_gate D s1 = (q, t) \<and> is_ok r = (is_ok out \<and> is_ok q)) \<and>
    (case gated_bus D (kern s1) of
       None \<Rightarrow> True
     | Some b \<Rightarrow> \<not> is_closed D b (kern s1) \<or>
         (\<exists>more. history t = history s1 @ (Write (b @ [AUTOPROBE]) ''1'', kern s1) # more))"
proof -
  obtain q t' where q: "open_usb_gate D s1 = (q, t')" by fastforce
  have "t' = t" and "is_ok r = (is_ok out \<and> is_ok q)"
    using assms q by (auto simp: run_daemon_reopens split: sum.splits)
  moreover have "case gated_bus D (kern s1) of
       None \<Rightarrow> True
     | Some b \<Rightarrow> \<not> is_closed D b (kern s1) \<or>
         (\<exists>more. history t' = history s1 @ (Write (b @ [AUTOPROBE]) ''1'', kern s1) # more)"
    using open_usb_gate_writes [of D s1] q by (auto split: option.split)
  ultimately show ?thesis using q by blast
qed

lemma gate_reopened_witness:
  "\<exists>k. (Write [''bus'', ''drivers_autoprobe''] ''1'', k) \<in>
     set (history (snd (run_daemon (sample_dm sample_config) True (Inr ()) (Inl (Bail ''no netlink''))
       [] ShutDown (plugged_manager sample_config []))))"
proof -
  let ?s1 = "snd (leaving (sample_dm sample_config) True (Inl (Bail ''no netlink'')) [] ShutDown
      (plugged_manager sample_config []))"
  have "gated_bus (sample_dm sample_config) (kern ?s1) = Some [''bus'']"
    and "is_closed (sample_dm sample_config) [''bus''] (kern ?s1)"
    by code_simp+
  then show ?thesis
    using gate_reopened [OF surjective_pairing surjective_pairing, of "sample_dm sample_config"
        True "Inl (Bail ''no netlink'')" "[]" ShutDown "plugged_manager sample_config []"]
    by (auto simp: gate_consts)
qed

end
