(* ===== verification/Client.thy ===== *)
theory Client
  imports Protocol
begin

text \<open>
  The API client, \<open>src/client.rs\<close>: one request with its reply under a deadline, and the
  listener for notifications. The sockets, \<open>serde_json\<close>'s text format and the clock are the
  fields of \<open>net\<close>, functions over a state \<open>'n\<close> of the outside world.
\<close>

datatype transport =
    UnixTransportAt string
  | TcpTransportAt string "16 word"
  | VsockTransportAt "32 word" "32 word"

text \<open>
  \<open>next_line\<close> is \<open>None\<close> when the peer closed the connection. \<open>cancelled d n\<close> is the
  world after a future started in \<open>n\<close> was dropped at its deadline \<open>d\<close>. Times are
  nanoseconds.
\<close>

record 'n net =
  connect :: "transport \<Rightarrow> 'n \<Rightarrow> unit result \<times> 'n"
  send_line :: "string \<Rightarrow> 'n \<Rightarrow> unit result \<times> 'n"
  next_line :: "'n \<Rightarrow> string result option \<times> 'n"
  clock :: "'n \<Rightarrow> nat"
  sleep :: "nat \<Rightarrow> 'n \<Rightarrow> 'n"
  cancelled :: "nat \<Rightarrow> 'n \<Rightarrow> 'n"
  encode_action :: "action \<Rightarrow> string result"
  decode_response :: "string \<Rightarrow> response result"
  decode_value :: "string \<Rightarrow> json result"
  local_cid :: "32 word option"

record 'n client =
  world :: 'n

type_synonym ('n, 'z, 'a) client_op = "(('n, 'z) client_scheme, 'a) oper"

definition on_world :: "('n \<Rightarrow> 'a \<times> 'n) \<Rightarrow> ('n, 'z) client_scheme \<Rightarrow> 'a \<times> ('n, 'z) client_scheme" where
  "on_world f s = (case f (world s) of (r, n) \<Rightarrow> (r, s\<lparr>world := n\<rparr>))"

text \<open>The next line of a framed stream: its end is \<open>None\<close>.\<close>

definition next_frame :: "('n, 'y) net_scheme \<Rightarrow> ('n, 'z, string option) client_op" where
  "next_frame N =
     (\<lambda>s. case on_world (next_line N) s of
            (None, s') \<Rightarrow> (Inr None, s')
          | (Some (Inl e), s') \<Rightarrow> (Inl e, s')
          | (Some (Inr l), s') \<Rightarrow> (Inr (Some l), s'))"

definition closed_by_remote :: error where
  "closed_by_remote = Bail ''API connection closed by remote''"

text \<open>The reply that must come: \<open>next().await.context(..)??\<close>\<close>

definition reply_frame :: "('n, 'y) net_scheme \<Rightarrow> ('n, 'z, string) client_op" where
  "reply_frame N =
     bindE (next_frame N) (\<lambda>l. case l of None \<Rightarrow> failE closed_by_remote | Some t \<Rightarrow> retE t)"

definition exchange ::
  "('n, 'y) net_scheme \<Rightarrow> action \<Rightarrow> ('n, 'z, response) client_op" where
  "exchange N message =
     bindE (liftE (encode_action N message)) (\<lambda>text.
     bindE (on_world (send_line N text)) (\<lambda>_.
     bindE (reply_frame N) (\<lambda>reply.
     liftE (with_context ''invalid JSON in API response'' (decode_response N reply)))))"

text \<open>
  \<open>tokio::time::timeout\<close>: the result of the future when it is done by the deadline, else an
  error, and the future is dropped where it is.
\<close>

definition timeout ::
  "('n, 'y) net_scheme \<Rightarrow> nat \<Rightarrow> string \<Rightarrow> ('n, 'z, 'a) client_op \<Rightarrow> ('n, 'z, 'a) client_op" where
  "timeout N deadline m f =
     (\<lambda>s. case f s of (r, s') \<Rightarrow>
        if clock N (world s') \<le> clock N (world s) + deadline then (r, s')
        else (Inl (Context m (Bail ''deadline has elapsed'')),
              s\<lparr>world := cancelled N deadline (world s)\<rparr>))"

definition api_request ::
  "('n, 'y) net_scheme \<Rightarrow> transport \<Rightarrow> action \<Rightarrow> nat \<Rightarrow> ('n, 'z, response) client_op" where
  "api_request N t message deadline =
     timeout N deadline ''device-manager request timed out''
       (bindE (on_world (connect N t)) (\<lambda>_. exchange N message))"

section \<open>Listening\<close>

text \<open>
  The loop over notifications: it only ends when the stream does, with an error. \<open>None\<close> is the
  loop that never ends.
\<close>

partial_function (option) hear ::
  "('n, 'y) net_scheme \<Rightarrow> (json \<Rightarrow> ('n, 'z) client_scheme \<Rightarrow> ('n, 'z) client_scheme) \<Rightarrow>
     ('n, 'z) client_scheme \<Rightarrow> (error \<times> ('n, 'z) client_scheme) option" where
  "hear N callback s =
     (case next_frame N s of
        (Inl e, s') \<Rightarrow> Some (e, s')
      | (Inr None, s') \<Rightarrow> Some (closed_by_remote, s')
      | (Inr (Some l), s') \<Rightarrow>
          (case decode_value N l of
             Inl e \<Rightarrow> Some (e, s')
           | Inr v \<Rightarrow> hear N callback (callback v s')))"

definition enable_notifications :: "('n, 'y) net_scheme \<Rightarrow> ('n, 'z, unit) client_op" where
  "enable_notifications N =
     bindE (liftE (encode_action N EnableNotifications)) (\<lambda>text.
     bindE (on_world (send_line N text)) (\<lambda>_.
     bindE (reply_frame N) (\<lambda>reply.
     bindE (liftE (decode_response N reply)) (\<lambda>r.
     case r of
       OkResponse p \<Rightarrow> retE ()
     | FailedResponse e \<Rightarrow> failE (Bail (''failed to enable notifications: '' @ e))))))"

definition listen_stream ::
  "('n, 'y) net_scheme \<Rightarrow> (json \<Rightarrow> ('n, 'z) client_scheme \<Rightarrow> ('n, 'z) client_scheme) \<Rightarrow>
     ('n, 'z) client_scheme \<Rightarrow> (error \<times> ('n, 'z) client_scheme) option" where
  "listen_stream N callback s =
     (case enable_notifications N s of
        (Inl e, s') \<Rightarrow> Some (e, s')
      | (Inr _, s') \<Rightarrow> hear N callback s')"

definition listen ::
  "('n, 'y) net_scheme \<Rightarrow> transport \<Rightarrow> (json \<Rightarrow> ('n, 'z) client_scheme \<Rightarrow> ('n, 'z) client_scheme) \<Rightarrow>
     ('n, 'z) client_scheme \<Rightarrow> (error \<times> ('n, 'z) client_scheme) option" where
  "listen N t callback s =
     (case on_world (connect N t) s of
        (Inl e, s') \<Rightarrow> Some (e, s')
      | (Inr _, s') \<Rightarrow> listen_stream N callback s')"

text \<open>\<open>running_in_vm\<close>: a context identifier that is neither the host's nor a reserved one.\<close>

definition running_in_vm :: "('n, 'y) net_scheme \<Rightarrow> bool" where
  "running_in_vm N =
     (case local_cid N of None \<Rightarrow> False | Some c \<Rightarrow> c \<noteq> 0xffffffff \<and> c \<noteq> 2 \<and> c \<noteq> 1)"

section \<open>What the listener hears\<close>

text \<open>A stream that delivers lines one after another and then closes.\<close>

fun delivers :: "('n, 'y) net_scheme \<Rightarrow> string list \<Rightarrow> 'n \<Rightarrow> bool" where
  "delivers N [] n \<longleftrightarrow> fst (next_line N n) = None"
| "delivers N (l # ls) n \<longleftrightarrow>
     fst (next_line N n) = Some (Inr l) \<and> delivers N ls (snd (next_line N n))"

end
