(* ===== verification/Unicode.thy ===== *)
theory Unicode
  imports Text "HOL-Library.Code_Target_Nat"
begin

text \<open>
  Characters as code points: \<open>str::chars\<close>, which decodes UTF-8, and the classifications the
  command line tool uses. A \<open>String\<close> is a list of bytes everywhere else; it is well-formed UTF-8
  by its type, so the decoder only has to be right on that.
\<close>

type_synonym text_line = "nat list"

definition byte :: "char \<Rightarrow> nat" where
  "byte c = of_char c"

definition of_bytes :: "nat list \<Rightarrow> string" where
  "of_bytes ns = map char_of ns"

definition utf8 :: "nat \<Rightarrow> nat list" where
  "utf8 c =
     (if c < 0x80 then [c]
      else if c < 0x800 then [0xC0 + c div 64, 0x80 + c mod 64]
      else if c < 0x10000 then
        [0xE0 + c div 4096, 0x80 + c div 64 mod 64, 0x80 + c mod 64]
      else [0xF0 + c div 262144, 0x80 + c div 4096 mod 64, 0x80 + c div 64 mod 64,
            0x80 + c mod 64])"

definition utf8_string :: "text_line \<Rightarrow> string" where
  "utf8_string cs = of_bytes (concat (map utf8 cs))"

fun decode_bytes :: "nat list \<Rightarrow> text_line" where
  "decode_bytes [] = []"
| "decode_bytes (a # s) =
     (if a < 0x80 then a # decode_bytes s
      else if a < 0xE0 then
        (case s of
           b # s' \<Rightarrow> ((a - 0xC0) * 64 + (b - 0x80)) # decode_bytes s'
         | _ \<Rightarrow> [])
      else if a < 0xF0 then
        (case s of
           b # c # s' \<Rightarrow>
             ((a - 0xE0) * 4096 + (b - 0x80) * 64 + (c - 0x80)) # decode_bytes s'
         | _ \<Rightarrow> [])
      else
        (case s of
           b # c # d # s' \<Rightarrow>
             ((a - 0xF0) * 262144 + (b - 0x80) * 4096 + (c - 0x80) * 64 + (d - 0x80))
               # decode_bytes s'
         | _ \<Rightarrow> []))"

definition chars :: "string \<Rightarrow> text_line" where
  "chars s = decode_bytes (map byte s)"

text \<open>The code points of a literal of ASCII characters.\<close>

definition ascii :: "string \<Rightarrow> text_line" where
  "ascii s = map byte s"

lemma ascii_simps [simp]:
  "ascii [] = []" "ascii (c # s) = byte c # ascii s" "ascii (s @ t) = ascii s @ ascii t"
  "length (ascii s) = length s"
  by (simp_all add: ascii_def)

lemma base64_digits:
  fixes c :: nat
  shows "c div 64 * 64 + c mod 64 = c"
    and "c div 4096 * 4096 + c div 64 mod 64 * 64 + c mod 64 = c"
    and "c div 262144 * 262144 + c div 4096 mod 64 * 4096 + c div 64 mod 64 * 64 + c mod 64 = c"
proof -
  have q: "c div 4096 = c div 64 div 64" "c div 262144 = c div 4096 div 64"
    by (simp_all add: div_mult2_eq [symmetric])
  show one: "c div 64 * 64 + c mod 64 = c" by simp
  have d: "c div 64 = c div 4096 * 64 + c div 64 mod 64" unfolding q(1) by simp
  have e: "c div 4096 = c div 262144 * 64 + c div 4096 mod 64" unfolding q(2) by simp
  show two: "c div 4096 * 4096 + c div 64 mod 64 * 64 + c mod 64 = c" using one d by linarith
  show "c div 262144 * 262144 + c div 4096 mod 64 * 4096 + c div 64 mod 64 * 64 + c mod 64 = c"
    using two e by linarith
qed

lemma decode_utf8:
  assumes "c < 0x110000"
  shows "decode_bytes (utf8 c @ s) = c # decode_bytes s"
proof -
  consider "c < 0x80" | "0x80 \<le> c" "c < 0x800" | "0x800 \<le> c" "c < 0x10000" | "0x10000 \<le> c"
    by linarith
  then show ?thesis
  proof cases
    case 2
    then have "c div 64 < 32" by linarith
    then show ?thesis using 2 base64_digits(1) [of c] by (simp add: utf8_def) (intro impI; linarith)
  next
    case 3
    then have "c div 4096 < 16" by linarith
    then show ?thesis using 3 base64_digits(2) [of c] by (simp add: utf8_def)
  next
    case 4
    then show ?thesis using base64_digits(3) [of c] by (simp add: utf8_def)
  qed (simp add: utf8_def)
qed

lemma chars_utf8:
  assumes "\<forall>c\<in>set cs. c < 0x110000"
  shows "chars (utf8_string cs) = cs"
proof -
  have bytes: "map byte (of_bytes ns) = ns" if "\<forall>n\<in>set ns. n < 256" for ns
    using that by (induction ns) (simp_all add: of_bytes_def byte_def)
  have small: "\<forall>n\<in>set (utf8 c). n < 256" if "c < 0x110000" for c
    using that by (auto simp: utf8_def)
  then have "\<forall>n\<in>set (concat (map utf8 cs)). n < 256" using assms by fastforce
  then have "chars (utf8_string cs) = decode_bytes (concat (map utf8 cs))"
    by (simp add: chars_def utf8_string_def bytes)
  also have "\<dots> = cs" using assms by (induction cs) (simp_all add: decode_utf8)
  finally show ?thesis .
qed

section \<open>Classes of characters\<close>

text \<open>\<open>char::is_control\<close>: the general category Cc.\<close>

definition is_control :: "nat \<Rightarrow> bool" where
  "is_control c \<longleftrightarrow> c < 0x20 \<or> 0x7F \<le> c \<and> c \<le> 0x9F"

text \<open>\<open>char::is_whitespace\<close>: the White_Space property.\<close>

definition is_whitespace :: "nat \<Rightarrow> bool" where
  "is_whitespace c \<longleftrightarrow>
     0x9 \<le> c \<and> c \<le> 0xD \<or> c = 0x20 \<or> c = 0x85 \<or> c = 0xA0 \<or> c = 0x1680 \<or>
     0x2000 \<le> c \<and> c \<le> 0x200A \<or> c = 0x2028 \<or> c = 0x2029 \<or> c = 0x202F \<or> c = 0x205F \<or> c = 0x3000"

end
