(* ===== verification/Cli.thy ===== *)
theory Cli
  imports Client Unicode
begin

text \<open>
  The command line tool, \<open>src/bin/ghaf-device.rs\<close>: how it renders untrusted text, builds
  the request from the parsed arguments, chooses the transport, retries, and prints the reply.
  Parsing the command line is \<open>clap\<close>'s: the argument structs are the input here.
\<close>

section \<open>Rendering untrusted text\<close>

definition MAX_FIELD_CHARS :: nat where "MAX_FIELD_CHARS = 256"

definition TRUNCATION_MARKER :: text_line where "TRUNCATION_MARKER = ascii ''...''"

definition is_bidi :: "nat \<Rightarrow> bool" where
  "is_bidi c \<longleftrightarrow> 0x202A \<le> c \<and> c \<le> 0x202E \<or> 0x2066 \<le> c \<and> c \<le> 0x2069"

definition must_escape :: "nat \<Rightarrow> bool" where
  "must_escape c \<longleftrightarrow> is_control c \<or> is_bidi c \<or> c = 92"

text \<open>
  \<open>char::escape_debug\<close> on the characters that must be escaped: none of them is printable, and
  the backslash escapes itself.
\<close>

definition escape_debug :: "nat \<Rightarrow> text_line" where
  "escape_debug c =
     92 # (if c = 0 then [48]
           else if c = 9 then ascii ''t''
           else if c = 10 then ascii ''n''
           else if c = 13 then ascii ''r''
           else if c = 92 then [92]
           else ascii ''u'' @ [123] @ ascii (show_hex 1 c) @ [125])"

definition push_escaped :: "nat \<Rightarrow> text_line" where
  "push_escaped c = (if must_escape c then escape_debug c else [c])"

definition escape_control :: "text_line \<Rightarrow> text_line" where
  "escape_control value = concat (map push_escaped value)"

text \<open>The loop of \<open>escape_field\<close>, from a number of characters already rendered.\<close>

fun escape_from :: "nat \<Rightarrow> text_line \<Rightarrow> text_line" where
  "escape_from rendered [] = []"
| "escape_from rendered (c # cs) =
     (let e = push_escaped c; rendered' = rendered + length e in
      if MAX_FIELD_CHARS < rendered' then TRUNCATION_MARKER
      else e @ escape_from rendered' cs)"

definition escape_field :: "text_line \<Rightarrow> text_line" where
  "escape_field value = escape_from 0 value"

definition error_line :: "error \<Rightarrow> text_line" where
  "error_line e = ascii ''ERROR '' @ escape_control (chars (error_chain e))"

section \<open>Printing device lists\<close>

text \<open>
  What the printing code gets from \<open>serde_json\<close>: the JSON object of a list entry, and the
  text of a value.
\<close>

record printer =
  usb_details :: "usb_list_device \<Rightarrow> json"
  pci_details :: "pci_list_device \<Rightarrow> json"
  json_text :: "json \<Rightarrow> string"

definition opt_text :: "string option \<Rightarrow> string" where
  "opt_text v = (case v of None \<Rightarrow> ''None'' | Some s \<Rightarrow> s)"

definition field :: "string \<Rightarrow> text_line" where
  "field s = escape_field (chars s)"

text \<open>\<open>{key:<16}\<close>: padded on the right.\<close>

definition pad_right :: "nat \<Rightarrow> text_line \<Rightarrow> text_line" where
  "pad_right w s = s @ replicate (w - length s) 32"

definition detail_line :: "printer \<Rightarrow> string \<times> json \<Rightarrow> text_line" where
  "detail_line P m =
     (case m of (key, v) \<Rightarrow>
        ascii ''  '' @ pad_right 16 (chars key) @ ascii '': '' @
          (case v of
             JStr s \<Rightarrow> field s
           | _ \<Rightarrow> escape_control (chars (json_text P v))))"

definition print_details :: "printer \<Rightarrow> json \<Rightarrow> text_line list" where
  "print_details P v =
     (case v of JObj ms \<Rightarrow> map (detail_line P) ms @ [[]] | _ \<Rightarrow> [])"

definition usb_line :: "usb_device \<Rightarrow> text_line" where
  "usb_line d =
     field (opt_text (vid d)) @ ascii '':'' @ field (opt_text (pid d)) @ ascii '' '' @
     field (opt_text (vendor_name d)) @ ascii '' '' @ field (opt_text (product_name d))"

definition print_usb :: "printer \<Rightarrow> usb_list_device list \<Rightarrow> bool \<Rightarrow> text_line list" where
  "print_usb P ds short =
     concat (map (\<lambda>d. usb_line (listed_usb d) #
       (if short then [] else print_details P (usb_details P d))) ds)"

definition pci_line :: "pci_device \<Rightarrow> text_line" where
  "pci_line d =
     field (address d) @ ascii '' '' @ field (opt_text (vendor_id_text d)) @ ascii '':'' @
     field (opt_text (device_id_text d)) @ ascii '' '' @ field (opt_text (pci_vendor_name d)) @
     ascii '' '' @ field (opt_text (pci_device_name d))"

definition print_pci :: "printer \<Rightarrow> pci_list_device list \<Rightarrow> bool \<Rightarrow> text_line list" where
  "print_pci P ds short =
     concat (map (\<lambda>d. pci_line (listed_pci d) #
       (if short then [] else print_details P (pci_details P d))) ds)"

section \<open>Arguments\<close>

record usb_selector_args =
  arg_device_node :: "string option"
  arg_bus :: "32 word option"
  arg_port :: "32 word option"
  arg_vid :: "string option"
  arg_pid :: "string option"
  arg_tag :: "string option"

record pci_selector_args =
  arg_address :: "string option"
  arg_pci_vid :: "string option"
  arg_did :: "string option"
  arg_pci_tag :: "string option"

datatype usb_action =
    AttachUsb usb_selector_args "string option"
  | DetachUsb usb_selector_args
  | ListUsb bool bool bool "string option"
  | SuspendUsb "string option"
  | ResumeUsb "string option"

datatype pci_action =
    AttachPci pci_selector_args "string option"
  | DetachPci pci_selector_args
  | ListPci bool bool bool "string option"
  | SuspendPci "string option"
  | ResumePci "string option"

text \<open>An \<open>f64\<close>: a finite one is a mantissa times a power of two.\<close>

datatype f64 = NotANumber | Infinite bool | Finite int int

datatype vmm_action = ArgsVmm string "string option" "32 word option" f64 bool

datatype cli_command =
    UsbCommand usb_action
  | PciCommand pci_action
  | ListenCommand
  | VmmCommand vmm_action

datatype transport_kind = UnixKind | TcpKind | VsockKind

datatype output_kind = UsbOutput bool | PciOutput bool | VmmOutput

record cli =
  cli_transport :: "transport_kind option"
  cli_path :: string
  cli_host :: string
  cli_net_port :: "32 word"
  cli_cid :: "32 word"
  cli_command :: cli_command

text \<open>
  The two conversions from selector arguments; \<open>None\<close> is the \<open>unreachable!\<close> that the
  attributes of the struct are to exclude.
\<close>

definition usb_selector_of_args :: "usb_selector_args \<Rightarrow> usb_selector option" where
  "usb_selector_of_args a =
     (case arg_device_node a of
        Some n \<Rightarrow> Some (ByDeviceNode n)
      | None \<Rightarrow>
          (case (arg_bus a, arg_port a) of
             (Some b, Some p) \<Rightarrow> Some (ByBusPort b p)
           | _ \<Rightarrow>
               (case (arg_vid a, arg_pid a) of
                  (Some v, Some p) \<Rightarrow> Some (ByVidPid v p)
                | _ \<Rightarrow> map_option ByUsbTag (arg_tag a))))"

definition pci_selector_of_args :: "pci_selector_args \<Rightarrow> pci_selector option" where
  "pci_selector_of_args a =
     (case arg_address a of
        Some n \<Rightarrow> Some (ByAddress n)
      | None \<Rightarrow>
          (case (arg_pci_vid a, arg_did a) of
             (Some v, Some d) \<Rightarrow> Some (ByVidDid v d)
           | _ \<Rightarrow> map_option ByPciTag (arg_pci_tag a)))"

text \<open>What the attributes state: the group is required, families conflict, pairs are whole.\<close>

definition usb_args_accepted :: "usb_selector_args \<Rightarrow> bool" where
  "usb_args_accepted a \<longleftrightarrow>
     (let node = arg_device_node a \<noteq> None; b = arg_bus a \<noteq> None; p = arg_port a \<noteq> None;
          v = arg_vid a \<noteq> None; i = arg_pid a \<noteq> None; t = arg_tag a \<noteq> None in
      (node \<or> b \<or> p \<or> v \<or> i \<or> t) \<and>
      (node \<longrightarrow> \<not> b \<and> \<not> p \<and> \<not> v \<and> \<not> i \<and> \<not> t) \<and>
      (b \<longrightarrow> p \<and> \<not> node \<and> \<not> v \<and> \<not> i \<and> \<not> t) \<and>
      (p \<longrightarrow> b \<and> \<not> node \<and> \<not> v \<and> \<not> i \<and> \<not> t) \<and>
      (v \<longrightarrow> i \<and> \<not> node \<and> \<not> b \<and> \<not> p \<and> \<not> t) \<and>
      (i \<longrightarrow> v \<and> \<not> node \<and> \<not> b \<and> \<not> p \<and> \<not> t) \<and>
      (t \<longrightarrow> \<not> node \<and> \<not> b \<and> \<not> p \<and> \<not> v \<and> \<not> i))"

definition pci_args_accepted :: "pci_selector_args \<Rightarrow> bool" where
  "pci_args_accepted a \<longleftrightarrow>
     (let n = arg_address a \<noteq> None; v = arg_pci_vid a \<noteq> None; d = arg_did a \<noteq> None;
          t = arg_pci_tag a \<noteq> None in
      (n \<or> v \<or> d \<or> t) \<and>
      (n \<longrightarrow> \<not> v \<and> \<not> d \<and> \<not> t) \<and> (v \<longrightarrow> d \<and> \<not> n \<and> \<not> t) \<and> (d \<longrightarrow> v \<and> \<not> n \<and> \<not> t) \<and>
      (t \<longrightarrow> \<not> n \<and> \<not> v \<and> \<not> d))"

section \<open>The transport\<close>

definition transport_of :: "('n, 'y) net_scheme \<Rightarrow> cli \<Rightarrow> transport result" where
  "transport_of N c =
     (case (case cli_transport c of
              Some k \<Rightarrow> k
            | None \<Rightarrow> if running_in_vm N then VsockKind else UnixKind) of
        UnixKind \<Rightarrow> Inr (UnixTransportAt (cli_path c))
      | TcpKind \<Rightarrow>
          if unat (cli_net_port c) < 2 ^ 16
          then Inr (TcpTransportAt (cli_host c) (ucast (cli_net_port c)))
          else Inl (Context ''TCP port must be at most 65535''
                     (Bail ''out of range integral type conversion attempted''))
      | VsockKind \<Rightarrow> Inr (VsockTransportAt (cli_cid c) (cli_net_port c)))"

section \<open>Retrying\<close>

definition second :: nat where "second = 1000000000"

definition retry_timed_out :: string where
  "retry_timed_out = ''timed out waiting for ghaf-device-manager''"

text \<open>
  The loop of \<open>request_with_retry\<close>, with its start time. It has no bound of its own, so a
  clock that stands still is the value \<open>None\<close>.
\<close>

partial_function (option) retry ::
  "('n, 'y) net_scheme \<Rightarrow> transport \<Rightarrow> action \<Rightarrow> nat \<Rightarrow> nat \<Rightarrow> ('n, 'z) client_scheme \<Rightarrow>
     (response result \<times> ('n, 'z) client_scheme) option" where
  "retry N t message deadline start s =
     (let remaining = deadline - (clock N (world s) - start) in
      case api_request N t message remaining s of
        (Inr r, s') \<Rightarrow> Some (Inr r, s')
      | (Inl e, s') \<Rightarrow>
          if clock N (world s') - start < deadline then
            (let pause = min second (deadline - (clock N (world s') - start)) in
             retry N t message deadline start (s'\<lparr>world := sleep N pause (world s')\<rparr>))
          else Some (Inl (Context retry_timed_out e), s'))"

definition request_with_retry ::
  "('n, 'y) net_scheme \<Rightarrow> transport \<Rightarrow> action \<Rightarrow> nat \<Rightarrow> ('n, 'z) client_scheme \<Rightarrow>
     (response result \<times> ('n, 'z) client_scheme) option" where
  "request_with_retry N t message deadline s = retry N t message deadline (clock N (world s)) s"

section \<open>Running a command\<close>

text \<open>
  \<open>Duration::from_secs_f64\<close> in nanoseconds, rounded to the nearest with ties to even. It
  panics (\<open>None\<close>) on what is negative, not finite, or beyond 64 bits of seconds.
\<close>

definition round_half_even :: "nat \<Rightarrow> nat \<Rightarrow> nat" where
  "round_half_even a b =
     (let q = a div b; r = a mod b in
      if 2 * r < b \<or> (2 * r = b \<and> even q) then q else q + 1)"

definition from_secs_f64 :: "f64 \<Rightarrow> nat option" where
  "from_secs_f64 x =
     (case x of
        Finite m e \<Rightarrow>
          if m < 0 then None
          else
            (let ns = (if 0 \<le> e then nat m * 2 ^ nat e * second
                       else round_half_even (nat m * second) (2 ^ nat (- e)))
             in if ns div second < 2 ^ 64 then Some ns else None)
      | _ \<Rightarrow> None)"

definition bad_timeout :: "f64 \<Rightarrow> bool" where
  "bad_timeout x = (case x of Finite m e \<Rightarrow> m < 0 | _ \<Rightarrow> True)"

text \<open>A run of the tool ends with a result, with a panic, or never.\<close>

datatype 'a ending = Ended "'a result" | Panicked | Hangs

definition wanted :: "bool \<Rightarrow> bool \<Rightarrow> bool option" where
  "wanted conn disc = (if conn then Some False else if disc then Some True else None)"

text \<open>The request of a command, its deadline and what to print; \<open>None\<close> is a panic.\<close>

definition usb_request :: "usb_action \<Rightarrow> (action \<times> output_kind option) option" where
  "usb_request a =
     (case a of
        AttachUsb sel v \<Rightarrow> map_option (\<lambda>x. (UsbAttach x v, None)) (usb_selector_of_args sel)
      | DetachUsb sel \<Rightarrow> map_option (\<lambda>x. (UsbDetach x, None)) (usb_selector_of_args sel)
      | ListUsb conn disc short t \<Rightarrow> Some (UsbList (wanted conn disc) t, Some (UsbOutput short))
      | SuspendUsb v \<Rightarrow> Some (UsbSuspend v, None)
      | ResumeUsb v \<Rightarrow> Some (UsbResume v, None))"

definition pci_request :: "pci_action \<Rightarrow> (action \<times> output_kind option) option" where
  "pci_request a =
     (case a of
        AttachPci sel v \<Rightarrow> map_option (\<lambda>x. (PciAttach x v, None)) (pci_selector_of_args sel)
      | DetachPci sel \<Rightarrow> map_option (\<lambda>x. (PciDetach x, None)) (pci_selector_of_args sel)
      | ListPci conn disc short t \<Rightarrow> Some (PciList (wanted conn disc) t, Some (PciOutput short))
      | SuspendPci v \<Rightarrow> Some (PciSuspend v, None)
      | ResumePci v \<Rightarrow> Some (PciResume v, None))"

definition with_deadline ::
  "(action \<times> output_kind option) option \<Rightarrow> (action \<times> nat \<times> output_kind option) ending" where
  "with_deadline r =
     (case r of None \<Rightarrow> Panicked | Some (a, out) \<Rightarrow> Ended (Inr (a, 10 * second, out)))"

fun prepare :: "cli_command \<Rightarrow> (action \<times> nat \<times> output_kind option) ending" where
  "prepare (UsbCommand a) = with_deadline (usb_request a)"
| "prepare (PciCommand a) = with_deadline (pci_request a)"
| "prepare (VmmCommand (ArgsVmm v pre first limit require)) =
     (if bad_timeout limit then
        Ended (Inl (Bail ''VMM argument timeout must be a finite non-negative number''))
      else case from_secs_f64 limit of
             None \<Rightarrow> Panicked
           | Some ns \<Rightarrow> Ended (Inr (VmmArgs v pre first require, ns, Some VmmOutput)))"
| "prepare ListenCommand = Panicked"

text \<open>The text printed for a reply: lines, or for the VMM arguments one unfinished line.\<close>

definition vmm_output :: "string list \<Rightarrow> text_line list result" where
  "vmm_output args =
     (if list_ex (\<lambda>a. list_ex is_whitespace (chars a)) args
      then Inl (Bail ''VMM arguments containing whitespace are not supported'')
      else Inr [join [32] (map chars args)])"

definition render_payload ::
  "printer \<Rightarrow> (payload \<Rightarrow> string) \<Rightarrow> output_kind option \<Rightarrow> payload \<Rightarrow> text_line list result" where
  "render_payload P shown_as out p =
     (let unexpected = Inl (Bail (''unexpected response payload: '' @ shown_as p)) in
      case out of
        None \<Rightarrow> Inr []
      | Some (UsbOutput short) \<Rightarrow>
          (case p of UsbListPayload ds \<Rightarrow> Inr (print_usb P ds short) | _ \<Rightarrow> unexpected)
      | Some (PciOutput short) \<Rightarrow>
          (case p of PciListPayload ds \<Rightarrow> Inr (print_pci P ds short) | _ \<Rightarrow> unexpected)
      | Some VmmOutput \<Rightarrow>
          (case p of VmmArgsPayload args \<Rightarrow> vmm_output args
           | _ \<Rightarrow> Inl (Bail ''unexpected response payload'')))"

section \<open>The whole tool\<close>

record 'n shell = "'n client" +
  printed :: "text_line list"

definition print_lines :: "text_line list \<Rightarrow> 'n shell \<Rightarrow> 'n shell" where
  "print_lines ls s = s\<lparr>printed := printed s @ ls\<rparr>"

definition run_request ::
  "('n, 'y) net_scheme \<Rightarrow> printer \<Rightarrow> (payload \<Rightarrow> string) \<Rightarrow> transport \<Rightarrow>
     action \<times> nat \<times> output_kind option \<Rightarrow> 'n shell \<Rightarrow> unit ending \<times> 'n shell" where
  "run_request N P shown_as t req s =
     (case req of (message, deadline, out) \<Rightarrow>
        (case (if out = Some VmmOutput then request_with_retry N t message deadline s
               else Some (api_request N t message deadline s)) of
           None \<Rightarrow> (Hangs, s)
         | Some (Inl e, s') \<Rightarrow> (Ended (Inl e), s')
         | Some (Inr resp, s') \<Rightarrow>
             (case payload_of resp of
                Inl e \<Rightarrow> (Ended (Inl e), s')
              | Inr p \<Rightarrow>
                  (case render_payload P shown_as out p of
                     Inl e \<Rightarrow> (Ended (Inl e), s')
                   | Inr ls \<Rightarrow> (Ended (Inr ()), print_lines ls s')))))"

definition run_cli ::
  "('n, 'y) net_scheme \<Rightarrow> printer \<Rightarrow> (payload \<Rightarrow> string) \<Rightarrow> cli \<Rightarrow> 'n shell \<Rightarrow>
     unit ending \<times> 'n shell" where
  "run_cli N P shown_as c s =
     (case transport_of N c of
        Inl e \<Rightarrow> (Ended (Inl e), s)
      | Inr t \<Rightarrow>
          if cli_command c = ListenCommand then
            (case listen N t (\<lambda>v. print_lines [chars (json_text P v)]) s of
               None \<Rightarrow> (Hangs, s)
             | Some (e, s') \<Rightarrow> (Ended (Inl (Context ''notification listener failed'' e)), s'))
          else
            (case prepare (cli_command c) of
               Panicked \<Rightarrow> (Panicked, s)
             | Hangs \<Rightarrow> (Hangs, s)
             | Ended (Inl e) \<Rightarrow> (Ended (Inl e), s)
             | Ended (Inr req) \<Rightarrow> run_request N P shown_as t req s))"

text \<open>\<open>main\<close>: the line on standard error and the exit status; a panic exits with 101.\<close>

definition exit_status :: "unit ending \<Rightarrow> (text_line option \<times> nat) option" where
  "exit_status r =
     (case r of
        Ended (Inr _) \<Rightarrow> Some (None, 0)
      | Ended (Inl e) \<Rightarrow> Some (Some (error_line e), 1)
      | Panicked \<Rightarrow> Some (None, 101)
      | Hangs \<Rightarrow> None)"

end
