(* ===== verification/Cli_Properties.thy ===== *)
theory Cli_Properties
  imports Cli
begin

text \<open>
  The properties of the command line tool: its escaping is harmless, reversible and bounded,
  its arguments reach the daemon unchanged, and its retry loop ends.
\<close>

section \<open>Escaping\<close>

text \<open>Reading an escaped text back.\<close>

definition hex_value :: "text_line \<Rightarrow> nat" where
  "hex_value ds = (case parse_digits 16 0 (of_bytes ds) of None \<Rightarrow> 0 | Some n \<Rightarrow> n)"

function unescape :: "text_line \<Rightarrow> text_line" where
  "unescape [] = []"
| "unescape (c # cs) =
     (if c \<noteq> 92 then c # unescape cs
      else case cs of
             [] \<Rightarrow> []
           | k # rest \<Rightarrow>
               if k = 48 then 0 # unescape rest
               else if k = 116 then 9 # unescape rest
               else if k = 110 then 10 # unescape rest
               else if k = 114 then 13 # unescape rest
               else if k = 92 then 92 # unescape rest
               else hex_value (takeWhile (\<lambda>x. x \<noteq> 125) (drop 1 rest)) #
                    unescape (drop 1 (dropWhile (\<lambda>x. x \<noteq> 125) (drop 1 rest))))"
  by pat_completeness auto
termination
proof (relation "measure length")
  fix c and cs rest :: text_line and k
  assume "cs = k # rest"
  moreover have "length (drop 1 (dropWhile (\<lambda>x. x \<noteq> 125) (drop 1 rest))) \<le> length rest"
    using length_dropWhile_le [of "\<lambda>x. x \<noteq> 125" "drop 1 rest"] by simp
  ultimately show "(drop 1 (dropWhile (\<lambda>x. x \<noteq> 125) (drop 1 rest)), c # cs) \<in> measure length"
    by simp
qed auto

lemma of_bytes_ascii: "of_bytes (ascii s) = s"
  by (induction s) (simp_all add: of_bytes_def ascii_def byte_def)

lemma show_hex_digits:
  "show_hex (Suc 0) c = map (digit_char False) (digits 16 c)"
  by (cases "digits 16 c") (simp_all add: show_hex_def pad_zero_def)

lemma hex_value_show: "hex_value (ascii (show_hex (Suc 0) c)) = c"
  by (simp add: hex_value_def of_bytes_ascii show_hex_digits parse_digits_show)

lemma digit_code:
  "d < 16 \<Longrightarrow> byte (digit_char False d) = (if d < 10 then 48 + d else 87 + d)"
  by (simp add: byte_def digit_char_def)

lemma hex_codes:
  "x \<in> set (ascii (show_hex (Suc 0) c)) \<Longrightarrow> 48 \<le> x \<and> x < 58 \<or> 97 \<le> x \<and> x < 103"
  using digits_less [of 16 _ c] by (auto simp: show_hex_digits ascii_def digit_code)

lemma hex_no_brace: "\<forall>x\<in>set (ascii (show_hex (Suc 0) c)). x \<noteq> 125"
  using hex_codes by fastforce

lemma unescape_escaped: "must_escape c \<Longrightarrow> unescape (escape_debug c @ s) = c # unescape s"
proof -
  let ?h = "ascii (show_hex (Suc 0) c)"
  have take: "takeWhile (\<lambda>x. x \<noteq> 125) (?h @ 125 # s) = ?h"
    using hex_no_brace by (simp add: takeWhile_append2)
  have drop: "dropWhile (\<lambda>x. x \<noteq> 125) (?h @ 125 # s) = 125 # s"
    using hex_no_brace by (simp add: dropWhile_append2)
  show ?thesis
    by (simp add: escape_debug_def byte_def take drop hex_value_show)
qed

lemma unescape_push: "unescape (push_escaped c @ s) = c # unescape s"
  by (auto simp: push_escaped_def unescape_escaped) (simp add: must_escape_def)

text \<open>Escaping loses nothing. The escaped text reads back as the original, so two different
  values never render identically, and a text of harmless characters renders as itself.\<close>

theorem escape_reversible:
  "unescape (escape_control v) = v \<and>
   (escape_control v = escape_control w \<longleftrightarrow> v = w) \<and>
   (filter must_escape v = [] \<longleftrightarrow> escape_control v = v)"
proof -
  have reads: "unescape (escape_control v) = v" for v
    by (induction v) (simp_all add: escape_control_def unescape_push)
  have len: "length v \<le> length (escape_control v)" for v
    by (induction v) (auto simp: escape_control_def push_escaped_def escape_debug_def)
  have "escape_control v = v" if "filter must_escape v = []"
    using that by (induction v) (auto simp: escape_control_def push_escaped_def split: if_splits)
  moreover have "filter must_escape v = []" if "escape_control v = v"
    using that
  proof (induction v)
    case (Cons c cs)
    show ?case
    proof (cases "must_escape c")
      case True
      then have "2 \<le> length (push_escaped c)" by (simp add: push_escaped_def escape_debug_def)
      then have "length (escape_control (c # cs)) > length (c # cs)"
        using len [of cs] by (simp add: escape_control_def)
      then show ?thesis using Cons.prems by simp
    next
      case False
      then show ?thesis using Cons by (simp add: escape_control_def push_escaped_def)
    qed
  qed simp
  ultimately show ?thesis using reads by metis
qed

section \<open>What reaches the terminal\<close>

text \<open>A character that could drive the terminal or reorder the line.\<close>

definition dangerous :: "nat \<Rightarrow> bool" where
  "dangerous c \<longleftrightarrow> is_control c \<or> is_bidi c"

definition tame :: "text_line \<Rightarrow> bool" where
  "tame s \<longleftrightarrow> list_all (\<lambda>c. \<not> dangerous c) s"

lemma tame_simps [simp]:
  "tame []" "tame (c # s) \<longleftrightarrow> \<not> dangerous c \<and> tame s" "tame (s @ t) \<longleftrightarrow> tame s \<and> tame t"
  by (simp_all add: tame_def)

lemma tame_replicate [simp]: "\<not> dangerous c \<Longrightarrow> tame (replicate n c)"
  by (induction n) simp_all

lemma dangerous_graphic [simp]: "0x20 \<le> c \<Longrightarrow> c < 0x7F \<Longrightarrow> \<not> dangerous c"
  by (simp add: dangerous_def is_control_def is_bidi_def)

lemma tame_push: "tame (push_escaped c)"
proof (cases "must_escape c")
  case True
  have "\<not> dangerous x" if "x \<in> set (ascii (show_hex (Suc 0) c))" for x
    using hex_codes [OF that] by (intro dangerous_graphic) auto
  then have "tame (ascii (show_hex (Suc 0) c))" by (simp add: tame_def list_all_iff)
  then show ?thesis using True by (simp add: push_escaped_def escape_debug_def byte_def)
next
  case False
  then show ?thesis by (simp add: push_escaped_def dangerous_def must_escape_def)
qed

lemma tame_marker [simp]: "tame TRUNCATION_MARKER"
  by (simp add: TRUNCATION_MARKER_def byte_def)

lemma tame_escape_control [simp]: "tame (escape_control v)"
  unfolding escape_control_def by (induction v) (simp_all add: tame_push)

lemma tame_escape_from: "tame (escape_from n v)"
  by (induction n v rule: escape_from.induct) (simp_all add: tame_push Let_def)

lemma tame_field [simp]: "tame (field s)"
  by (simp add: field_def escape_field_def tame_escape_from)

lemma tame_pad: "tame s \<Longrightarrow> tame (pad_right w s)"
  by (simp add: pad_right_def)

definition tame_keys :: "json \<Rightarrow> bool" where
  "tame_keys v \<longleftrightarrow> (case v of JObj ms \<Rightarrow> list_all (\<lambda>m. tame (chars (fst m))) ms | _ \<Rightarrow> True)"

lemma tame_detail_line: "tame (chars (fst m)) \<Longrightarrow> tame (detail_line P m)"
  by (cases m) (auto simp: detail_line_def byte_def intro: tame_pad split: json.split)

lemma tame_print_details:
  assumes "tame_keys v" and "l \<in> set (print_details P v)"
  shows "tame l"
  using assms
  by (auto simp: print_details_def tame_keys_def list_all_iff intro: tame_detail_line split: json.splits)

lemma tame_usb_line: "tame (usb_line d)"
  by (simp add: usb_line_def byte_def)

lemma tame_pci_line: "tame (pci_line d)"
  by (simp add: pci_line_def byte_def)

text \<open>A device cannot drive the operator's terminal. Whatever the daemon answers to a list
  command, no line the tool prints contains a control character, including the single-character
  CSI, or a bidirectional override or isolate, as long as the member names of the details, which
  are the daemon's field names, contain none; and neither does the error line.\<close>

theorem printed_lists_are_tame:
  assumes "render_payload P shown_as (Some out) p = Inr ls" and "out \<noteq> VmmOutput" and "l \<in> set ls"
    and "\<And>d. tame_keys (usb_details P d)" and "\<And>d. tame_keys (pci_details P d)"
  shows "tame l \<and> tame (error_line e)"
proof
  show "tame (error_line e)" by (simp add: error_line_def byte_def)
  have usb: "tame l" if "l \<in> set (print_usb P ds short)" for ds short
    using that assms(4) by (auto simp: print_usb_def tame_usb_line intro: tame_print_details split: if_splits)
  have pci: "tame l" if "l \<in> set (print_pci P ds short)" for ds short
    using that assms(5) by (auto simp: print_pci_def tame_pci_line intro: tame_print_details split: if_splits)
  show "tame l"
    using assms(1-3)
    by (cases out; cases p) (auto simp: render_payload_def dest: usb pci)
qed

definition hostile_device :: usb_list_device where
  "hostile_device =
     \<lparr>listed_usb = \<lparr>sys_name = ''1-2'', device_node = None, bus = None, port = None,
        root_port = None, vid = Some ''a'', pid = Some ''b'',
        vendor_name = Some (char_of (27 :: nat) # ''[2J''),
        product_name = Some (utf8_string [0x202E]), serial = None, removable = None,
        device_class = None, device_subclass = None, device_protocol = None,
        interfaces_text = None, interfaces = [], driver_paths = [], modaliases = []\<rparr>,
      listed_usb_allowed = [], listed_usb_vm = None, listed_usb_disconnected = False\<rparr>"

definition plain_printer :: printer where
  "plain_printer = \<lparr>usb_details = (\<lambda>_. JNull), pci_details = (\<lambda>_. JNull), json_text = (\<lambda>_. [])\<rparr>"

lemma printed_lists_are_tame_witness:
  "tame (usb_line (listed_usb hostile_device)) \<and>
   \<not> tame (chars (opt_text (product_name (listed_usb hostile_device))))"
proof -
  have ok: "render_payload plain_printer (\<lambda>_. []) (Some (UsbOutput True))
      (UsbListPayload [hostile_device]) = Inr [usb_line (listed_usb hostile_device)]"
    by (simp add: render_payload_def print_usb_def)
  have keys: "tame_keys (usb_details plain_printer d)" "tame_keys (pci_details plain_printer d')"
    for d d' by (simp_all add: plain_printer_def tame_keys_def)
  have "\<not> tame (chars (opt_text (product_name (listed_usb hostile_device))))" by code_simp
  then show ?thesis
    using printed_lists_are_tame [OF ok, of "usb_line (listed_usb hostile_device)"] keys by simp
qed

section \<open>Truncation\<close>

lemma escape_from_cut:
  assumes "r \<le> MAX_FIELD_CHARS"
  shows "\<exists>n\<le>length v. escape_from r v =
       escape_control (take n v) @ (if n = length v then [] else TRUNCATION_MARKER) \<and>
     r + length (escape_control (take n v)) \<le> MAX_FIELD_CHARS \<and>
     (n < length v \<longrightarrow> MAX_FIELD_CHARS < r + length (escape_control (take (Suc n) v)))"
  using assms
proof (induction r v rule: escape_from.induct)
  case (1 r)
  then show ?case by (simp add: escape_control_def)
next
  case (2 r c cs)
  show ?case
  proof (cases "MAX_FIELD_CHARS < r + length (push_escaped c)")
    case True
    then show ?thesis using 2(2) by (intro exI [of _ 0]) (simp add: escape_control_def)
  next
    case False
    then obtain n where n: "n \<le> length cs"
      "escape_from (r + length (push_escaped c)) cs =
         escape_control (take n cs) @ (if n = length cs then [] else TRUNCATION_MARKER)"
      "r + length (push_escaped c) + length (escape_control (take n cs)) \<le> MAX_FIELD_CHARS"
      "n < length cs \<longrightarrow>
         MAX_FIELD_CHARS < r + length (push_escaped c) + length (escape_control (take (Suc n) cs))"
      using 2(1) [OF refl refl] by auto
    then show ?thesis
      using False by (intro exI [of _ "Suc n"]) (simp add: escape_control_def add.assoc)
  qed
qed

text \<open>One field cannot push a listing off the screen. A field renders as the longest beginning
  of its value whose escaped form has at most 256 characters, cut between characters of the
  value and never inside an escape sequence, followed by the marker exactly when something was
  cut off; so it never has more than 259 characters.\<close>

theorem escape_field_cut:
  "\<exists>n\<le>length v. escape_field v =
       escape_control (take n v) @ (if n = length v then [] else TRUNCATION_MARKER) \<and>
     length (escape_control (take n v)) \<le> 256 \<and> length (escape_field v) \<le> 259 \<and>
     (n < length v \<longrightarrow> 256 < length (escape_control (take (Suc n) v)))"
proof -
  obtain n where n: "n \<le> length v" "escape_field v =
       escape_control (take n v) @ (if n = length v then [] else TRUNCATION_MARKER)"
     "length (escape_control (take n v)) \<le> 256"
     "n < length v \<longrightarrow> 256 < length (escape_control (take (Suc n) v))"
    using escape_from_cut [of 0 v] by (auto simp: escape_field_def MAX_FIELD_CHARS_def)
  moreover from n have "length (escape_field v) \<le> 259"
    by (cases "n = length v") (simp_all add: TRUNCATION_MARKER_def)
  ultimately show ?thesis by blast
qed

lemma escape_field_cut_witness:
  "escape_field (replicate 300 0) = escape_control (replicate 128 0) @ TRUNCATION_MARKER \<and>
   length (escape_field (replicate 300 0)) \<le> 259"
proof -
  obtain n where "length (escape_field (replicate 300 0)) \<le> 259"
    using escape_field_cut [of "replicate 300 0"] by blast
  moreover have "escape_field (replicate 300 0) = escape_control (replicate 128 0) @ TRUNCATION_MARKER"
    by code_simp
  ultimately show ?thesis by simp
qed

section \<open>Arguments\<close>

lemma usb_args_exact:
  assumes "usb_args_accepted a"
  shows "\<exists>sel. usb_selector_of_args a = Some sel \<and> selector_of_usb sel =
     default_selector\<lparr>sel_device_node := arg_device_node a, sel_bus := arg_bus a,
       sel_port := arg_port a, sel_vid := arg_vid a, sel_pid := arg_pid a, sel_tag := arg_tag a\<rparr>"
  using assms
  by (cases "arg_device_node a"; cases "arg_bus a"; cases "arg_port a"; cases "arg_vid a";
      cases "arg_pid a"; cases "arg_tag a";
      simp add: usb_args_accepted_def usb_selector_of_args_def default_selector_def)

lemma pci_args_exact:
  assumes "pci_args_accepted b"
  shows "\<exists>sel. pci_selector_of_args b = Some sel \<and> selector_of_pci sel =
     default_selector\<lparr>sel_address := arg_address b, sel_vid := arg_pci_vid b,
       sel_did := arg_did b, sel_tag := arg_pci_tag b\<rparr>"
  using assms
  by (cases "arg_address b"; cases "arg_pci_vid b"; cases "arg_did b"; cases "arg_pci_tag b";
      simp add: pci_args_accepted_def pci_selector_of_args_def default_selector_def)

text \<open>The arguments mean what they say. Selector arguments that the attributes of the struct let
  through never reach the \<open>unreachable!\<close>, and the selector the daemon's manager finally works
  with has exactly the fields that were given, for USB and for PCI.\<close>

theorem accepted_args_exact:
  "(usb_args_accepted a \<longrightarrow>
      (\<exists>sel. usb_selector_of_args a = Some sel \<and> selector_of_usb sel =
         default_selector\<lparr>sel_device_node := arg_device_node a, sel_bus := arg_bus a,
           sel_port := arg_port a, sel_vid := arg_vid a, sel_pid := arg_pid a,
           sel_tag := arg_tag a\<rparr>)) \<and>
   (pci_args_accepted b \<longrightarrow>
      (\<exists>sel. pci_selector_of_args b = Some sel \<and> selector_of_pci sel =
         default_selector\<lparr>sel_address := arg_address b, sel_vid := arg_pci_vid b,
           sel_did := arg_did b, sel_tag := arg_pci_tag b\<rparr>))"
  using usb_args_exact pci_args_exact by simp

definition tag_args :: pci_selector_args where
  "tag_args = \<lparr>arg_address = None, arg_pci_vid = None, arg_did = None, arg_pci_tag = Some ''nic''\<rparr>"

definition bus_args :: usb_selector_args where
  "bus_args = \<lparr>arg_device_node = None, arg_bus = Some 1, arg_port = Some 4, arg_vid = None,
     arg_pid = None, arg_tag = None\<rparr>"

lemma accepted_args_exact_witness:
  "(\<exists>sel. usb_selector_of_args bus_args = Some sel \<and>
      selector_of_usb sel = default_selector\<lparr>sel_bus := Some 1, sel_port := Some 4\<rparr>) \<and>
   (\<exists>sel. pci_selector_of_args tag_args = Some sel \<and>
      selector_of_pci sel = default_selector\<lparr>sel_tag := Some ''nic''\<rparr>)"
proof -
  have "usb_args_accepted bus_args" "pci_args_accepted tag_args" by code_simp+
  then show ?thesis
    using accepted_args_exact [of bus_args tag_args]
    by (simp add: bus_args_def tag_args_def default_selector_def)
qed

section \<open>Retrying\<close>

lemma retry_returns:
  fixes N :: "('n, 'y) net_scheme" and s :: "('n, 'z) client_scheme"
  assumes slept: "\<And>d n. clock N n + d \<le> clock N (sleep N d n)"
    and forward: "\<And>d (s :: ('n, 'z) client_scheme). clock N (world s) \<le> clock N (world (snd (api_request N t m d s)))"
    and begun: "start \<le> clock N (world s)"
  shows "\<exists>r s'. retry N t m deadline start s = Some (r, s') \<and> clock N (world s) \<le> clock N (world s') \<and>
     (\<forall>e. r = Inl e \<longrightarrow> start + deadline \<le> clock N (world s') \<and> (\<exists>c. e = Context retry_timed_out c))"
  using begun
proof (induction "deadline - (clock N (world s) - start)" arbitrary: s rule: less_induct)
  case less
  let ?q = "api_request N t m (deadline - (clock N (world s) - start)) s"
  obtain r s1 where q: "?q = (r, s1)" by fastforce
  have ahead: "clock N (world s) \<le> clock N (world s1)" using forward [of s] q by (metis snd_conv)
  show ?case
  proof (cases r)
    case (Inr x)
    then show ?thesis
      using q ahead by (subst retry.simps) simp
  next
    case (Inl e)
    show ?thesis
    proof (cases "clock N (world s1) - start < deadline")
      case False
      then show ?thesis
        using q Inl ahead less.prems by (subst retry.simps) (simp add: Let_def)
    next
      case True
      let ?pause = "min second (deadline - (clock N (world s1) - start))"
      let ?s2 = "s1\<lparr>world := sleep N ?pause (world s1)\<rparr>"
      have "0 < ?pause" using True by (simp add: second_def)
      then have later: "clock N (world s1) < clock N (world ?s2)"
        using less_le_trans [OF _ slept [of "world s1" ?pause], of "clock N (world s1)"] by simp
      then have "deadline - (clock N (world ?s2) - start) < deadline - (clock N (world s) - start)"
        and "start \<le> clock N (world ?s2)"
        using True ahead less.prems by linarith+
      from less.hyps [OF this] obtain r' s' where "retry N t m deadline start ?s2 = Some (r', s')"
        "clock N (world ?s2) \<le> clock N (world s')"
        "\<forall>e. r' = Inl e \<longrightarrow> start + deadline \<le> clock N (world s') \<and> (\<exists>c. e = Context retry_timed_out c)"
        by blast
      moreover have "retry N t m deadline start s = retry N t m deadline start ?s2"
        using q Inl True by (subst retry.simps) (simp add: Let_def)
      ultimately show ?thesis using ahead later by (intro exI [of _ r'] exI [of _ s']) simp
    qed
  qed
qed

text \<open>Waiting for the daemon ends. On a clock that a sleep advances by at least its length and
  that a request never turns backwards, \<open>request_with_retry\<close> returns; and it only gives up,
  with the timeout error, once the deadline has passed.\<close>

theorem retry_ends:
  fixes N :: "('n, 'y) net_scheme" and s :: "('n, 'z) client_scheme"
  assumes "\<And>d n. clock N n + d \<le> clock N (sleep N d n)"
    and "\<And>d (s :: ('n, 'z) client_scheme). clock N (world s) \<le> clock N (world (snd (api_request N t m d s)))"
  shows "\<exists>r s'. request_with_retry N t m deadline s = Some (r, s') \<and>
     (\<forall>e. r = Inl e \<longrightarrow> clock N (world s) + deadline \<le> clock N (world s') \<and>
        (\<exists>c. e = Context retry_timed_out c))"
  unfolding request_with_retry_def using retry_returns [OF assms order_refl] by blast

text \<open>A daemon that is not there: every connection is refused, at the cost of one tick.\<close>

definition refusing :: "nat net" where
  "refusing =
     \<lparr>connect = (\<lambda>_ n. (Inl (Bail ''refused''), n + 1)), send_line = (\<lambda>_ n. (Inr (), n)),
      next_line = (\<lambda>n. (None, n)), clock = id, sleep = (\<lambda>d n. n + d), cancelled = (\<lambda>d n. n + d),
      encode_action = (\<lambda>_. Inr []), decode_response = (\<lambda>_. Inr (OkResponse EmptyPayload)),
      decode_value = (\<lambda>_. Inr JNull), local_cid = None\<rparr>"

lemma refusing_request:
  "api_request refusing t m d s =
     (if 1 \<le> d then (Inl (Bail ''refused''), s\<lparr>world := world s + 1\<rparr>)
      else (Inl (Context ''device-manager request timed out'' (Bail ''deadline has elapsed'')),
            s\<lparr>world := world s + d\<rparr>))"
  by (simp add: api_request_def timeout_def bindE_def on_world_def refusing_def)

lemma retry_ends_witness:
  "\<exists>r s'. request_with_retry refusing (UnixTransportAt ''s'') EnableNotifications (3 * second)
      \<lparr>world = 7\<rparr> = Some (r, s') \<and> (\<forall>e. r = Inl e \<longrightarrow> 7 + 3 * second \<le> world s')"
proof -
  have sleeps: "clock refusing n + d \<le> clock refusing (sleep refusing d n)" for d n
    by (simp add: refusing_def)
  have asks: "clock refusing (world s) \<le>
      clock refusing (world (snd (api_request refusing (UnixTransportAt ''s'') EnableNotifications d s)))"
    for d and s :: "(nat, 'z) client_scheme"
    by (simp add: refusing_request) (simp add: refusing_def)
  from retry_ends [where N = refusing and s = "\<lparr>world = 7\<rparr>" and deadline = "3 * second",
      OF sleeps asks]
  show ?thesis by (auto simp: refusing_def)
qed

section \<open>Output for scripts\<close>

fun split_at :: "'a \<Rightarrow> 'a list \<Rightarrow> 'a list list" where
  "split_at d [] = [[]]"
| "split_at d (c # cs) =
     (if c = d then [] # split_at d cs
      else case split_at d cs of [] \<Rightarrow> [[c]] | w # ws \<Rightarrow> (c # w) # ws)"

lemma split_at_nonempty: "split_at d s \<noteq> []"
  by (induction s) (auto split: list.split)

lemma split_at_word: "d \<notin> set w \<Longrightarrow> split_at d w = [w]"
  by (induction w) auto

lemma split_at_append: "d \<notin> set w \<Longrightarrow> split_at d (w @ d # s) = w # split_at d s"
  by (induction w) (auto simp: split_at_nonempty)

lemma split_join:
  "ws \<noteq> [] \<Longrightarrow> \<forall>w\<in>set ws. d \<notin> set w \<Longrightarrow> split_at d (join [d] ws) = ws"
  by (induction "[d]" ws rule: join.induct) (simp_all add: split_at_word split_at_append)

text \<open>The printed VMM arguments survive word splitting. What \<open>vmm args\<close> prints is one line that,
  split at spaces, gives back exactly the arguments the daemon sent; arguments for which that
  would not hold are refused.\<close>

theorem vmm_args_split_back:
  assumes "args \<noteq> []"
  shows "(\<forall>a\<in>set args. \<not> list_ex is_whitespace (chars a)) \<and>
       (\<exists>l. vmm_output args = Inr [l] \<and> split_at 32 l = map chars args) \<or>
     (\<exists>a\<in>set args. list_ex is_whitespace (chars a)) \<and> (\<exists>e. vmm_output args = Inl e)"
proof (cases "\<exists>a\<in>set args. list_ex is_whitespace (chars a)")
  case True
  then show ?thesis by (auto simp: vmm_output_def list_ex_iff)
next
  case False
  then have out: "vmm_output args = Inr [join [32] (map chars args)]"
    by (auto simp: vmm_output_def list_ex_iff)
  have "32 \<notin> set (chars a)" if "a \<in> set args" for a
    using False that by (auto simp: list_ex_iff is_whitespace_def)
  then have "split_at 32 (join [32] (map chars args)) = map chars args"
    using assms by (intro split_join) auto
  then show ?thesis using False out by blast
qed

lemma vmm_args_split_back_witness:
  "\<exists>l. vmm_output [''--vfio'', ''/sys/x''] = Inr [l] \<and> split_at 32 l = map chars [''--vfio'', ''/sys/x'']"
proof -
  have "\<not> list_ex is_whitespace (chars a)" if "a \<in> set [''--vfio'', ''/sys/x'']" for a
  proof -
    have "list_all (\<lambda>a. \<not> list_ex is_whitespace (chars a)) [''--vfio'', ''/sys/x'']" by code_simp
    then show ?thesis using that by (auto simp: list_all_iff)
  qed
  then show ?thesis using vmm_args_split_back [of "[''--vfio'', ''/sys/x'']"] by blast
qed

text \<open>C40: a huge timeout panics. The check before the conversion lets every finite non-negative
  number through, but the conversion to a duration panics from 2 to the power of 64 seconds
  on.\<close>

theorem huge_timeout_panics:
  assumes "0 \<le> e" and "2 ^ 64 \<le> nat m * 2 ^ nat e"
  shows "\<not> bad_timeout (Finite m e) \<and> prepare (VmmCommand (ArgsVmm v p i (Finite m e) q)) = Panicked"
proof -
  have m: "\<not> m < 0"
  proof
    assume "m < 0"
    then have "nat m = 0" by simp
    then show False using assms(2) by simp
  qed
  have "nat m * 2 ^ nat e * second div second = nat m * 2 ^ nat e" by (simp add: second_def)
  then have "from_secs_f64 (Finite m e) = None"
    using assms m by (simp add: from_secs_f64_def Let_def)
  then show ?thesis using m by (simp add: bad_timeout_def)
qed

lemma huge_timeout_panics_witness:
  "prepare (VmmCommand (ArgsVmm ''gui'' None None (Finite 1 64) False)) = Panicked"
  by (rule huge_timeout_panics [THEN conjunct2]) simp_all

section \<open>Listening\<close>

lemma next_frame_simps:
  "fst (next_line N (world s)) = None \<Longrightarrow>
     next_frame N s = (Inr None, s\<lparr>world := snd (next_line N (world s))\<rparr>)"
  "fst (next_line N (world s)) = Some (Inr l) \<Longrightarrow>
     next_frame N s = (Inr (Some l), s\<lparr>world := snd (next_line N (world s))\<rparr>)"
  by (simp_all add: next_frame_def on_world_def case_prod_beta)

text \<open>The listener prints every notification, in order, and ends with an error when the stream
  does.\<close>

lemma hear_prints:
  assumes "delivers N ls (world s)" and "map (decode_value N) ls = map Inr vs"
  shows "\<exists>s'. hear N (\<lambda>v. print_lines [f v]) s = Some (closed_by_remote, s') \<and>
     printed s' = printed s @ map f vs"
  using assms
proof (induction ls arbitrary: s vs)
  case Nil
  then show ?case by (subst hear.simps) (simp add: next_frame_simps)
next
  case (Cons l ls)
  then obtain v vs' where vs: "vs = v # vs'" "decode_value N l = Inr v" by (cases vs) auto
  let ?s = "print_lines [f v] (s\<lparr>world := snd (next_line N (world s))\<rparr>)"
  have "hear N (\<lambda>v. print_lines [f v]) s = hear N (\<lambda>v. print_lines [f v]) ?s"
    using Cons.prems vs by (subst hear.simps) (simp add: next_frame_simps)
  moreover have "delivers N ls (world ?s)" using Cons.prems by (simp add: print_lines_def)
  moreover have "printed ?s = printed s @ [f v]" by (simp add: print_lines_def)
  ultimately show ?case using Cons.IH [of ?s vs'] Cons.prems vs by simp
qed

end
