(* ===== verification/Reopen_Properties.thy ===== *)
theory Reopen_Properties
  imports Gate_Properties
begin

text \<open>
  What reopening the USB gate gives back. The kernel may change with every effect, so what the
  gate saw is told by the kernel states the operation passed through: those its effects were
  issued in and the last one.
\<close>

section \<open>The kernel states an operation passes through\<close>

definition moves :: "('k, 'z) host_scheme \<Rightarrow> ('k, 'z) host_scheme \<Rightarrow> bool" where
  "moves s t \<longleftrightarrow>
     (\<exists>new. history t = history s @ new \<and> kern s = (case new of [] \<Rightarrow> kern t | x # _ \<Rightarrow> snd x))"

definition passed :: "('k, 'z) host_scheme \<Rightarrow> ('k, 'z) host_scheme \<Rightarrow> 'k set" where
  "passed s t = insert (kern t) (snd ` set (drop (length (history s)) (history t)))"

definition traced :: "('k, 'z, 'a) host_op \<Rightarrow> bool" where
  "traced f \<longleftrightarrow> (\<forall>s. moves s (snd (f s)))"

named_theorems traced_intro "operations that change the kernel only by effects of the history"

lemma tracedD: "traced f \<Longrightarrow> f s = (r, t) \<Longrightarrow> moves s t"
  unfolding traced_def by (metis snd_conv)

lemma moves_refl: "moves s s"
  by (simp add: moves_def)

lemma moves_trans:
  assumes "moves s u" and "moves u t"
  shows "moves s t"
proof -
  obtain m n where m: "history u = history s @ m" "kern s = (case m of [] \<Rightarrow> kern u | x # _ \<Rightarrow> snd x)"
    and n: "history t = history u @ n" "kern u = (case n of [] \<Rightarrow> kern t | x # _ \<Rightarrow> snd x)"
    using assms by (auto simp: moves_def)
  then have "history t = history s @ (m @ n)"
    and "kern s = (case m @ n of [] \<Rightarrow> kern t | x # _ \<Rightarrow> snd x)"
    by (simp_all split: list.splits)
  then show ?thesis unfolding moves_def by blast
qed

lemma moves_passed:
  assumes "moves s t"
  shows "kern s \<in> passed s t"
proof -
  obtain new where "history t = history s @ new" "kern s = (case new of [] \<Rightarrow> kern t | x # _ \<Rightarrow> snd x)"
    using assms by (auto simp: moves_def)
  then show ?thesis by (cases new) (simp_all add: passed_def)
qed

lemma moves_issued:
  "moves s u \<Longrightarrow> moves u t \<Longrightarrow>
   set (drop (length (history s)) (history u)) \<subseteq> set (drop (length (history s)) (history t)) \<and>
   set (drop (length (history u)) (history t)) \<subseteq> set (drop (length (history s)) (history t))"
  by (auto simp: moves_def)

lemma passed_mono:
  assumes "moves s u" and "moves u t"
  shows "passed s u \<subseteq> passed s t" and "passed u t \<subseteq> passed s t"
proof -
  show "passed u t \<subseteq> passed s t"
    using moves_issued [OF assms] by (auto simp: passed_def)
  then show "passed s u \<subseteq> passed s t"
    using moves_issued [OF assms] moves_passed [OF assms(2)] by (auto simp: passed_def)
qed

lemma traced_basic [traced_intro]:
  "traced (retE x)" "traced (failE e)" "traced (liftE r)" "traced (getE g)" "traced (look h)"
  "traced (look_result h')" "traced (issue x0 f)"
  by (simp_all add: traced_def moves_def oper_defs look_def look_result_def issue_def
      case_prod_beta)

lemma traced_sys [traced_intro]: "traced (sys E e)" "traced (fs_write E p v)"
  by (simp_all add: sys_def fs_write_def traced_basic)

lemma traced_bind [traced_intro]:
  assumes "traced f" and "\<And>x. traced (g x)"
  shows "traced (bindE f g)"
  unfolding traced_def
proof
  fix s
  obtain r u where f: "f s = (r, u)" by fastforce
  have u: "moves s u" by (rule tracedD [OF assms(1) f])
  show "moves s (snd (bindE f g s))"
  proof (cases r)
    case (Inl e)
    then show ?thesis using f u by (simp add: bindE_apply)
  next
    case (Inr x)
    have "moves u (snd (g x u))" using assms(2) by (simp add: traced_def)
    then show ?thesis using f Inr moves_trans [OF u] by (simp add: bindE_apply)
  qed
qed

lemma traced_wrap [traced_intro]:
  "traced f \<Longrightarrow> traced (tryE f)"
  "traced f \<Longrightarrow> traced (ctxE m f)"
  "traced f \<Longrightarrow> traced (ignoreE f)"
  by (simp_all add: traced_def tryE_def ctxE_def ignoreE_def case_prod_beta)

lemma traced_cases [traced_intro]:
  "traced f \<Longrightarrow> traced g \<Longrightarrow> traced (if b then f else g)"
  "(\<And>e. traced (f' e)) \<Longrightarrow> (\<And>y. traced (g' y)) \<Longrightarrow>
     traced (case x of Inl e \<Rightarrow> f' e | Inr y \<Rightarrow> g' y)"
  by (auto split: sum.split)

lemma traced_forE [traced_intro]:
  "(\<And>d. d \<in> set ds \<Longrightarrow> traced (f d)) \<Longrightarrow> traced (forE ds f)"
  by (induction ds) (auto intro: traced_intro)

text \<open>The turn of an element in a loop.\<close>

lemma forE_turn:
  assumes "forE ds f s = (Inr (), t)" and "d \<in> set ds" and "\<And>d. traced (f d)"
  obtains u v where "moves s u" and "f d u = (Inr (), v)" and "moves v t"
  using assms
proof (induction ds arbitrary: s thesis)
  case (Cons e es)
  obtain s1 where e: "f e s = (Inr (), s1)" and rest: "forE es f s1 = (Inr (), t)"
    using Cons.prems(2) by (auto simp: bindE_Inr_iff)
  have s1: "moves s s1" using tracedD [OF Cons.prems(4) e] .
  show ?case
  proof (cases "d = e")
    case True
    have "moves s1 t" using tracedD [OF traced_forE rest] Cons.prems(4) by blast
    then show ?thesis using Cons.prems(1) [OF moves_refl] e True by blast
  next
    case False
    then have "d \<in> set es" using Cons.prems(3) by simp
    then obtain u v where "moves s1 u" "f d u = (Inr (), v)" "moves v t"
      using Cons.IH [OF _ rest _ Cons.prems(4)] by blast
    then show ?thesis using Cons.prems(1) moves_trans [OF s1] by blast
  qed
qed simp

section \<open>Handing one device back\<close>

text \<open>In kernel state \<open>k\<close> the listed device \<open>name\<close> may be used by the host, and \<open>n\<close>, the device
  itself or one of its interfaces, has no driver.\<close>

definition wants_driver :: "'k dm \<Rightarrow> string \<Rightarrow> string \<Rightarrow> 'k \<Rightarrow> bool" where
  "wants_driver D name n k \<longleftrightarrow>
     (case device_names D (usb_root D) k of Inl _ \<Rightarrow> False | Inr ns \<Rightarrow> name \<in> set ns) \<and>
     (n = name \<or>
      (case interface_names D (usb_root D) name k of Inl _ \<Rightarrow> False | Inr is \<Rightarrow> n \<in> set is)) \<and>
     driver D (usb_root D) n k = None \<and> \<not> unauthorized D name k"

text \<open>Between \<open>s\<close> and \<open>t\<close> the host drivers were asked to look at \<open>n\<close>, or there was a moment
  when \<open>n\<close> did not want one.\<close>

definition accounted :: "'k dm \<Rightarrow> path \<Rightarrow> string \<Rightarrow> string \<Rightarrow> 'k manager \<Rightarrow> 'k manager \<Rightarrow> bool" where
  "accounted D b name n s t \<longleftrightarrow>
     (\<exists>k. (Write (b @ [''drivers_probe'']) n, k) \<in> set (drop (length (history s)) (history t))) \<or>
     (\<exists>k\<in>passed s t. \<not> wants_driver D name n k)"

lemma accounted_mono:
  assumes "accounted D b name n u v" and "moves s u" and "moves u v" and "moves v t"
  shows "accounted D b name n s t"
proof -
  have ut: "moves u t" by (rule moves_trans [OF assms(3,4)])
  show ?thesis
    using assms(1) moves_issued [OF assms(3,4)] moves_issued [OF assms(2) ut]
      passed_mono [OF assms(3,4)] passed_mono [OF assms(2) ut]
    unfolding accounted_def by blast
qed

lemma accounted_unwanted:
  "moves s t \<Longrightarrow> \<not> wants_driver D name n (kern s) \<Longrightarrow> accounted D b name n s t"
  using moves_passed unfolding accounted_def by blast

lemma traced_probe_if_driverless [traced_intro]: "traced (probe_if_driverless D b n)"
  unfolding probe_if_driverless_def probe_def by (intro traced_intro)

lemma traced_hand_back_one [traced_intro]: "traced (hand_back_one D b held name)"
  unfolding hand_back_one_def by (intro traced_intro)

lemma probe_accounted:
  assumes "probe_if_driverless D b n s = (r, t)"
  shows "accounted D b name n s t"
proof (cases "driver D (usb_root D) n (kern s)")
  case None
  then have "history t = history s @ [(Write (b @ [''drivers_probe'']) n, kern s)]"
    using assms by (auto simp: probe_if_driverless_def look_bind probe_def ignoreE_def
        fs_write_history)
  then show ?thesis by (simp add: accounted_def)
next
  case (Some dr)
  then show ?thesis
    by (intro accounted_unwanted [OF tracedD [OF traced_probe_if_driverless assms]])
      (simp add: wants_driver_def)
qed

lemma hand_back_accounted:
  assumes "hand_back_one D b held name s = (Inr (), t)" and "name \<notin> held"
  shows "accounted D b name n s t"
proof (cases "unauthorized D name (kern s)")
  case True
  then show ?thesis
    by (intro accounted_unwanted [OF tracedD [OF traced_hand_back_one assms(1)]])
      (simp add: wants_driver_def)
next
  case False
  then obtain x u where p: "probe_if_driverless D b name s = (x, u)"
    and rest: "(case interface_names D (usb_root D) name (kern u) of
        Inl _ \<Rightarrow> retE () | Inr ns \<Rightarrow> forE ns (probe_if_driverless D b)) u = (Inr (), t)"
    using assms by (auto simp: hand_back_one_def look_bind bindE_Inr_iff)
  have su: "moves s u" by (rule tracedD [OF traced_probe_if_driverless p])
  have "traced (case interface_names D (usb_root D) name (kern u) of
        Inl _ \<Rightarrow> retE () | Inr ns \<Rightarrow> forE ns (probe_if_driverless D b))"
    by (intro traced_intro)
  from tracedD [OF this rest] have ut: "moves u t" .
  show ?thesis
  proof (cases "n = name")
    case True
    have "accounted D b name name s u" by (rule probe_accounted [OF p])
    then show ?thesis unfolding True by (rule accounted_mono [OF _ moves_refl su ut])
  next
    case other: False
    show ?thesis
    proof (cases "wants_driver D name n (kern u)")
      case False
      have "accounted D b name n u t" by (rule accounted_unwanted [OF ut False])
      then show ?thesis by (rule accounted_mono [OF _ su ut moves_refl])
    next
      case True
      then obtain ns where ns: "interface_names D (usb_root D) name (kern u) = Inr ns" "n \<in> set ns"
        using other by (auto simp: wants_driver_def split: sum.splits)
      then have turns: "forE ns (probe_if_driverless D b) u = (Inr (), t)" using rest by simp
      obtain v w where v: "moves u v" "moves w t" and w: "probe_if_driverless D b n v = (Inr (), w)"
        by (rule forE_turn [OF turns ns(2) traced_probe_if_driverless])
      show ?thesis
        by (rule accounted_mono [OF probe_accounted [OF w] moves_trans [OF su v(1)]
              tracedD [OF traced_probe_if_driverless w] v(2)])
    qed
  qed
qed

section \<open>Everything is handed back\<close>

text \<open>C28: everything is handed back. When the gate of a closed bus was reopened successfully, every
  device no VM holds, and every interface of it, was given to the host's drivers: either a
  probe was written for it, or at some moment of the reopening there was no need, because it
  was not listed, already had a driver, or belongs to a device the policy denies. Nothing is
  skipped because an earlier device of the list failed.\<close>

theorem open_gate_hands_back:
  assumes "open_usb_gate D s = (Inr (), t)"
    and "gated_bus D (kern s) = Some b" and "is_closed D b (kern s)"
    and "name \<notin> usb_held_by_vms D s"
  shows "accounted D b name n s t"
proof -
  obtain u where g: "open_gate D b s = (Inr (), u)"
    and rest: "bindE (look_result (device_names D (usb_root D))) (\<lambda>names.
        forE names (hand_back_one D b (usb_held_by_vms D s))) u = (Inr (), t)"
    using assms(1-3) by (auto simp: open_usb_gate_def look_bind bind_pure bindE_Inr_iff)
  have "traced (open_gate D b)"
    unfolding open_gate_def autoprobe_def by (intro traced_intro)
  from tracedD [OF this g] have su: "moves s u" .
  have "traced (bindE (look_result (device_names D (usb_root D))) (\<lambda>names.
        forE names (hand_back_one D b (usb_held_by_vms D s))))"
    by (intro traced_intro)
  from tracedD [OF this rest] have ut: "moves u t" .
  show ?thesis
  proof (cases "wants_driver D name n (kern u)")
    case False
    then have "accounted D b name n u t" by (rule accounted_unwanted [OF ut])
    then show ?thesis by (rule accounted_mono [OF _ su ut moves_refl])
  next
    case True
    then obtain ns where ns: "device_names D (usb_root D) (kern u) = Inr ns" "name \<in> set ns"
      by (auto simp: wants_driver_def split: sum.splits)
    then have turns: "forE ns (hand_back_one D b (usb_held_by_vms D s)) u = (Inr (), t)"
      using rest by (simp add: look_result_bind)
    obtain v w where v: "moves u v" "moves w t"
      and w: "hand_back_one D b (usb_held_by_vms D s) name v = (Inr (), w)"
      by (rule forE_turn [OF turns ns(2) traced_hand_back_one])
    show ?thesis
      by (rule accounted_mono [OF hand_back_accounted [OF w assms(4)] moves_trans [OF su v(1)]
            tracedD [OF traced_hand_back_one w] v(2)])
  qed
qed

text \<open>Nobody holds the keyboard, and neither it nor its interface has a driver.\<close>

definition idle_manager :: "disk manager" where
  "idle_manager =
     (plugged_manager sample_config [])\<lparr>kern := (plugged_disk [])\<lparr>links := []\<rparr>\<rparr>"

lemma open_gate_hands_back_witness:
  "\<exists>k. (Write [''bus'', ''drivers_probe''] ''1-2:1.0'', k)
     \<in> set (history (snd (open_usb_gate (sample_dm sample_config) idle_manager)))"
proof -
  let ?D = "sample_dm sample_config" and ?x = "open_usb_gate (sample_dm sample_config) idle_manager"
  have "is_ok (fst ?x)" by code_simp
  then have x: "?x = (Inr (), snd ?x)" using is_okD [of ?x] by simp
  have b: "gated_bus ?D (kern idle_manager) = Some [''bus'']"
    and c: "is_closed ?D [''bus''] (kern idle_manager)" by code_simp+
  have h: "''1-2'' \<notin> usb_held_by_vms ?D idle_manager" by code_simp
  have "list_all (wants_driver ?D ''1-2'' ''1-2:1.0'') (kern (snd ?x) # map snd (history (snd ?x)))"
    by code_simp
  moreover have "history idle_manager = []"
    by (simp add: idle_manager_def plugged_manager_def initial_manager_def)
  ultimately show ?thesis
    using open_gate_hands_back [OF x b c h, of "''1-2:1.0''"]
    by (auto simp: accounted_def passed_def list_all_iff)
qed

section \<open>A scan that fails\<close>

text \<open>The devices VMs hold are looked up by a scan. When it fails, here because one directory
  entry cannot be read, none counts as held, while the listing of the names skips that entry and
  goes on: the device the graphics VM holds is handed to the host's drivers, which
  a scan that succeeds prevents.\<close>

definition torn_dm :: "disk dm" where
  "torn_dm = (sample_dm sample_config)
     \<lparr>read_dir := (\<lambda>p k. map_option (\<lambda>ns. map Some ns @ [None]) (map_of (dirs k) p))\<rparr>"

theorem failed_scan_hands_held_back:
  "usb_vms leaving_manager ''/dev/bus/usb/001/004'' = Some ''gui'' \<and>
   map fst (history (snd (open_usb_gate torn_dm leaving_manager))) =
     [Write [''bus'', ''drivers_autoprobe''] ''1'', Write [''bus'', ''drivers_probe''] ''1-2'',
      Write [''bus'', ''drivers_probe''] ''1-2:1.0''] \<and>
   map fst (history (snd (open_usb_gate (sample_dm sample_config) leaving_manager))) =
     [Write [''bus'', ''drivers_autoprobe''] ''1'']"
  by code_simp

end
