(* ===== verification/Wakeup.thy ===== *)
theory Wakeup
  imports Daemon
begin

text \<open>
  What wakes the reconcile loop of \<open>src/bin/ghaf-device-manager.rs\<close>: the task that watches
  the udev monitor, the bounded channel it reports to, and the loop that waits for a message or
  for its delay, empties the channel and reconciles. The two tasks and their surroundings move
  independently, so they are a step relation. The channel and the readiness of the monitor's
  socket are those of \<open>tokio\<close>: at most eight messages, a sender that waits while it is full, a
  receiver that learns that the sender is gone once it is empty; readiness that a new event sets
  again and that a read clears as of the moment it began.
\<close>

section \<open>Setting up\<close>

text \<open>\<open>shutdown\<close> registers two signals, \<open>spawn_udev_monitor\<close> builds, starts and registers the
  monitor; the first failure of each is its result.\<close>

definition shutdown :: "unit result \<Rightarrow> unit result \<Rightarrow> unit result" where
  "shutdown terminate interrupt = (case terminate of Inl e \<Rightarrow> Inl e | Inr _ \<Rightarrow> interrupt)"

definition spawn_udev_monitor :: "unit result \<Rightarrow> unit result \<Rightarrow> unit result \<Rightarrow> unit result" where
  "spawn_udev_monitor builder listening registered =
     (case builder of
        Inl e \<Rightarrow> Inl e
      | Inr _ \<Rightarrow> (case listening of Inl e \<Rightarrow> Inl e | Inr _ \<Rightarrow> registered))"

section \<open>The state of the two tasks\<close>

datatype watch = Watching | Sending | Ended

text \<open>The loop waits for so many more seconds at most, empties the channel, reconciles, or has
  left because the watching task is gone.\<close>

datatype turn = Waiting nat | Draining | Passing | Stopped

text \<open>\<open>arrivals\<close> are the subsystems of the events the monitor's socket holds, \<open>queued\<close> the messages in
  the channel. \<open>unseen\<close> is a ghost: a relevant event came after the last pass began.\<close>

record 'k loop =
  arrivals :: "string option list"
  readable :: bool
  watch :: watch
  queued :: nat
  turn :: turn
  core :: "'k daemon"
  unseen :: bool

definition CHANNEL :: nat where "CHANNEL = 8"

text \<open>Looking for a relevant event stops at the first one and leaves the rest unread.\<close>

fun take_relevant :: "string option list \<Rightarrow> bool \<times> string option list" where
  "take_relevant [] = (False, [])"
| "take_relevant (e # es) = (if relevant [e] then (True, es) else take_relevant es)"

definition loop_starts :: "'k dm \<Rightarrow> bool \<Rightarrow> 'k manager \<Rightarrow> 'k loop \<Rightarrow> bool" where
  "loop_starts D attach_connected s w \<longleftrightarrow>
     (\<exists>es. w =
        \<lparr>arrivals = es, readable = (es \<noteq> []), watch = Watching, queued = 0,
         turn = (if attach_connected then Passing else Waiting RECONCILE_RETRY_INTERVAL),
         core = first_pass D attach_connected s, unseen = relevant es\<rparr>)"

section \<open>Their steps\<close>

text \<open>What the watching task does.\<close>

inductive watch_step :: "'k loop \<Rightarrow> 'k loop \<Rightarrow> bool" where
  reads: "watch w = Watching \<Longrightarrow> readable w \<Longrightarrow> take_relevant (arrivals w) = (found, rest) \<Longrightarrow>
    watch_step w (w\<lparr>arrivals := rest, readable := False,
                    watch := (if found then Sending else Watching)\<rparr>)"
| sends: "watch w = Sending \<Longrightarrow> turn w \<noteq> Stopped \<Longrightarrow> queued w < CHANNEL \<Longrightarrow>
    watch_step w (w\<lparr>watch := Watching, queued := Suc (queued w)\<rparr>)"
| send_fails: "watch w = Sending \<Longrightarrow> turn w = Stopped \<Longrightarrow> watch_step w (w\<lparr>watch := Ended\<rparr>)"

text \<open>What the reconcile loop does: a message or the end of the wait wakes it, the end of the
  channel stops it; it takes the messages that are there, begins a pass when there are none
  left, and takes it through its stages.\<close>

inductive turn_step :: "'k dm \<Rightarrow> 'k loop \<Rightarrow> 'k loop \<Rightarrow> bool" for D where
  receives: "turn w = Waiting n \<Longrightarrow> queued w = Suc q \<Longrightarrow>
    turn_step D w (w\<lparr>turn := Draining, queued := q\<rparr>)"
| times_out: "turn w = Waiting 0 \<Longrightarrow> turn_step D w (w\<lparr>turn := Draining\<rparr>)"
| hangs_up: "turn w = Waiting n \<Longrightarrow> queued w = 0 \<Longrightarrow> watch w = Ended \<Longrightarrow>
    turn_step D w (w\<lparr>turn := Stopped\<rparr>)"
| drains: "turn w = Draining \<Longrightarrow> queued w = Suc q \<Longrightarrow> turn_step D w (w\<lparr>queued := q\<rparr>)"
| begins: "turn w = Draining \<Longrightarrow> queued w = 0 \<Longrightarrow>
    turn_step D w (w\<lparr>turn := Passing, core := occurs D Woken (core w), unseen := False\<rparr>)"
| advances: "turn w = Passing \<Longrightarrow> progress (core w) \<noteq> None \<Longrightarrow>
    turn_step D w (w\<lparr>core := occurs D Advanced (core w)\<rparr>)"
| finishes: "turn w = Passing \<Longrightarrow> progress (core w) = None \<Longrightarrow>
    turn_step D w (w\<lparr>turn := Waiting (delay (core w))\<rparr>)"

text \<open>What happens around them: an event, a failure of the monitor, a second of waiting, an API
  request, a change of the environment.\<close>

inductive outer_step :: "'k dm \<Rightarrow> 'k loop \<Rightarrow> 'k loop \<Rightarrow> bool" for D where
  arrives: "outer_step D w
    (w\<lparr>arrivals := arrivals w @ [e], readable := True, unseen := (unseen w \<or> relevant [e])\<rparr>)"
| read_fails: "watch w = Watching \<Longrightarrow> outer_step D w (w\<lparr>watch := Ended\<rparr>)"
| waits: "turn w = Waiting (Suc n) \<Longrightarrow> outer_step D w (w\<lparr>turn := Waiting n\<rparr>)"
| happens: "x \<noteq> Woken \<Longrightarrow> x \<noteq> Advanced \<Longrightarrow> outer_step D w (w\<lparr>core := occurs D x (core w)\<rparr>)"

definition own_step :: "'k dm \<Rightarrow> 'k loop \<Rightarrow> 'k loop \<Rightarrow> bool" where
  "own_step D w w' \<longleftrightarrow> watch_step w w' \<or> turn_step D w w'"

definition loop_step :: "'k dm \<Rightarrow> 'k loop \<Rightarrow> 'k loop \<Rightarrow> bool" where
  "loop_step D w w' \<longleftrightarrow> own_step D w w' \<or> outer_step D w w'"

definition looping :: "'k dm \<Rightarrow> bool \<Rightarrow> 'k manager \<Rightarrow> 'k loop \<Rightarrow> bool" where
  "looping D attach_connected s = runs (loop_starts D attach_connected s) (loop_step D)"

text \<open>The ways the wait of \<open>daemon\<close> can end when the tasks stand at \<open>w\<close>.\<close>

fun may_end :: "'k loop \<Rightarrow> stop \<Rightarrow> bool" where
  "may_end w LoopStopped \<longleftrightarrow> turn w = Stopped"
| "may_end w _ \<longleftrightarrow> True"

section \<open>Inversion and frames\<close>

inductive_simps watch_step_iff: "watch_step w w'"
inductive_simps turn_step_iff: "turn_step D w w'"
inductive_simps outer_step_iff: "outer_step D w w'"

lemmas loop_step_cases = loop_step_def own_step_def

lemma take_relevant_found [simp]: "fst (take_relevant es) = relevant es"
  by (induction es) (simp_all add: relevant_def)

lemma relevant_append [simp]: "relevant (xs @ ys) \<longleftrightarrow> relevant xs \<or> relevant ys"
  by (simp add: relevant_def)

lemma take_relevant_iff: "take_relevant es = (found, rest) \<Longrightarrow> found = relevant es"
  using take_relevant_found [of es] by simp

lemma outer_occurs [simp]:
  assumes "x \<noteq> Woken" and "x \<noteq> Advanced"
  shows "delay (occurs D x d) = delay d" and "progress (occurs D x d) = progress d"
  using assms by (cases x; simp)+

text \<open>The two waits there are.\<close>

definition proper_delay :: "'k daemon \<Rightarrow> bool" where
  "proper_delay d \<longleftrightarrow> delay d \<in> {RECONCILE_RETRY_INTERVAL, RECONCILE_SAFETY_INTERVAL}"

lemma proper_delay_pass:
  "proper_delay (passed_over r t)" "proper_delay (pass D s)"
  "proper_delay d \<Longrightarrow> proper_delay (pass_on D q d)"
  by (auto simp: proper_delay_def passed_over_def pass_def pass_on_def next_delay_def
      split: prod.split sum.split point.split)

lemma proper_delay_occurs: "proper_delay d \<Longrightarrow> proper_delay (occurs D x d)"
  by (cases x) (auto simp: proper_delay_pass split: option.split, simp_all add: proper_delay_def)

end
