(* ===== verification/Wakeup_Properties.thy ===== *)
theory Wakeup_Properties
  imports Wakeup Daemon_Properties
begin

text \<open>
  The properties of the reconcile loop: no event is lost between the monitor, the channel and
  the pass, the loop gets to it by its own steps, and what it does to the manager is what the
  sequential model of the daemon does.
\<close>

section \<open>Where an event is\<close>

text \<open>The event can still be found: in the socket, which will be read, on its way into the channel,
  in it, or with the loop already up.\<close>

definition noticed :: "'k loop \<Rightarrow> bool" where
  "noticed w \<longleftrightarrow>
     readable w \<and> relevant (arrivals w) \<or> watch w = Sending \<or> 0 < queued w \<or> turn w = Draining"

definition loop_ok :: "'k loop \<Rightarrow> bool" where
  "loop_ok w \<longleftrightarrow>
     (unseen w \<longrightarrow> noticed w \<or> watch w = Ended) \<and> queued w \<le> CHANNEL \<and>
     (turn w = Stopped \<longrightarrow> watch w = Ended \<and> queued w = 0) \<and>
     (turn w \<noteq> Passing \<longrightarrow> progress (core w) = None) \<and> proper_delay (core w) \<and>
     (\<forall>n. turn w = Waiting n \<longrightarrow> n \<le> delay (core w))"

lemma loop_ok_watch: "watch_step w w' \<Longrightarrow> loop_ok w \<Longrightarrow> loop_ok w'"
  by (induction rule: watch_step.induct)
    (auto simp: loop_ok_def noticed_def dest: take_relevant_iff)

lemma loop_ok_turn: "turn_step D w w' \<Longrightarrow> loop_ok w \<Longrightarrow> loop_ok w'"
proof (induction rule: turn_step.induct)
  case (begins w)
  then show ?case using proper_delay_occurs [of "core w" D Woken] by (simp add: loop_ok_def)
next
  case (advances w)
  then show ?case
    using proper_delay_occurs [of "core w" D Advanced] by (simp add: loop_ok_def noticed_def)
qed (auto simp: loop_ok_def noticed_def)

lemma loop_ok_outer: "outer_step D w w' \<Longrightarrow> loop_ok w \<Longrightarrow> loop_ok w'"
proof (induction rule: outer_step.induct)
  case (happens x w)
  then show ?case
    using proper_delay_occurs [of "core w" D x] by (simp add: loop_ok_def noticed_def)
qed (auto simp: loop_ok_def noticed_def)

lemma loop_ok_start: "loop_starts D ac s w \<Longrightarrow> loop_ok w"
  using proper_delay_pass(2) [of D s]
  by (auto simp: loop_starts_def loop_ok_def noticed_def first_pass_def relevant_def
      proper_delay_def split: if_splits)

interpretation loop_runs: machine_invariant "loop_starts D ac s" "loop_step D" loop_ok for D ac s
  by unfold_locales
    (auto simp: loop_step_cases intro: loop_ok_start loop_ok_watch loop_ok_turn loop_ok_outer)

lemma looping_ok: "looping D ac s w \<Longrightarrow> loop_ok w"
  unfolding looping_def by (rule loop_runs.always)

text \<open>C10: no USB or PCI event is lost on its way to a pass. Whatever the order in which events, the
  watching task, the channel, the reconcile loop and API requests move: an event that matters and
  came after the last pass began is in a socket that is marked for reading, on its way into the
  channel, in it, or the loop is up and about to reconcile, unless the watching task is gone.
  That task's end is the only reason for the loop to stop; the channel never holds more than its
  eight messages; and the loop never waits longer than 30 seconds.\<close>

theorem no_event_lost:
  assumes "looping D attach_connected s w"
  shows "(unseen w \<longrightarrow> noticed w \<or> watch w = Ended) \<and> queued w \<le> 8 \<and>
    (turn w = Stopped \<longrightarrow> watch w = Ended) \<and> (\<forall>n. turn w = Waiting n \<longrightarrow> n \<le> 30)"
  using looping_ok [OF assms]
  by (auto simp: loop_ok_def CHANNEL_def proper_delay_def RECONCILE_RETRY_INTERVAL_def
      RECONCILE_SAFETY_INTERVAL_def)

text \<open>A USB device is plugged in while the loop waits.\<close>

definition waiting_loop :: "disk loop" where
  "waiting_loop =
     \<lparr>arrivals = [], readable = False, watch = Watching, queued = 0, turn = Waiting 2,
      core = first_pass (sample_dm sample_config) False (plugged_manager sample_config []),
      unseen = False\<rparr>"

definition woken_loop :: "disk loop" where
  "woken_loop =
     waiting_loop\<lparr>arrivals := arrivals waiting_loop @ [Some ''usb''], readable := True,
                 unseen := (unseen waiting_loop \<or> relevant [Some ''usb''])\<rparr>"

lemma woken_looping:
  "looping (sample_dm sample_config) False (plugged_manager sample_config []) woken_loop"
proof -
  have "loop_starts (sample_dm sample_config) False (plugged_manager sample_config []) waiting_loop"
    by (simp add: loop_starts_def waiting_loop_def RECONCILE_RETRY_INTERVAL_def relevant_def)
  moreover have "loop_step (sample_dm sample_config) waiting_loop woken_loop"
    unfolding loop_step_def woken_loop_def by (rule disjI2, rule outer_step.arrives)
  ultimately show ?thesis
    unfolding looping_def by (rule runs_move [OF runs_init])
qed

lemma woken_unseen: "unseen woken_loop" "watch woken_loop = Watching"
  by (simp_all add: woken_loop_def waiting_loop_def relevant_def)

lemma no_event_lost_witness: "noticed woken_loop"
  using no_event_lost [OF woken_looping] woken_unseen by simp

section \<open>The loop gets to it\<close>

text \<open>However the daemon's own steps are ordered, one of the next \<open>n\<close> states satisfies \<open>P\<close>, and
  until then there is a step to take.\<close>

primrec within :: "'k dm \<Rightarrow> ('k loop \<Rightarrow> bool) \<Rightarrow> nat \<Rightarrow> 'k loop \<Rightarrow> bool" where
  "within D P 0 w \<longleftrightarrow> P w"
| "within D P (Suc n) w \<longleftrightarrow>
     P w \<or> (\<exists>w'. own_step D w w') \<and> (\<forall>w'. own_step D w w' \<longrightarrow> within D P n w')"

text \<open>The steps the pass under way has still before it.\<close>

definition pass_left :: "'k daemon \<Rightarrow> nat" where
  "pass_left d = (case progress d of None \<Rightarrow> 0 | Some q \<Rightarrow> Suc (left_of (q, managed d)))"

lemma pass_left_decreases:
  assumes "progress d = Some q"
  shows "pass_left (pass_on D q d) < pass_left d"
proof -
  obtain q' t where a: "advance D (q, managed d) = (q', t)" by fastforce
  show ?thesis
  proof (cases "\<exists>r. q' = Over r")
    case True
    then show ?thesis using assms by (auto simp: pass_on_def a passed_over_def pass_left_def)
  next
    case False
    then have "\<And>r. q \<noteq> Over r" using a by auto
    then have "left_of (q', t) < left_of (q, managed d)"
      using advance_left [of "(q, managed d)" D] a by simp
    then show ?thesis
      using assms False by (cases q') (simp_all add: pass_on_def a pass_left_def)
  qed
qed

fun turn_rank :: "turn \<Rightarrow> nat" where
  "turn_rank Passing = 2"
| "turn_rank (Waiting n) = 1"
| "turn_rank _ = 0"

definition rank :: "'k loop \<Rightarrow> nat" where
  "rank w = (if readable w then 3 else 0) + (if watch w = Sending then 2 else 0) + queued w +
     turn_rank (turn w) + pass_left (core w)"

lemma rank_watch: "watch_step w w' \<Longrightarrow> rank w' < rank w"
  by (induction rule: watch_step.induct) (auto simp: rank_def)

lemma rank_turn: "turn_step D w w' \<Longrightarrow> \<not> unseen w' \<or> rank w' < rank w"
proof (induction rule: turn_step.induct)
  case (advances w)
  then obtain q where q: "progress (core w) = Some q" by auto
  then show ?case using pass_left_decreases [OF q, of D] by (simp add: rank_def)
qed (auto simp: rank_def)

lemma own_progress:
  assumes "loop_ok w" and "unseen w" and "turn w \<noteq> Stopped"
  shows "\<exists>w'. own_step D w w'"
proof (cases "turn w")
  case (Waiting n)
  show ?thesis
  proof (cases "queued w")
    case 0
    consider "watch w = Watching" "readable w" | "watch w = Sending" | "watch w = Ended"
      using assms 0 Waiting by (cases "watch w") (auto simp: loop_ok_def noticed_def)
    then show ?thesis
    proof cases
      case 1
      then show ?thesis unfolding own_step_def using watch_step.reads surjective_pairing by metis
    next
      case 2
      then show ?thesis
        unfolding own_step_def using watch_step.sends [OF 2 assms(3)] 0 by (auto simp: CHANNEL_def)
    next
      case 3
      then show ?thesis unfolding own_step_def using turn_step.hangs_up [OF Waiting 0] by blast
    qed
  next
    case (Suc q)
    then show ?thesis unfolding own_step_def using turn_step.receives [OF Waiting] by blast
  qed
next
  case Draining
  then show ?thesis
    unfolding own_step_def using turn_step.begins turn_step.drains by (cases "queued w") blast+
next
  case Passing
  then show ?thesis
    unfolding own_step_def using turn_step.finishes turn_step.advances by metis
qed (use assms in simp)

lemma within_rank:
  "loop_ok w \<Longrightarrow> rank w < n \<Longrightarrow> within D (\<lambda>w. \<not> unseen w \<or> turn w = Stopped) n w"
proof (induction n arbitrary: w)
  case (Suc n)
  show ?case
  proof (cases "unseen w \<and> turn w \<noteq> Stopped")
    case True
    have next_one: "within D (\<lambda>w. \<not> unseen w \<or> turn w = Stopped) n w'" if "own_step D w w'" for w'
    proof (cases "unseen w'")
      case True
      then have "rank w' < rank w"
        using that rank_watch rank_turn unfolding own_step_def by blast
      moreover have "loop_ok w'"
        using that Suc.prems(1) loop_ok_watch loop_ok_turn unfolding own_step_def by blast
      ultimately show ?thesis using Suc by simp
    next
      case False
      then show ?thesis by (cases n) simp_all
    qed
    then show ?thesis using own_progress [OF Suc.prems(1)] True by simp
  qed simp
qed simp

text \<open>C11: the daemon gets to every event by itself. From any state in which an event waits for a
  pass, in whatever order the daemon's two tasks take their steps, there is a step to take, and
  within sixteen of them, beside those a pass under way still takes, a new pass begins, or the loop
  ends, and the daemon with it. The full
  channel never blocks the two tasks on each other.\<close>

theorem event_attended:
  assumes "looping D attach_connected s w" and "unseen w"
  shows "within D (\<lambda>v. \<not> unseen v \<or> turn v = Stopped) (16 + pass_left (core w)) w"
proof -
  have ok: "loop_ok w" by (rule looping_ok [OF assms(1)])
  have "turn_rank (turn w) \<le> 2" by (cases "turn w") simp_all
  then have "rank w < 16 + pass_left (core w)" using ok by (auto simp: rank_def loop_ok_def CHANNEL_def)
  then show ?thesis by (rule within_rank [OF ok])
qed

lemma event_attended_witness:
  "unseen woken_loop \<and>
   within (sample_dm sample_config) (\<lambda>v. \<not> unseen v \<or> turn v = Stopped) 16 woken_loop"
proof -
  have "pass_left (core woken_loop) = 0"
    by (simp add: pass_left_def woken_loop_def waiting_loop_def first_pass_def)
  then show ?thesis using event_attended [OF woken_looping] woken_unseen by simp
qed

section \<open>The loop and the sequential model\<close>

definition replays :: "'k dm \<Rightarrow> bool \<Rightarrow> 'k manager \<Rightarrow> 'k loop \<Rightarrow> bool" where
  "replays D attach_connected s w \<longleftrightarrow>
     (\<exists>occs. core w = fold (occurs D) occs (first_pass D attach_connected s))"

lemma replays_same: "replays D ac s w \<Longrightarrow> core w' = core w \<Longrightarrow> replays D ac s w'"
  by (simp add: replays_def)

lemma replays_more: "replays D ac s w \<Longrightarrow> core w' = occurs D x (core w) \<Longrightarrow> replays D ac s w'"
proof -
  assume "replays D ac s w" and c: "core w' = occurs D x (core w)"
  then obtain occs where "core w = fold (occurs D) occs (first_pass D ac s)"
    by (auto simp: replays_def)
  then have "core w' = fold (occurs D) (occs @ [x]) (first_pass D ac s)" using c by simp
  then show ?thesis unfolding replays_def by blast
qed

lemmas replays_pass = replays_more [where x = Woken] replays_more [where x = Advanced]

lemma replays_step: "loop_step D w w' \<Longrightarrow> replays D ac s w \<Longrightarrow> replays D ac s w'"
  unfolding loop_step_cases
  by (elim disjE watch_step.cases turn_step.cases outer_step.cases)
    (auto elim: replays_same replays_more replays_pass)

interpretation core_runs: machine_invariant "loop_starts D ac s" "loop_step D" "replays D ac s"
  for D ac s
proof
  fix w assume "loop_starts D ac s w"
  then have "core w = fold (occurs D) [] (first_pass D ac s)" by (auto simp: loop_starts_def)
  then show "replays D ac s w" unfolding replays_def by blast
qed (rule replays_step)

text \<open>The two tasks, the channel and the timer do to the manager what the sequential model of
  the daemon does. Every state they reach holds a manager that a sequence of requests, stages of
  passes and environment changes leaves, with the outcome of the way the wait ends; and it ends because the
  loop stopped only if the watching task ended before.\<close>

theorem loop_within_daemon:
  assumes "looping D attach_connected s w" and "may_end w ending"
  shows "(\<exists>occs. daemon_main D attach_connected (Inr ()) occs ending s =
      (outcome_of ending, managed (core w))) \<and>
    (ending = LoopStopped \<longrightarrow> watch w = Ended)"
proof -
  have "replays D attach_connected s w"
    using assms(1) unfolding looping_def by (rule core_runs.always)
  moreover have "ending = LoopStopped \<longrightarrow> watch w = Ended"
    using assms(2) looping_ok [OF assms(1)] by (auto simp: loop_ok_def)
  ultimately show ?thesis
    by (auto simp: replays_def daemon_main_def op_simps)
qed

lemma loop_within_daemon_witness:
  "\<exists>occs. daemon_main (sample_dm sample_config) False (Inr ()) occs ShutDown
      (plugged_manager sample_config []) = (Inr (), managed (core woken_loop))"
  using loop_within_daemon [OF woken_looping, of ShutDown] by simp

end
