(* ===== verification/Stage_Properties.thy ===== *)
theory Stage_Properties
  imports Pass_Stages Api Sample_Host
begin

text \<open>
  The properties of a reconcile pass in stages: what it is when nothing comes in between, and
  what a request in between can lose.
\<close>

section \<open>Without interruption\<close>

text \<open>Cut at the points where it gives the manager's memory free, a reconcile pass is still the
  pass. Run without a break from any state, the stages come to an end after at most six and two
  more for each device seen before, with the result and the state of \<open>reconcile\<close>; running on
  changes nothing.\<close>

theorem pass_is_its_stages:
  "(advance D ^^ (6 + 2 * length (observed_usb s))) (Settling, s) =
     (case reconcile D s of (r, t) \<Rightarrow> (Over r, t))"
  using advance_runs [of "(Settling, s)" "6 + 2 * length (observed_usb s)" D]
  by (simp add: left_of_def)

section \<open>With a request in between\<close>

text \<open>C36: forgetting a vanished device is not undone by what happened since the scan. If a device
  with the same name was plugged in again under a new node and a request attached it before the
  pass came to forgetting, the pass removes the port that the request recorded, while the new
  node stays held by its VM; whether or not the state can be saved.\<close>

theorem pass_forgets_fresh_port:
  assumes "advance D (Forgetting (key, d) xs usb pci, s) = (q, t)"
    and "usb_vms s node = Some name" and "device_node d \<noteq> Some node"
  shows "crosvm_usb_ports (persistent t) key = None \<and> usb_vms t node = Some name"
proof -
  obtain w where n: "notify (UsbDisconnected (device_node d)) s = (Inr (), w)"
    and w: "usb_vms w = usb_vms s"
    by (simp add: notify_def op_simps)
  define u where "u = forget_vanished key d w"
  have u: "crosvm_usb_ports (persistent u) key = None" "usb_vms u node = Some name"
    using assms(2,3) w by (auto simp: u_def forget_vanished_def split: option.split)
  obtain r v where save: "save D u = (r, v)" by fastforce
  note m = same_memory_fields [OF save_memory [OF save]]
  have "forget_gone D (key, d) s = bindE (save D) (\<lambda>_. modE (forget_pending (usb_persistent_id d))) u"
    unfolding forget_gone_def fst_conv snd_conv
      bindE_apply [of "notify (UsbDisconnected (device_node d))"]
    by (simp add: n bind_pure u_def)
  then have "snd (forget_gone D (key, d) s) \<in> {v, forget_pending (usb_persistent_id d) v}"
    by (cases r) (simp_all add: bindE_apply save modE_def)
  then have "t \<in> {v, forget_pending (usb_persistent_id d) v}"
    using assms(1) by (metis advance.simps(5) snd_conv snd_stage(1))
  then show ?thesis using u m by (auto simp: forget_pending_def)
qed

text \<open>The keyboard was seen under another node and is gone at the scan; then it is back, and a
  request attaches it to the graphics VM.\<close>

definition unplugged_manager :: "disk manager" where
  "unplugged_manager =
     (plugged_manager sample_config [])
       \<lparr>kern := (plugged_disk [])\<lparr>dirs := [([''bus'', ''devices''], []), ([''pci'', ''devices''], [])]\<rparr>,
        observed_usb := [(''1-2'', keyboard)]\<rparr>"

definition mid_pass :: "point \<times> disk manager" where
  "mid_pass = (advance (sample_dm sample_config) ^^ 3) (Settling, unplugged_manager)"

definition replugged :: "response \<times> disk manager" where
  "replugged =
     handle (sample_dm sample_config) (UsbAttach (ByVidPid ''a'' ''b'') None)
       ((snd mid_pass)\<lparr>kern := plugged_disk [reply ''devices'', reply ''devices'', reply ''ok 3'']\<rparr>)"

lemma pass_forgets_fresh_port_witness:
  "fst replugged = OkResponse EmptyPayload \<and>
   crosvm_usb_ports (persistent (snd replugged)) ''1-2'' \<noteq> None \<and>
   (case advance (sample_dm sample_config) (fst mid_pass, snd replugged) of (q, t) \<Rightarrow>
      crosvm_usb_ports (persistent t) ''1-2'' = None \<and>
      usb_vms t ''/dev/bus/usb/001/004'' = Some ''gui'')"
proof (intro conjI)
  show "fst replugged = OkResponse EmptyPayload"
    and "crosvm_usb_ports (persistent (snd replugged)) ''1-2'' \<noteq> None"
    by code_simp+
  have at: "fst mid_pass = Forgetting (''1-2'', keyboard) [] [] []"
    and held: "usb_vms (snd replugged) ''/dev/bus/usb/001/004'' = Some ''gui''"
    and new: "device_node keyboard \<noteq> Some ''/dev/bus/usb/001/004''"
    by code_simp+
  show "case advance (sample_dm sample_config) (fst mid_pass, snd replugged) of (q, t) \<Rightarrow>
      crosvm_usb_ports (persistent t) ''1-2'' = None \<and>
      usb_vms t ''/dev/bus/usb/001/004'' = Some ''gui''"
    using pass_forgets_fresh_port [OF _ held new, of "sample_dm sample_config" "''1-2''" "[]" "[]" "[]"]
    unfolding at by (simp split: prod.split)
qed

end
