(* ===== verification/Observe_Properties.thy ===== *)
theory Observe_Properties
  imports Manager_Memory Sample_Host
begin

text \<open>
  What observing tells the API's subscribers: every arrival and every departure, once, and what
  is forgotten with a device that left.
\<close>

section \<open>What is broadcast\<close>

text \<open>The notifications in a history, in order.\<close>

definition notice :: "effect \<times> 'k \<Rightarrow> notification option" where
  "notice x = (case fst x of Notify n \<Rightarrow> Some n | _ \<Rightarrow> None)"

definition notices :: "(effect \<times> 'k) list \<Rightarrow> notification list" where
  "notices h = List.map_filter notice h"

lemma notices_append [simp]: "notices (h @ h') = notices h @ notices h'"
  by (simp add: notices_def List.map_filter_def)

text \<open>An operation that, when it succeeds, broadcasts exactly \<open>ns\<close>.\<close>

definition says :: "notification list \<Rightarrow> ('k manager, 'a) oper \<Rightarrow> bool" where
  "says ns f \<longleftrightarrow> (\<forall>s x t. f s = (Inr x, t) \<longrightarrow> notices (history t) = notices (history s) @ ns)"

named_theorems says_intro "what operations broadcast"

lemma saysD: "says ns f \<Longrightarrow> f s = (Inr x, t) \<Longrightarrow> notices (history t) = notices (history s) @ ns"
  by (simp add: says_def)

lemma says_bind: "says ns f \<Longrightarrow> (\<And>x. says ns' (g x)) \<Longrightarrow> says (ns @ ns') (bindE f g)"
  by (fastforce simp: says_def bindE_Inr_iff)

lemma says_then [says_intro]: "says [] f \<Longrightarrow> (\<And>x. says ns (g x)) \<Longrightarrow> says ns (bindE f g)"
  by (rule says_bind [of "[]", simplified])

lemma says_first: "says [n] f \<Longrightarrow> (\<And>x. says ns (g x)) \<Longrightarrow> says (n # ns) (bindE f g)"
  by (rule says_bind [of "[n]", simplified])

lemma says_notify [says_intro]: "says [n] (notify n)"
  by (auto simp: says_def host_defs issue_apply notices_def List.map_filter_def notice_def)

lemma says_mod [says_intro]: "(\<And>s. history (h s) = history s) \<Longrightarrow> says [] (modE h)"
  by (auto simp: says_def modE_def)

lemma says_nothing:
  assumes "emits (\<lambda>x. notice x = None) f"
  shows "says [] f"
  unfolding says_def
proof (intro allI impI)
  fix s x t assume "f s = (Inr x, t)"
  then obtain new where "history t = history s @ new" and "list_all (\<lambda>x. notice x = None) new"
    using emitsD [OF assms] by blast
  moreover have "notices new = [] \<longleftrightarrow> list_all (\<lambda>x. notice x = None) new" for new :: "(effect \<times> 'a) list"
    by (auto simp: notices_def List.map_filter_def filter_empty_conv list_all_iff)
  ultimately show "notices (history t) = notices (history s) @ []" by simp
qed

lemma says_get [says_intro]: "says [] (getE g)" "says [] (retE x)" "says [] (look_result h)"
  by (rule says_nothing, rule emits_basic)+

lemma says_forE: "(\<And>d. d \<in> set ds \<Longrightarrow> says [n d] (f d)) \<Longrightarrow> says (map n ds) (forE ds f)"
  by (induction ds) (auto intro: says_intro says_first)

section \<open>What is forgotten\<close>

lemma says_vanished_usb: "says [UsbDisconnected (device_node (snd x))] (vanished_usb D x)"
proof -
  have quiet: "says [] (release_vanished D b)" for b
    unfolding release_vanished_def
    by (rule says_nothing) (intro emits_intro, auto simp: notice_def request_def)
  have saved: "says [] (save D)"
    by (rule says_nothing, rule emits_save)
      (auto simp: state_file_effect_def notice_def Let_def split: option.splits effect.splits)
  show ?thesis
    unfolding vanished_usb_def case_prod_beta
    by (rule says_then [OF says_get(1)], rule says_then [OF quiet],
        rule says_first [OF says_notify], rule says_then, rule says_mod, simp add: forget_vanished_def,
        rule says_then [OF saved], rule says_mod, simp add: forget_pending_def)
qed

lemma says_vanished_pci: "says [PciDisconnected (address (snd x))] (vanished_pci x)"
  unfolding vanished_pci_def case_prod_beta
  by (rule says_first [OF says_notify], rule says_mod) simp

text \<open>The entries of one table whose keys are not in another.\<close>

definition missing_from :: "(string \<times> 'd) list \<Rightarrow> (string \<times> 'd) list \<Rightarrow> (string \<times> 'd) list" where
  "missing_from other xs = filter (\<lambda>x. fst x \<notin> fst ` set other) xs"

definition forgotten_usb :: "(string \<times> usb_device) list \<Rightarrow> 'k manager \<Rightarrow> 'k manager \<Rightarrow> bool" where
  "forgotten_usb xs s t \<longleftrightarrow>
     (\<forall>n. usb_vms t n = (if \<exists>x\<in>set xs. device_node (snd x) = Some n then None else usb_vms s n)) \<and>
     (\<forall>key. crosvm_usb_ports (persistent t) key =
        (if key \<in> fst ` set xs then None else crosvm_usb_ports (persistent s) key)) \<and>
     selected_vms (persistent t) = selected_vms (persistent s) \<and>
     disconnected_devices (persistent t) = disconnected_devices (persistent s) \<and>
     pci_vms t = pci_vms s \<and> observed_usb t = observed_usb s \<and> observed_pci t = observed_pci s"

lemma vanished_usb_forgets:
  assumes "vanished_usb D x s = (Inr (), t)"
  shows "forgotten_usb [x] s t"
proof -
  let ?key = "fst x" and ?d = "snd x"
  obtain s1 s2 s3 where s1: "release_vanished D (crosvm_usb_ports (persistent s) ?key) s = (Inr (), s1)"
    and s2: "notify (UsbDisconnected (device_node ?d)) s1 = (Inr (), s2)"
    and s3: "save D (forget_vanished ?key ?d s2) = (Inr (), s3)"
    and t: "t = forget_pending (usb_persistent_id ?d) s3"
    using assms by (auto simp: vanished_usb_def case_prod_beta bindE_Inr_iff getE_def modE_def)
  have "same_memory s s2"
    using kernel_onlyD [OF kernel_only_release_vanished s1] kernel_onlyD [OF kernel_only_prims(4) s2]
    by (rule same_memory_trans)
  note f2 = same_memory_fields [OF this]
  note f3 = same_memory_fields [OF save_memory [OF s3]]
  show ?thesis
    by (auto simp: forgotten_usb_def t forget_pending_def f3 forget_vanished_def f2
        split: option.split)
qed

lemma forgotten_usb_trans:
  "forgotten_usb xs s t \<Longrightarrow> forgotten_usb ys t u \<Longrightarrow> forgotten_usb (xs @ ys) s u"
  by (simp add: forgotten_usb_def bex_Un image_Un)

lemma all_vanished_forget:
  "forE xs (vanished_usb D) s = (Inr (), t) \<Longrightarrow> forgotten_usb xs s t"
proof (induction xs arbitrary: s)
  case Nil
  then show ?case by (simp add: retE_def forgotten_usb_def)
next
  case (Cons x xs)
  then obtain s1 where "vanished_usb D x s = (Inr (), s1)" "forE xs (vanished_usb D) s1 = (Inr (), t)"
    by (auto simp: bindE_Inr_iff)
  then show ?case
    using forgotten_usb_trans [OF vanished_usb_forgets] Cons.IH by fastforce
qed

section \<open>Observing\<close>

definition forgotten_pci :: "(string \<times> pci_device) list \<Rightarrow> 'k manager \<Rightarrow> 'k manager \<Rightarrow> bool" where
  "forgotten_pci xs s t \<longleftrightarrow>
     (\<forall>a. pci_vms t a = (if a \<in> fst ` set xs then None else pci_vms s a)) \<and>
     usb_vms t = usb_vms s \<and> persistent t = persistent s \<and> observed_usb t = observed_usb s"

lemma all_vanished_pci_forget:
  "forE xs vanished_pci s = (Inr (), t) \<Longrightarrow> forgotten_pci xs s t"
proof (induction xs arbitrary: s)
  case Nil
  then show ?case by (simp add: retE_def forgotten_pci_def)
next
  case (Cons x xs)
  then obtain s1 where v: "vanished_pci x s = (Inr (), s1)" and "forE xs vanished_pci s1 = (Inr (), t)"
    by (auto simp: bindE_Inr_iff)
  then have "forgotten_pci xs s1 t" using Cons.IH by simp
  moreover have "forgotten_pci [x] s s1"
    using v by (auto simp: vanished_pci_def case_prod_beta bindE_apply host_defs issue_apply op_simps
        forgotten_pci_def)
  ultimately show ?case by (auto simp: forgotten_pci_def)
qed

lemma says_arrivals:
  "says (map (\<lambda>x. f (snd x)) xs) (forE xs (\<lambda>(key, d). notify (f d)))"
  by (rule says_forE) (simp add: case_prod_beta says_notify)

lemma observe_usb_reports:
  assumes "observe_usb D now s = (Inr (), t)"
  shows "notices (history t) = notices (history s)
       @ map (\<lambda>x. UsbConnected (snd x)) (missing_from (observed_usb s) now)
       @ map (\<lambda>x. UsbDisconnected (device_node (snd x))) (missing_from now (observed_usb s)) \<and>
     forgotten_usb (missing_from now (observed_usb s)) s (t\<lparr>observed_usb := observed_usb s\<rparr>) \<and>
     observed_usb t = now"
proof -
  let ?new = "missing_from (observed_usb s) now" and ?old = "missing_from now (observed_usb s)"
  have filters: "filter (\<lambda>(key, d). key \<notin> fst ` set other) xs = missing_from other xs"
    for other xs :: "(string \<times> usb_device) list"
    by (simp add: missing_from_def split_def)
  obtain h where h: "forE ?new (\<lambda>(key, d). notify (UsbConnected d)) s = (Inr (), s\<lparr>history := h\<rparr>)"
    using forE_notify by blast
  then obtain s2 where s2: "forE ?old (vanished_usb D) (s\<lparr>history := h\<rparr>) = (Inr (), s2)"
    and t: "t = s2\<lparr>observed_usb := now\<rparr>"
    using assms by (auto simp: observe_usb_def filters bindE_Inr_iff getE_def modE_def)
  have "forgotten_usb ?old s s2"
    using all_vanished_forget [OF s2] by (simp add: forgotten_usb_def)
  moreover have "notices (history s2) = notices (history s)
       @ map (\<lambda>x. UsbConnected (snd x)) ?new @ map (\<lambda>x. UsbDisconnected (device_node (snd x))) ?old"
    using saysD [OF says_arrivals h] saysD [OF says_forE [OF says_vanished_usb] s2] by simp
  ultimately show ?thesis by (simp add: t forgotten_usb_def)
qed

lemma observe_pci_reports:
  assumes "observe_pci now s = (Inr (), t)"
  shows "notices (history t) = notices (history s)
       @ map (\<lambda>x. PciConnected (snd x)) (missing_from (observed_pci s) now)
       @ map (\<lambda>x. PciDisconnected (address (snd x))) (missing_from now (observed_pci s)) \<and>
     forgotten_pci (missing_from now (observed_pci s)) s t \<and> observed_pci t = now"
proof -
  let ?new = "missing_from (observed_pci s) now" and ?old = "missing_from now (observed_pci s)"
  have filters: "filter (\<lambda>(key, d). key \<notin> fst ` set other) xs = missing_from other xs"
    for other xs :: "(string \<times> pci_device) list"
    by (simp add: missing_from_def split_def)
  obtain h where h: "forE ?new (\<lambda>(key, d). notify (PciConnected d)) s = (Inr (), s\<lparr>history := h\<rparr>)"
    using forE_notify by blast
  then obtain s2 where s2: "forE ?old vanished_pci (s\<lparr>history := h\<rparr>) = (Inr (), s2)"
    and t: "t = s2\<lparr>observed_pci := now\<rparr>"
    using assms by (auto simp: observe_pci_def filters bindE_Inr_iff getE_def modE_def)
  have "forgotten_pci ?old s s2"
    using all_vanished_pci_forget [OF s2] by (simp add: forgotten_pci_def)
  moreover have "notices (history s2) = notices (history s)
       @ map (\<lambda>x. PciConnected (snd x)) ?new @ map (\<lambda>x. PciDisconnected (address (snd x))) ?old"
    using saysD [OF says_arrivals h] saysD [OF says_forE [OF says_vanished_pci] s2] by simp
  ultimately show ?thesis by (simp add: t forgotten_pci_def)
qed

text \<open>C34: subscribers hear of every arrival and every departure, once. When observing succeeds it has
  broadcast exactly, in this order, the routed USB devices present now and not in the table, those
  in the table and not present, and the same for PCI; the tables then hold what is present. Who
  holds the node, and the recorded port, are forgotten for exactly the USB devices that left, who
  holds the address for exactly the PCI functions that left, and the disconnected marks and the
  remembered choices stay.\<close>

theorem observe_reports_changes:
  assumes "observe D s = (Inr (), t)"
  shows "\<exists>usb pci. usb_devices D (kern s) = Inr usb \<and> pci_devices D (kern s) = Inr pci \<and>
    observed_usb t = keyed_usb usb \<and> observed_pci t = keyed_pci pci \<and>
    notices (history t) = notices (history s)
      @ map (\<lambda>x. UsbConnected (snd x)) (missing_from (observed_usb s) (keyed_usb usb))
      @ map (\<lambda>x. UsbDisconnected (device_node (snd x))) (missing_from (keyed_usb usb) (observed_usb s))
      @ map (\<lambda>x. PciConnected (snd x)) (missing_from (observed_pci s) (keyed_pci pci))
      @ map (\<lambda>x. PciDisconnected (address (snd x))) (missing_from (keyed_pci pci) (observed_pci s)) \<and>
    (\<forall>n. usb_vms t n =
       (if \<exists>x\<in>set (missing_from (keyed_usb usb) (observed_usb s)). device_node (snd x) = Some n
        then None else usb_vms s n)) \<and>
    (\<forall>key. crosvm_usb_ports (persistent t) key =
       (if key \<in> fst ` set (missing_from (keyed_usb usb) (observed_usb s)) then None
        else crosvm_usb_ports (persistent s) key)) \<and>
    (\<forall>a. pci_vms t a =
       (if a \<in> fst ` set (missing_from (keyed_pci pci) (observed_pci s)) then None else pci_vms s a)) \<and>
    selected_vms (persistent t) = selected_vms (persistent s) \<and>
    disconnected_devices (persistent t) = disconnected_devices (persistent s)"
proof -
  obtain usb pci s1 where scans: "usb_devices D (kern s) = Inr usb" "pci_devices D (kern s) = Inr pci"
    and u: "observe_usb D (keyed_usb usb) s = (Inr (), s1)"
    and p: "observe_pci (keyed_pci pci) s1 = (Inr (), t)"
    using assms by (auto simp: observe_def bindE_Inr_iff look_result_def)
  note u = observe_usb_reports [OF u] and p = observe_pci_reports [OF p]
  have "observed_pci s1 = observed_pci s" "pci_vms s1 = pci_vms s"
    using u by (simp_all add: forgotten_usb_def)
  then show ?thesis
    using scans u p by (auto simp: forgotten_usb_def forgotten_pci_def)
qed

text \<open>The plugged keyboard is new; one that was on another port, and held by the graphics VM, left.\<close>

definition replugged :: "disk manager" where
  "replugged =
     (plugged_manager full_config [])
       \<lparr>observed_usb := [(''1-9'', keyboard\<lparr>sys_name := ''1-9''\<rparr>)],
        usb_vms := (\<lambda>n. if n = ''n'' then Some ''gui'' else None)\<rparr>"

lemma observe_reports_changes_witness:
  "usb_vms (snd (observe (sample_dm full_config) replugged)) ''n'' = None \<and>
   UsbDisconnected (Some ''n'') \<in>
     set (notices (history (snd (observe (sample_dm full_config) replugged))))"
proof -
  let ?D = "sample_dm full_config" and ?x = "observe (sample_dm full_config) replugged"
  have "is_ok (fst ?x)" by code_simp
  then have ok: "?x = (Inr (), snd ?x)" using is_okD [of ?x] by simp
  from observe_reports_changes [OF ok] obtain usb where usb: "usb_devices ?D (kern replugged) = Inr usb"
    and said: "\<And>n. n \<in> set (map (\<lambda>x. UsbDisconnected (device_node (snd x)))
        (missing_from (keyed_usb usb) (observed_usb replugged))) \<Longrightarrow> n \<in> set (notices (history (snd ?x)))"
    and freed: "\<And>n. \<exists>x\<in>set (missing_from (keyed_usb usb) (observed_usb replugged)).
        device_node (snd x) = Some n \<Longrightarrow> usb_vms (snd ?x) n = None"
    by auto
  have "is_ok (usb_devices ?D (kern replugged))"
    and "map fst (keyed_usb (ok_value (usb_devices ?D (kern replugged)))) = [''1-2'']"
    by code_simp+
  then have "fst ` set (keyed_usb usb) = {''1-2''}"
    using usb by (metis is_ok_value list.set_map list.simps(15) empty_set sum.inject(2))
  then have "missing_from (keyed_usb usb) (observed_usb replugged) =
      [(''1-9'', keyboard\<lparr>sys_name := ''1-9''\<rparr>)]"
    by (simp add: missing_from_def replugged_def)
  then show ?thesis
    using said [of "UsbDisconnected (Some ''n'')"] freed [of "''n''"] by (simp add: keyboard_def)
qed

end
