(* ===== verification/Durability.thy ===== *)
theory Durability
  imports System
begin

text \<open>
  What the state file holds, as the effects in the history leave it, and two contracts of the
  operations over it: that the file is whole at every moment, and that an operation which
  reports success leaves nothing of the persistent state unsaved.
\<close>

section \<open>Replaying the history\<close>

text \<open>
  The contents of files after an effect that succeeded: what \<open>write\<close>, \<open>open\<close> with truncation,
  \<open>write_all\<close>, \<open>rename\<close> and \<open>remove_file\<close> do to a path.
\<close>

type_synonym contents = "path \<Rightarrow> string option"

fun replay_effect :: "effect \<Rightarrow> contents \<Rightarrow> contents" where
  "replay_effect (Write p v) fs = fs(p := Some v)"
| "replay_effect (OpenTruncate p m) fs = fs(p := Some [])"
| "replay_effect (WriteAll p v) fs = fs(p := Some ((case fs p of None \<Rightarrow> [] | Some t \<Rightarrow> t) @ v))"
| "replay_effect (Rename p q) fs =
     (if fs p = None then fs else (fs(p := None))(q := fs p))"
| "replay_effect (RemoveFile p) fs = fs(p := None)"
| "replay_effect _ fs = fs"

text \<open>An effect that failed in the kernel state it was issued in changes nothing.\<close>

definition replay_one :: "'k dm \<Rightarrow> effect \<times> 'k \<Rightarrow> contents \<Rightarrow> contents" where
  "replay_one D x fs =
     (if is_ok (fst (perform D (fst x) (snd x))) then replay_effect (fst x) fs else fs)"

definition state_file :: "'k dm \<Rightarrow> contents \<Rightarrow> (effect \<times> 'k) list \<Rightarrow> string option" where
  "state_file D fs h = fold (replay_one D) h fs (state_path (cfg D))"

definition tmp_path :: "'k dm \<Rightarrow> path" where
  "tmp_path D =
     (case path_parent (state_path (cfg D)) of None \<Rightarrow> [] | Some d \<Rightarrow> d)
       @ [temporary_name (state_path (cfg D))]"

text \<open>The state file is not one of the attributes the manager writes.\<close>

definition apart :: "'k dm \<Rightarrow> effect \<Rightarrow> bool" where
  "apart D e \<longleftrightarrow> (\<forall>p v. e = Write p v \<longrightarrow> p \<noteq> state_path (cfg D) \<and> p \<noteq> tmp_path D)"

definition separate :: "'k dm \<Rightarrow> bool" where
  "separate D \<longleftrightarrow>
     (\<forall>p\<in>{state_path (cfg D), tmp_path D}.
        p \<noteq> usbcore_authorized_default \<and>
        (\<forall>r\<in>{usb_root D, pci_root D}. \<not> prefix r p \<and>
           (\<forall>b. path_parent r = Some b \<longrightarrow> \<not> prefix b p)))"

lemma sanctioned_apart:
  assumes "separate D" and "sanctioned D e"
  shows "apart D e"
proof -
  have "p \<noteq> q" if w: "e = Write p v" and q: "q \<in> {state_path (cfg D), tmp_path D}" for p v q
  proof -
    note s = assms(1) [unfolded separate_def, rule_format, OF q]
    have u: "\<not> prefix (usb_root D) q" "\<not> prefix (pci_root D) q" "q \<noteq> usbcore_authorized_default"
      "\<And>b. path_parent (usb_root D) = Some b \<Longrightarrow> \<not> prefix b q"
      "\<And>b. path_parent (pci_root D) = Some b \<Longrightarrow> \<not> prefix b q"
      using s by auto
    show ?thesis
      using assms(2) u unfolding w
      by (auto simp: sanctioned_def bookkeeping_def gate_effect_def acpi_effect_def pci_effect_def
          permitted_attach_def attach_effect_def auth_path_def request_def bind_effect_def
          unbind_path_def)
  qed
  then show ?thesis by (auto simp: apart_def)
qed

text \<open>Effects that cannot touch the state file, wherever it is.\<close>

fun plain :: "effect \<Rightarrow> bool" where
  "plain (OpenTruncate p m) \<longleftrightarrow> False"
| "plain (WriteAll p v) \<longleftrightarrow> False"
| "plain (Rename p q) \<longleftrightarrow> False"
| "plain (RemoveFile p) \<longleftrightarrow> False"
| "plain _ \<longleftrightarrow> True"

lemma replay_other:
  assumes "plain (fst x) \<and> apart D (fst x) \<or> fst x = OpenTruncate (tmp_path D) m \<or>
      (\<exists>v. fst x = WriteAll (tmp_path D) v)"
    and "tmp_path D \<noteq> state_path (cfg D)"
  shows "replay_one D x fs (state_path (cfg D)) = fs (state_path (cfg D))"
  using assms by (cases "fst x") (auto simp: replay_one_def apart_def)

lemma state_file_append:
  "state_file D fs (h @ h') = fold (replay_one D) h' (fold (replay_one D) h fs) (state_path (cfg D))"
  by (simp add: state_file_def)

lemma state_file_plain:
  assumes "list_all (\<lambda>x. plain (fst x)) new" and "\<forall>x\<in>set new. apart D (fst x)"
  shows "state_file D fs (h @ new) = state_file D fs h"
proof -
  have "replay_one D x gs (state_path (cfg D)) = gs (state_path (cfg D))"
    if "x \<in> set new" for x gs
    using that assms by (cases "fst x") (auto simp: list_all_iff replay_one_def apart_def)
  then have "fold (replay_one D) new gs (state_path (cfg D)) = gs (state_path (cfg D))" for gs
    by (induction new arbitrary: gs) simp_all
  then show ?thesis by (simp add: state_file_def)
qed

section \<open>Saving\<close>

lemma tmp_differs: "path_parent (state_path (cfg D)) = Some dir \<Longrightarrow> tmp_path D \<noteq> state_path (cfg D)"
  using temporary_differs [of dir "state_path (cfg D)"] by (simp add: tmp_path_def)

text \<open>Effects of a save that come before the rename: none of them touches the state file.\<close>

definition preparing :: "'k dm \<Rightarrow> effect \<Rightarrow> bool" where
  "preparing D e \<longleftrightarrow>
     (\<exists>p. e = CreateDirAll p) \<or> (\<exists>p. e = SyncAll p) \<or>
     (\<exists>m. e = OpenTruncate (tmp_path D) m) \<or> (\<exists>v. e = WriteAll (tmp_path D) v)"

lemma replay_preparing:
  assumes "\<forall>x\<in>set new. preparing D (fst x)" and "tmp_path D \<noteq> state_path (cfg D)"
  shows "state_file D fs (h @ new) = state_file D fs h"
proof -
  have "replay_one D x gs (state_path (cfg D)) = gs (state_path (cfg D))"
    if "x \<in> set new" for x gs
    using that assms by (cases "fst x") (auto simp: preparing_def replay_one_def)
  then have "fold (replay_one D) new gs (state_path (cfg D)) = gs (state_path (cfg D))" for gs
    by (induction new arbitrary: gs) simp_all
  then show ?thesis by (simp add: state_file_def)
qed

text \<open>How a save ends: somewhere before the rename, or with the rename.\<close>

lemma save_ends:
  assumes "persistency (cfg D)" and "save D s = (r, t)"
  shows "(\<exists>new. history t = history s @ new \<and> (\<forall>x\<in>set new. preparing D (fst x)) \<and>
       r \<noteq> Inr ()) \<or>
     (\<exists>new k body dir. history t = history s @ new @ [(Rename (tmp_path D) (state_path (cfg D)), k)] \<and>
       (\<forall>x\<in>set new. preparing D (fst x)) \<and> path_parent (state_path (cfg D)) = Some dir \<and>
       encode_state D (persistent s) = Inr body \<and>
       r = fst (perform D (Rename (tmp_path D) (state_path (cfg D))) k) \<and>
       (\<forall>fs. fold (replay_one D) new fs (tmp_path D) = Some (body @ [newline])))"
proof (cases "path_parent (state_path (cfg D))")
  case None
  then show ?thesis using assms by (auto simp: save_def op_simps)
next
  case (Some dir)
  then have tmp: "dir @ [temporary_name (state_path (cfg D))] = tmp_path D" by (simp add: tmp_path_def)
  show ?thesis
  proof (cases "encode_state D (persistent s)")
    case (Inl e)
    then show ?thesis
      using assms Some
      by (auto simp: save_def Let_def tmp op_simps host_defs preparing_def split: prod.splits sum.splits)
  next
    case (Inr body)
    show ?thesis
      using assms(2) unfolding save_def Let_def
      by (auto simp: Some Inr assms(1) tmp op_simps host_defs preparing_def replay_one_def
          split: prod.splits sum.splits)
  qed
qed

section \<open>The file is whole at every moment\<close>

text \<open>What a reader may find: what was there before, or a complete encoding of some state.\<close>

definition whole :: "'k dm \<Rightarrow> contents \<Rightarrow> string option \<Rightarrow> bool" where
  "whole D fs c \<longleftrightarrow>
     c = fs (state_path (cfg D)) \<or>
     (\<exists>st body. encode_state D st = Inr body \<and> c = Some (body @ [newline]))"

definition intact :: "'k dm \<Rightarrow> contents \<Rightarrow> 'k manager \<Rightarrow> bool" where
  "intact D fs s \<longleftrightarrow>
     ((\<forall>x\<in>set (history s). apart D (fst x)) \<longrightarrow>
      (\<forall>h. prefix h (history s) \<longrightarrow> whole D fs (state_file D fs h)))"

text \<open>Operations that neither change what is to be saved nor can touch the state file.\<close>

definition calm :: "('k, 'a) manager_op \<Rightarrow> bool" where
  "calm f \<longleftrightarrow>
     (\<forall>s. persistent (snd (f s)) = persistent s \<and> deferred (snd (f s)) = deferred s) \<and>
     emits (\<lambda>x. plain (fst x)) f"

named_theorems calm_intro "operations that leave what is to be saved, and the state file, alone"

lemma calm_kernel: "kernel_only f \<Longrightarrow> emits (\<lambda>x. plain (fst x)) f \<Longrightarrow> calm f"
  unfolding calm_def kernel_only_def using same_memory_fields by blast

lemma calm_mod [calm_intro]:
  "(\<And>s. persistent (h s) = persistent s \<and> deferred (h s) = deferred s \<and> history (h s) = history s) \<Longrightarrow>
     calm (modE h)"
  by (auto simp: calm_def modE_def emits_def)

lemma calm_bind [calm_intro]: "calm f \<Longrightarrow> (\<And>x. calm (g x)) \<Longrightarrow> calm (bindE f g)"
  unfolding calm_def
  by (intro conjI emits_bind) (auto simp: bindE_def case_prod_beta split: sum.split)

lemma calm_wrap [calm_intro]:
  "calm f \<Longrightarrow> calm (tryE f)" "calm f \<Longrightarrow> calm (ctxE m f)" "calm f \<Longrightarrow> calm (ignoreE f)"
  unfolding calm_def by (intro conjI emits_wrap; simp add: op_simps)+

lemma calm_cases [calm_intro]:
  "(b \<Longrightarrow> calm f) \<Longrightarrow> (\<not> b \<Longrightarrow> calm f') \<Longrightarrow> calm (if b then f else f')"
  "(y = None \<Longrightarrow> calm f) \<Longrightarrow> (\<And>a. y = Some a \<Longrightarrow> calm (g a)) \<Longrightarrow>
     calm (case y of None \<Rightarrow> f | Some a \<Rightarrow> g a)"
  "(\<And>e. z = Inl e \<Longrightarrow> calm (f1 e)) \<Longrightarrow> (\<And>a. z = Inr a \<Longrightarrow> calm (g1 a)) \<Longrightarrow>
     calm (case z of Inl e \<Rightarrow> f1 e | Inr a \<Rightarrow> g1 a)"
  "(\<And>a c. w = (a, c) \<Longrightarrow> calm (g2 a c)) \<Longrightarrow> calm (case w of (a, c) \<Rightarrow> g2 a c)"
  by (auto split: option.split sum.split prod.split)

lemma calm_forE [calm_intro]: "(\<And>d. d \<in> set ds \<Longrightarrow> calm (f d)) \<Longrightarrow> calm (forE ds f)"
proof (induction ds)
  case Nil
  then show ?case by (simp add: calm_def retE_def emits_basic(1) [unfolded retE_def])
qed (auto intro: calm_intro)

lemma calm_bind_vfio [calm_intro]: "calm (bind_vfio D a root)"
  by (rule calm_kernel, rule kernel_only_bind_vfio) (unfold bind_vfio_def, intro emits_intro, simp_all)

lemma calm_reads [calm_intro]:
  "calm (retE x)" "calm (failE e)" "calm (liftE r)" "calm (getE g)" "calm (look h)"
  "calm (look_result h')" "calm (notify n)" "calm (usb_list D B so)" "calm (usb_detach D B so p)"
  "calm (vfio_list D B so)" "calm (vfio_remove D B so a)" "calm (authorize D devs m v)" "calm (probe D b m)" "calm (release D devs m)"
  by (rule calm_kernel; intro kernel_only_intro emits_intro; simp add: request_def)+

lemma calm_detach [calm_intro]:
  "calm (detach_from_vm D d node name binding)" "calm (deauthorize_detached D d)"
  "calm (drop_guard D d armed)" "calm (usb_authorization_guard D d)" "calm (query_vm D v)"
  unfolding detach_from_vm_def detach_by_binding_def detach_by_identity_def deauthorize_detached_def
    drop_guard_def usb_authorization_guard_def query_vm_def Let_def
  by (rule calm_kernel; intro kernel_only_intro emits_intro; simp add: request_def)+

lemma calm_release_interfaces [calm_intro]: "calm (release_interfaces D d is)"
proof -
  have "calm (report_hub i)" for i
    unfolding report_hub_def by (rule calm_mod) simp
  then show ?thesis by (induction "is") (auto intro!: calm_intro)
qed

lemma calm_claim [calm_intro]:
  "calm (claim_usb D d node v preflight moved)" "calm (preflight_vm D d v)"
proof -
  have "calm (usb_attach D (crosvm D) so node)" for so
    by (rule calm_kernel; intro kernel_only_intro emits_intro; simp add: request_def)
  then show "calm (claim_usb D d node v preflight moved)" "calm (preflight_vm D d v)"
    unfolding claim_usb_def configure_device_def obtain_port_def preflight_vm_def Let_def
    by (intro calm_intro; assumption)+
qed

lemma calm_ask [calm_intro]: "calm (ask_selection d r)"
  unfolding ask_selection_def by (intro calm_intro) simp

lemma intact_extend:
  assumes "intact D fs s" and "history t = history s @ new"
    and "\<And>pre. prefix pre new \<Longrightarrow> \<forall>x\<in>set new. apart D (fst x) \<Longrightarrow>
      state_file D fs (history s @ pre) = state_file D fs (history s) \<or>
      whole D fs (state_file D fs (history s @ pre))"
  shows "intact D fs t"
proof -
  have "whole D fs (state_file D fs h)"
    if a: "\<forall>x\<in>set (history s @ new). apart D (fst x)" and h: "prefix h (history s @ new)" for h
  proof -
    have all: "\<forall>h. prefix h (history s) \<longrightarrow> whole D fs (state_file D fs h)"
      using assms(1) a by (simp add: intact_def)
    from h consider "prefix h (history s)" | pre where "prefix pre new" "h = history s @ pre"
      by (auto simp: prefix_append)
    then show ?thesis
      using all assms(3) a by cases (auto, metis prefix_order.refl)
  qed
  then show ?thesis using assms(2) by (simp add: intact_def)
qed

lemma intact_calm: "calm f \<Longrightarrow> keeps (intact D fs) f"
  unfolding keeps_def
proof (intro allI impI)
  fix s assume c: "calm f" and i: "intact D fs s"
  obtain r t where ft: "f s = (r, t)" by force
  have e: "emits (\<lambda>x. plain (fst x)) f" using c by (simp add: calm_def)
  obtain new where new: "history t = history s @ new" "list_all (\<lambda>x. plain (fst x)) new"
    using emitsD [OF e ft] by blast
  have "state_file D fs (history s @ pre) = state_file D fs (history s)"
    if "prefix pre new" and "\<forall>x\<in>set new. apart D (fst x)" for pre
    using that new(2) set_mono_prefix [OF that(1)]
    by (intro state_file_plain) (auto simp: list_all_iff)
  then show "intact D fs (snd (f s))" using intact_extend [OF i new(1)] ft by simp
qed

lemma intact_same_history [keeps_intro]:
  "(\<And>s. history (h s) = history s) \<Longrightarrow> keeps (intact D fs) (modE h)"
  by (rule keeps_mod) (simp add: intact_def)

lemma state_file_renamed:
  assumes "\<forall>fs. fold (replay_one D) new fs (tmp_path D) = Some c"
    and "\<forall>x\<in>set new. preparing D (fst x)" and "tmp_path D \<noteq> state_path (cfg D)"
  shows "state_file D fs (h @ new @ [(Rename (tmp_path D) (state_path (cfg D)), k)]) =
     (if is_ok (fst (perform D (Rename (tmp_path D) (state_path (cfg D))) k)) then Some c
      else state_file D fs h)"
  using assms(1) assms(3) replay_preparing [OF assms(2,3), of fs h]
  by (simp add: state_file_def replay_one_def)

lemma intact_save:
  fixes D :: "'k dm"
  shows "keeps (intact D fs) (save D)"
  unfolding keeps_def
proof (intro allI impI)
  fix s assume i: "intact D fs s"
  obtain r t where st: "save D s = (r, t)" by force
  show "intact D fs (snd (save D s))"
  proof (cases "persistency (cfg D)")
    case False
    then show ?thesis using i by (simp add: save_def op_simps)
  next
    case True
    from save_ends [OF True st] show ?thesis
    proof (elim disjE exE conjE)
      fix new
      assume new: "history t = history s @ new" "\<forall>x\<in>set new. preparing D (fst x)" and "r \<noteq> Inr ()"
      show ?thesis
      proof (cases "path_parent (state_path (cfg D))")
        case None
        then show ?thesis using i by (simp add: save_def True op_simps)
      next
        case (Some dir)
        have "state_file D fs (history s @ pre) = state_file D fs (history s)" if "prefix pre new" for pre
          using new(2) set_mono_prefix [OF that] by (intro replay_preparing tmp_differs [OF Some]) auto
        then show ?thesis using intact_extend [OF i new(1)] st by simp
      qed
    next
      fix new :: "(effect \<times> 'k) list" and k :: 'k and body dir
      let ?last = "(Rename (tmp_path D) (state_path (cfg D)), k)"
      assume h: "history t = history s @ new @ [?last]" and p: "\<forall>x\<in>set new. preparing D (fst x)"
        and dir: "path_parent (state_path (cfg D)) = Some dir"
        and enc: "encode_state D (persistent s) = Inr body"
        and c: "\<forall>fs. fold (replay_one D) new fs (tmp_path D) = Some (body @ [newline])"
      have "state_file D fs (history s @ pre) = state_file D fs (history s) \<or>
          whole D fs (state_file D fs (history s @ pre))" if "prefix pre (new @ [?last])" for pre
      proof (cases "pre = new @ [?last]")
        case True
        then show ?thesis
          using state_file_renamed [OF c p tmp_differs [OF dir], of fs "history s" k] enc
          by (auto simp: whole_def)
      next
        case False
        then have "prefix pre new" using that by simp
        then show ?thesis
          using p set_mono_prefix by (intro disjI1 replay_preparing tmp_differs [OF dir]) blast+
      qed
      then show ?thesis using intact_extend [OF i h] st by simp
    qed
  qed
qed

lemma intact_marks [keeps_intro]:
  "keeps (intact D fs) (set_disconnected D i v)" "keeps (intact D fs) (select_vm D i v')"
  unfolding set_disconnected_def select_vm_def by (intro keeps_intro intact_save; simp)+

lemma intact_detach_one_usb [keeps_intro]: "keeps (intact D fs) (detach_one_usb D d permanent)"
  unfolding detach_one_usb_def
  by (intro keeps_intro intact_save)
    (auto simp: forget_attachment_def forget_pending_def intro: intact_calm calm_intro)

lemma intact_record_attachment [keeps_intro]:
  "keeps (intact D fs) (record_attachment D d node v c)"
  unfolding record_attachment_def
  by (intro keeps_intro intact_save)
    (auto simp: record_port_def forget_pending_def intro: intact_calm calm_intro)

lemma intact_attach_one_usb [keeps_intro]: "keeps (intact D fs) (attach_one_usb D d r requested)"
  unfolding attach_one_usb_def attach_to_vm_def under_guard_def
  by (intro keeps_intro) (auto intro: intact_calm calm_intro)

lemma intact_pci [keeps_intro]:
  "keeps (intact D fs) (attach_one_pci D d r requested)"
  "keeps (intact D fs) (detach_one_pci D d r permanent)"
proof -
  have "calm (add_missing D so live a)" for so live a
    by (rule calm_kernel, rule kernel_only_add_missing)
      (unfold add_missing_def, intro emits_intro, simp_all add: request_def)
  then show "keeps (intact D fs) (attach_one_pci D d r requested)"
    "keeps (intact D fs) (detach_one_pci D d r permanent)"
    unfolding attach_one_pci_def attach_pci_to_def detach_one_pci_def detach_pci_from_def Let_def
    by (intro keeps_intro; auto simp: record_pci_def forget_pci_def intro: intact_calm calm_intro)+
qed

lemma intact_loops [keeps_intro]:
  "keeps (intact D fs) (attach_usb D sel v)" "keeps (intact D fs) (detach_usb D sel permanent)"
  "keeps (intact D fs) (suspend_usb D v)" "keeps (intact D fs) (resume_usb D v)"
  "keeps (intact D fs) (attach_pci D sel v)" "keeps (intact D fs) (detach_pci D sel permanent)"
  "keeps (intact D fs) (suspend_pci D v)" "keeps (intact D fs) (resume_pci D v)"
  unfolding attach_usb_def detach_usb_def suspend_usb_def suspend_one_usb_def resume_usb_def
    resume_one_usb_def attach_pci_def detach_pci_def suspend_pci_def suspend_one_pci_def
    resume_pci_def resume_one_pci_def defer_if_stopped_def Let_def
  by (intro keeps_intro; auto intro: intact_calm calm_intro)+

lemma calm_gate [calm_intro]:
  "calm (close_usb_gate D)" "calm (open_usb_gate D)" "calm (enable_usb_authorization D)"
  "calm (authorize_usb_for_host D)" "calm (deauthorize_unmatched_usb D)"
  "calm (configure_authorized D b m)" "calm (settle_device D b routed m)" "calm (close_gate D b)"
  unfolding close_usb_gate_def open_usb_gate_def hand_back_one_def enable_usb_authorization_def
    authorize_usb_for_host_def authorize_one_for_host_def deauthorize_unmatched_usb_def
    deauthorize_one_unmatched_def configure_authorized_def settle_device_def settle_interface_def
    probe_if_driverless_def
  by (rule calm_kernel; intro kernel_only_intro emits_intro; simp)+

lemma calm_apply_usb_gate [calm_intro]: "calm (apply_usb_gate D)"
  unfolding apply_usb_gate_def usb_routing_def by (intro calm_intro) simp_all

lemma calm_release_vanished [calm_intro]: "calm (release_vanished D binding)"
  unfolding release_vanished_def by (intro calm_intro)

interpretation intact_pass: stagewise D "intact D fs" for D :: "'k dm" and fs
proof
  show "keeps (intact D fs) (announce D)" "keeps (intact D fs) (release_gone D x)" for x
    unfolding announce_def release_gone_def
    by (intro keeps_intro; auto intro: intact_calm calm_intro)+
  show "keeps (intact D fs) (forget_gone D x)" for x
    unfolding forget_gone_def
    by (intro keeps_intro intact_save)
      (auto simp: forget_vanished_def forget_pending_def intro: intact_calm calm_intro)
  show "keeps (intact D fs) (bindE (modE (\<lambda>s. s\<lparr>observed_usb := usb\<rparr>)) (\<lambda>_. observe_pci pci))"
    for usb pci
    unfolding observe_pci_def vanished_pci_def
    by (intro keeps_intro) (auto intro: intact_calm calm_intro)
  show "keeps (intact D fs) (deauthorize_unmatched_usb D)"
    by (rule intact_calm) (rule calm_gate)
qed (intro keeps_intro; auto intro: intact_calm calm_intro)+

lemma calm_vmm_args [calm_intro]: "calm (vmm_args D name require_pci)"
proof (rule calm_kernel [OF kernel_only_vmm_args])
  have pci: "emits (\<lambda>x. plain (fst x)) (vfio_args D bound emitted ds)" for bound emitted ds
    by (induction D bound emitted ds rule: vfio_args.induct)
      (auto simp: Let_def bind_vfio_def intro!: emits_intro)
  have acpi: "emits (\<lambda>x. plain (fst x)) (acpi_allow_args D as)" for as
    by (induction as) (auto simp: chown_named_def intro!: emits_intro)
  show "emits (\<lambda>x. plain (fst x)) (vmm_args D name require_pci)"
    unfolding vmm_args_def acpi_args_def Let_def by (intro emits_intro pci acpi)
qed

lemma intact_handle_inner: "keeps (intact D fs) (handle_inner D a)"
proof (cases a)
  case (UsbList w t)
  then show ?thesis by (simp add: keeps_def)
next
  case (PciList w t)
  then show ?thesis by (simp add: keeps_def)
qed (auto simp: empty_reply_def intro!: keeps_bind keeps_basic keeps_intro intro: intact_calm calm_intro)

interpretation file_runs: machine_invariant "starts D" "step D" "intact D fs"
  for D :: "'k dm" and fs
proof
  fix s :: "'k manager"
  assume "starts D s"
  then have "history s = []"
    by (cases "validate (cfg D)") (auto simp: starts_def with_roots_def initial_manager_def)
  then show "intact D fs s" by (simp add: intact_def whole_def state_file_def)
next
  fix s t :: "'k manager"
  assume "step D s t" and "intact D fs s"
  then show "intact D fs t"
  proof (induction rule: step.induct)
    case (request a s r s')
    then show ?case using keepsD2 [OF intact_handle_inner] handle_inner_state by metis
  next
    case (stage q s q' s')
    then show ?case using intact_pass.advance_keeps [where s = s and q = q] by (metis snd_conv)
  next
    case (close s r s')
    then show ?case using keepsD2 [OF intact_calm [OF calm_gate(1)]] by metis
  next
    case (enable s r s')
    then show ?case using keepsD2 [OF intact_calm [OF calm_gate(3)]] by metis
  next
    case (reopen s r s')
    then show ?case using keepsD2 [OF intact_calm [OF calm_gate(2)]] by metis
  qed (simp_all add: intact_def)
qed

lemma reachable_intact: "reachable D s \<Longrightarrow> intact D fs s"
  unfolding reachable_def by (rule file_runs.always)

lemma reachable_apart:
  "reachable D s \<Longrightarrow> separate D \<Longrightarrow> \<forall>x\<in>set (history s). apart D (fst x)"
  using reachable_sanctioned sanctioned_apart by blast

section \<open>Nothing acknowledged is unsaved\<close>

text \<open>The state file holds the persistent state the manager has in memory.\<close>

definition synced :: "'k dm \<Rightarrow> contents \<Rightarrow> 'k manager \<Rightarrow> bool" where
  "synced D fs s \<longleftrightarrow>
     (\<exists>body. encode_state D (persistent s) = Inr body \<and>
        state_file D fs (history s) = Some (body @ [newline]))"

definition all_apart :: "'k dm \<Rightarrow> 'k manager \<Rightarrow> bool" where
  "all_apart D s \<longleftrightarrow> (\<forall>x\<in>set (history s). apart D (fst x))"

text \<open>
  What an operation begun in \<open>s0\<close> has established: \<open>begun\<close> nothing but that a deferral is not
  taken back, \<open>firm\<close> that the file holds the state, \<open>acked\<close> that the file does, or that there
  was nothing to save, or that an attach was deferred.
\<close>

definition begun :: "'k manager \<Rightarrow> 'k manager \<Rightarrow> bool" where
  "begun s0 s \<longleftrightarrow> (deferred s0 \<longrightarrow> deferred s)"

definition firm :: "'k dm \<Rightarrow> contents \<Rightarrow> 'k manager \<Rightarrow> 'k manager \<Rightarrow> bool" where
  "firm D fs s0 s \<longleftrightarrow> begun s0 s \<and> (all_apart D s \<longrightarrow> synced D fs s)"

definition acked :: "'k dm \<Rightarrow> contents \<Rightarrow> 'k manager \<Rightarrow> 'k manager \<Rightarrow> bool" where
  "acked D fs s0 s \<longleftrightarrow>
     begun s0 s \<and>
     (all_apart D s \<longrightarrow> deferred s \<or> synced D fs s \<or>
        persistent s = persistent s0 \<and>
        state_file D fs (history s) = state_file D fs (history s0))"

lemma acked_refl: "acked D fs s s"
  by (simp add: acked_def begun_def)

lemma firm_acked: "firm D fs s0 s \<Longrightarrow> acked D fs s0 s"
  by (simp add: firm_def acked_def)

lemma acked_begun: "acked D fs s0 s \<Longrightarrow> begun s0 s"
  by (simp add: acked_def)

lemma calm_effect:
  assumes "calm f" and "f s = (r, t)"
  shows "persistent t = persistent s \<and> deferred t = deferred s \<and>
    (all_apart D t \<longrightarrow> all_apart D s \<and>
       state_file D fs (history t) = state_file D fs (history s))"
proof -
  have "\<forall>s. persistent (snd (f s)) = persistent s \<and> deferred (snd (f s)) = deferred s"
    and e: "emits (\<lambda>x. plain (fst x)) f"
    using assms(1) by (simp_all add: calm_def)
  then have "persistent t = persistent s \<and> deferred t = deferred s"
    using assms(2) by (metis snd_conv)
  moreover obtain new where "history t = history s @ new" "list_all (\<lambda>x. plain (fst x)) new"
    using emitsD [OF e assms(2)] by blast
  ultimately show ?thesis by (auto simp: all_apart_def intro!: state_file_plain)
qed

lemma calm_keeps:
  assumes "calm f"
  shows "keeps (begun s0) f" and "keeps (firm D fs s0) f" and "keeps (acked D fs s0) f"
proof -
  show "keeps (begun s0) f"
    using calm_effect [OF assms] unfolding keeps_def begun_def by (metis surjective_pairing)
  have "synced D fs t = synced D fs s" if "f s = (r, t)" and "all_apart D t" for s r t
    using calm_effect [OF assms that(1), of D fs] that(2) by (simp add: synced_def)
  then show "keeps (firm D fs s0) f" and "keeps (acked D fs s0) f"
    using calm_effect [OF assms, of _ _ _ D fs] unfolding keeps_def firm_def acked_def begun_def
    by (metis surjective_pairing)+
qed

lemma triple_keeps: "keeps I f \<Longrightarrow> triple I f (\<lambda>_. I) (\<lambda>_ _. True)"
  unfolding keeps_triple by (erule triple_conseq) simp_all

lemma keeps_then:
  "keeps I f \<Longrightarrow> (\<And>x. triple I (g x) Q (\<lambda>_ _. True)) \<Longrightarrow> triple I (bindE f g) Q (\<lambda>_ _. True)"
  by (rule triple_bind [OF triple_keeps])

lemma then_keeps:
  "triple I f (\<lambda>_. J) (\<lambda>_ _. True) \<Longrightarrow> (\<And>x. keeps J (g x)) \<Longrightarrow>
     triple I (bindE f g) (\<lambda>_. J) (\<lambda>_ _. True)"
  by (rule triple_bind, assumption, rule triple_keeps)

lemmas calm_then = keeps_then [OF calm_keeps(1)] keeps_then [OF calm_keeps(3)]

lemma begun_mod: "(\<And>s. deferred (h s) = deferred s) \<Longrightarrow> keeps (begun s0) (modE h)"
  by (rule keeps_mod) (simp add: begun_def)

lemma begun_save: "keeps (begun s0) (save D)"
  using kernel_only_save same_memory_fields(9)
  unfolding keeps_def begun_def kernel_only_def by metis

lemma begun_marks:
  "keeps (begun s0) (set_disconnected D i v)" "keeps (begun s0) (select_vm D i v')"
  unfolding set_disconnected_def select_vm_def by (intro keeps_bind begun_mod begun_save; simp)+

lemma save_firm:
  assumes "persistency (cfg D)"
  shows "triple (begun s0) (save D) (\<lambda>_. firm D fs s0) (\<lambda>_ _. True)"
proof (rule tripleI)
  fix s x t assume b: "begun s0 s" and s: "save D s = (Inr x, t)"
  have st: "save D s = (Inr (), t)" using s by simp
  note m = same_memory_fields [OF save_memory [OF st]]
  obtain new k body dir
    where h: "history t = history s @ new @ [(Rename (tmp_path D) (state_path (cfg D)), k)]"
    and p: "\<forall>x\<in>set new. preparing D (fst x)" and dir: "path_parent (state_path (cfg D)) = Some dir"
    and enc: "encode_state D (persistent s) = Inr body"
    and ok: "Inr () = fst (perform D (Rename (tmp_path D) (state_path (cfg D))) k)"
    and c: "\<forall>fs. fold (replay_one D) new fs (tmp_path D) = Some (body @ [newline])"
    using save_ends [OF assms st] by (elim disjE exE conjE) auto
  have "state_file D fs (history t) = Some (body @ [newline])"
    using state_file_renamed [OF c p tmp_differs [OF dir]] ok [symmetric] by (simp add: h)
  then show "firm D fs s0 t" using b enc m by (simp add: firm_def begun_def synced_def)
qed simp

lemma set_disconnected_firm:
  assumes "persistency (cfg D)"
  shows "triple (begun s0) (set_disconnected D i v) (\<lambda>_. firm D fs s0) (\<lambda>_ _. True)"
  unfolding set_disconnected_def by (intro keeps_then begun_mod save_firm assms) simp

lemma detach_one_usb_firm:
  assumes "persistency (cfg D)"
  shows "triple (begun s0) (detach_one_usb D d permanent) (\<lambda>_. firm D fs s0) (\<lambda>_ _. True)"
proof -
  let ?J = "\<lambda>p t. if p = Inr () then firm D fs s0 t else begun s0 t"
  have store: "triple (begun s0)
      (bindE (set_disconnected D (usb_persistent_id d) permanent) (\<lambda>_. save D))
      (\<lambda>_. firm D fs s0) (\<lambda>_. begun s0)"
  proof (rule tripleI)
    fix s x t
    assume "begun s0 s" and "bindE (set_disconnected D (usb_persistent_id d) permanent) (\<lambda>_. save D) s = (Inr x, t)"
    then show "firm D fs s0 t"
      using triple_InrD [OF keeps_then [OF begun_marks(1) save_firm [OF assms]]] by blast
  next
    fix s e t
    assume "begun s0 s" and "bindE (set_disconnected D (usb_persistent_id d) permanent) (\<lambda>_. save D) s = (Inl e, t)"
    then show "begun s0 t" by (rule keepsD2 [OF keeps_bind [OF begun_marks(1) begun_save]])
  qed
  have kept: "keeps (?J p) f" if "calm f" for p and f :: "('a, unit) manager_op"
    using calm_keeps(1,2) [OF that] by (auto simp: keeps_def)
  have rest: "triple (?J p) (bindE (modE (forget_pending (usb_persistent_id d))) (\<lambda>_.
      bindE (deauthorize_detached D d) (\<lambda>_. liftE p))) (\<lambda>_. firm D fs s0) (\<lambda>_ _. True)" for p
  proof (intro keeps_then kept calm_intro)
    show "triple (?J p) (liftE p) (\<lambda>_. firm D fs s0) (\<lambda>_ _. True)"
      by (rule tripleI) (auto simp: liftE_def)
  qed (simp add: forget_pending_def)
  show ?thesis
    unfolding detach_one_usb_def
    by (intro triple_intro calm_then keeps_then [OF begun_mod]
        triple_bind [OF triple_try rest] triple_conseq [OF store] calm_intro)
      (auto simp: forget_attachment_def)
qed

lemma record_attachment_firm:
  assumes "persistency (cfg D)"
  shows "triple (begun s0) (record_attachment D d node v c) (\<lambda>_. firm D fs s0) (\<lambda>_ _. True)"
proof -
  have last: "triple (begun s0) (bindE (save D) (\<lambda>_.
     bindE (modE (forget_pending (usb_persistent_id d))) (\<lambda>_.
     if changed c then notify (UsbAttached d (vm_name v)) else retE ())))
     (\<lambda>_. firm D fs s0) (\<lambda>_ _. True)"
    by (intro then_keeps save_firm assms calm_keeps calm_intro) (simp add: forget_pending_def)
  show ?thesis
    unfolding record_attachment_def
    by (rule keeps_then [OF calm_keeps(1)], intro calm_intro, rule keeps_then [OF begun_mod], simp,
        rule keeps_then [OF begun_marks(2)], rule keeps_then [OF begun_marks(1)],
        rule keeps_then [OF begun_mod], simp add: record_port_def, rule last)
qed

lemma firm_to_acked:
  "triple (begun s0) f (\<lambda>_. firm D fs s0) (\<lambda>_ _. True) \<Longrightarrow>
     triple (acked D fs s0) f (\<lambda>_. acked D fs s0) (\<lambda>_ _. True)"
  by (erule triple_conseq) (auto intro: acked_begun firm_acked)

lemma attach_to_vm_acked:
  assumes "persistency (cfg D)"
  shows "triple (acked D fs s0) (attach_to_vm D d v) (\<lambda>_. acked D fs s0) (\<lambda>_ _. True)"
proof -
  have guarded: "triple (acked D fs s0)
      (under_guard D d armed (claim_usb D d node v p moved) (record_attachment D d node v))
      (\<lambda>_. acked D fs s0) (\<lambda>_ _. True)" for armed node p moved
    unfolding under_guard_def
    by (intro calm_then triple_intro firm_to_acked record_attachment_firm assms triple_keeps
        calm_keeps(3) calm_intro) simp_all
  have moved: "triple (acked D fs s0) (if b then detach_one_usb D d False else retE ())
      (\<lambda>_. acked D fs s0) (\<lambda>_ _. True)" for b
    by (intro triple_intro firm_to_acked detach_one_usb_firm assms)
  show ?thesis
    unfolding attach_to_vm_def
    by (rule calm_then(2) [OF calm_claim(2)], rule triple_option, intro triple_intro, simp,
        rule calm_then(2), intro calm_intro, rule triple_bind [OF moved],
        rule calm_then(2) [OF calm_detach(4)], rule guarded)
qed

abbreviation acks :: "'k dm \<Rightarrow> contents \<Rightarrow> 'k manager \<Rightarrow> ('k, 'a) manager_op \<Rightarrow> bool" where
  "acks D fs s0 f \<equiv> triple (acked D fs s0) f (\<lambda>_. acked D fs s0) (\<lambda>_ _. True)"

lemma acks_calm: "calm f \<Longrightarrow> acks D fs s0 f"
  by (intro triple_keeps calm_keeps)

lemma acks_attach_one_usb:
  assumes "persistency (cfg D)"
  shows "acks D fs s0 (attach_one_usb D d r requested)"
  unfolding attach_one_usb_def
  by (rule calm_then(2) [OF calm_reads(4)], rule triple_option, rule acks_calm [OF calm_ask],
      intro triple_if triple_fail TrueI, rule calm_then(2) [OF calm_reads(3)],
      rule attach_to_vm_acked [OF assms])

lemma attach_one_pci_acked:
  assumes "persistency (cfg D)"
  shows "acks D fs s0 (attach_one_pci D d r requested)"
proof -
  have add: "calm (add_missing D so live a)" for so live a
    by (rule calm_kernel, rule kernel_only_add_missing)
      (unfold add_missing_def, intro emits_intro, simp_all add: request_def)
  have "acks D fs s0 (attach_pci_to D d r v)" for v
    unfolding attach_pci_to_def Let_def
    by (rule calm_then(2), intro calm_intro, rule calm_then(2), intro calm_intro,
        intro triple_if triple_fail TrueI, rule calm_then(2), intro calm_intro,
        rule calm_then(2), intro calm_intro, rule calm_then(2), intro calm_intro add,
        rule calm_then(2), rule calm_mod, simp add: record_pci_def,
        rule firm_to_acked, intro then_keeps set_disconnected_firm assms calm_keeps calm_intro)
  then show ?thesis
    unfolding attach_one_pci_def Let_def
    by (intro calm_then(2) calm_intro triple_if triple_fail TrueI)
qed

lemma detach_one_pci_firm:
  assumes "persistency (cfg D)"
  shows "triple (begun s0) (detach_one_pci D d r permanent) (\<lambda>_. firm D fs s0) (\<lambda>_ _. True)"
proof -
  have let_go: "calm (detach_pci_from D d r name)" for name
    unfolding detach_pci_from_def Let_def
    by (intro calm_intro) (simp add: forget_pci_def)
  show ?thesis
    unfolding detach_one_pci_def
    by (rule calm_then(1), intro calm_intro, rule calm_then(1), intro calm_intro let_go,
        rule set_disconnected_firm [OF assms])
qed

lemma acks_defer:
  assumes "acks D fs s0 f"
  shows "acks D fs s0 (defer_if_stopped D target f)"
  unfolding defer_if_stopped_def
proof (rule triple_bind)
  show "triple (acked D fs s0) (tryE f)
      (\<lambda>r t. case r of Inr _ \<Rightarrow> acked D fs s0 t | Inl _ \<Rightarrow> True) (\<lambda>_ _. True)"
    by (rule triple_try, simp, rule assms)
next
  fix r :: "unit result"
  show "triple (\<lambda>t. case r of Inr _ \<Rightarrow> acked D fs s0 t | Inl _ \<Rightarrow> True)
     (case r of
       Inr _ \<Rightarrow> retE ()
     | Inl e \<Rightarrow>
         bindE (look (vm_stopped D target)) (\<lambda>stopped.
         if stopped then modE (\<lambda>s. s\<lparr>deferred := True\<rparr>) else failE e))
     (\<lambda>_. acked D fs s0) (\<lambda>_ _. True)"
    by (cases r) (auto simp: triple_def op_simps look_def acked_def begun_def)
qed

lemma acks_loops:
  assumes p: "persistency (cfg D)"
  shows "acks D fs s0 (attach_usb D sel v)" "acks D fs s0 (suspend_usb D v)"
    "acks D fs s0 (resume_usb D v)" "acks D fs s0 (attach_pci D sel v)"
    "acks D fs s0 (suspend_pci D v)" "acks D fs s0 (resume_pci D v)"
  unfolding attach_usb_def suspend_usb_def suspend_one_usb_def resume_usb_def resume_one_usb_def
    attach_pci_def suspend_pci_def suspend_one_pci_def resume_pci_def resume_one_pci_def Let_def
  by (intro calm_then(2) calm_intro triple_for_each triple_prod triple_if acks_attach_one_usb
      attach_one_pci_acked firm_to_acked detach_one_usb_firm detach_one_pci_firm acks_defer p
      triple_ret; simp)+

lemma triple_selected:
  "(\<And>k x. f k = Inr x \<Longrightarrow> triple P (g x) Q (\<lambda>_ _. True)) \<Longrightarrow>
     triple P (bindE (look_result f) g) Q (\<lambda>_ _. True)"
  by (force simp: triple_def look_result_bind split: sum.split prod.split)

lemma detach_firm:
  assumes p: "persistency (cfg D)"
  shows "triple (begun s0) (detach_usb D sel permanent) (\<lambda>_. firm D fs s0) (\<lambda>_ _. True)"
    and "triple (begun s0) (detach_pci D sel permanent) (\<lambda>_. firm D fs s0) (\<lambda>_ _. True)"
  unfolding detach_usb_def detach_pci_def
  by (intro triple_selected triple_for_each_last triple_prod detach_one_usb_firm
      detach_one_pci_firm p;
      auto simp: selected_usb_def selected_pci_def Let_def firm_def split: sum.splits if_splits)+

lemma acks_handle_inner:
  assumes p: "persistency (cfg D)"
  shows "acks D fs s0 (handle_inner D a)"
proof -
  have reply: "acks D fs s0 (empty_reply f)" if "acks D fs s0 f" for f
    unfolding empty_reply_def by (rule triple_bind [OF that]) (simp add: triple_ret)
  show ?thesis
  proof (cases a)
    case (UsbList w t)
    then show ?thesis by (simp add: triple_def split: sum.split)
  next
    case (PciList w t)
    then show ?thesis by (simp add: triple_def split: sum.split)
  next
    case EnableNotifications
    then show ?thesis by (simp add: triple_ret)
  next
    case (VmmArgs v pre start require)
    then show ?thesis by (auto intro!: acks_calm calm_intro)
  qed (auto intro!: reply acks_loops firm_to_acked [OF detach_firm(1)] firm_to_acked [OF detach_firm(2)] p)
qed

section \<open>A lasting detach marks every device it selected\<close>

text \<open>The identities a detach request is about.\<close>

definition detach_names :: "'k dm \<Rightarrow> action \<Rightarrow> 'k \<Rightarrow> string list" where
  "detach_names D a k =
     (case a of
        UsbDetach sel \<Rightarrow>
          (case selected_usb D (selector_of_usb sel) k of
             Inl _ \<Rightarrow> [] | Inr xs \<Rightarrow> map (\<lambda>(d, r). usb_persistent_id d) xs)
      | PciDetach sel \<Rightarrow>
          (case selected_pci D (selector_of_pci sel) k of
             Inl _ \<Rightarrow> [] | Inr xs \<Rightarrow> map (\<lambda>(d, r). pci_persistent_id d) xs)
      | _ \<Rightarrow> [])"

lemmas marked_kernel = keeps_kernel_only [OF marked_memory]

lemma marked_grows: "keeps (marked i) (set_disconnected D j True)"
  unfolding set_disconnected_def
  by (intro keeps_bind keeps_mod marked_kernel kernel_only_save) (simp add: marked_def disc.lookup_put)

lemma marked_detach:
  "keeps (marked i) (detach_one_usb D d True)" "keeps (marked i) (detach_one_pci D d' r True)"
  unfolding detach_one_usb_def detach_one_pci_def detach_pci_from_def Let_def
  by (intro keeps_intro marked_grows marked_kernel keeps_mod kernel_only_intro;
      simp add: marked_def forget_attachment_def forget_pending_def forget_pci_def)+

lemma set_disconnected_marks: "marked i (snd (set_disconnected D i True s))"
proof -
  obtain r t where t: "set_disconnected D i True s = (r, t)" by force
  show ?thesis
    using same_memory_fields(1) [OF set_disconnected_memory [OF t]]
    by (simp add: t marked_def disc.lookup_put_same)
qed

lemma detach_marks:
  "detach_one_usb D d True s = (Inr (), t) \<Longrightarrow> marked (usb_persistent_id d) t"
  "detach_one_pci D d' r True s = (Inr (), t) \<Longrightarrow> marked (pci_persistent_id d') t"
proof -
  let ?i = "usb_persistent_id d"
  have mark: "marked ?i (snd (bindE (set_disconnected D ?i True) (\<lambda>_. save D) u))" for u
    using set_disconnected_marks [of ?i D u] keepsD [OF marked_kernel [OF kernel_only_save]]
    by (auto simp: bindE_apply split: prod.split sum.split)
  have set: "triple (\<lambda>_. True) (bindE (set_disconnected D ?i True) (\<lambda>_. save D))
      (\<lambda>_. marked ?i) (\<lambda>_. marked ?i)"
    using mark by (auto simp: triple_def case_prod_beta split: sum.split)
  have any: "triple (\<lambda>_. True) f (\<lambda>_ _. True) (\<lambda>_ _. True)" for f :: "('a manager, 'b) oper"
    by (simp add: triple_def split: prod.split sum.split)
  have rest: "triple (marked ?i) (bindE (modE (forget_pending ?i)) (\<lambda>_.
      bindE (deauthorize_detached D d) (\<lambda>_. liftE p))) (\<lambda>_. marked ?i) (\<lambda>_ _. True)" for p
    by (intro triple_keeps keeps_bind keeps_mod keeps_basic marked_kernel kernel_only_intro)
      (simp add: marked_def forget_pending_def)
  have "triple (\<lambda>_. True) (detach_one_usb D d True) (\<lambda>_. marked ?i) (\<lambda>_ _. True)"
    unfolding detach_one_usb_def
    by (intro triple_option triple_fail triple_prod triple_bind [OF any]
        triple_bind [OF triple_try rest]) (auto intro: set)
  then show "detach_one_usb D d True s = (Inr (), t) \<Longrightarrow> marked ?i t"
    by (auto dest: triple_InrD)
  show "detach_one_pci D d' r True s = (Inr (), t) \<Longrightarrow> marked (pci_persistent_id d') t"
    using set_disconnected_marks [of "pci_persistent_id d'" D]
    by (auto simp: detach_one_pci_def bindE_Inr_iff) (metis snd_conv)
qed

lemma detach_names_marked:
  assumes "handle_inner D a s = (Inr p, t)" and "i \<in> set (detach_names D a (kern s))"
  shows "marked i t"
proof (cases a)
  case (UsbDetach sel)
  then obtain xs where xs: "selected_usb D (selector_of_usb sel) (kern s) = Inr xs"
    and i: "i \<in> set (map (\<lambda>(d, r). usb_persistent_id d) xs)"
    using assms(2) by (cases "selected_usb D (selector_of_usb sel) (kern s)") (simp_all add: detach_names_def)
  then have "forE xs (\<lambda>(d, r). detach_one_usb D d True) s = (Inr (), t)"
    using assms(1) UsbDetach
    by (auto simp: empty_reply_def bindE_Inr_iff retE_def detach_usb_def look_result_def for_each_Inr)
  then have "\<forall>x\<in>set xs. marked (usb_persistent_id (fst x)) t"
    by (rule forE_all [where I = "\<lambda>_. True"])
      (auto intro: detach_marks(1) keepsD2 [OF marked_detach(1)] split: prod.splits)
  then show ?thesis using i by auto
next
  case (PciDetach sel)
  then obtain xs where xs: "selected_pci D (selector_of_pci sel) (kern s) = Inr xs"
    and i: "i \<in> set (map (\<lambda>(d, r). pci_persistent_id d) xs)"
    using assms(2) by (cases "selected_pci D (selector_of_pci sel) (kern s)") (simp_all add: detach_names_def)
  then have "forE xs (\<lambda>(d, r). detach_one_pci D d r True) s = (Inr (), t)"
    using assms(1) PciDetach
    by (auto simp: empty_reply_def bindE_Inr_iff retE_def detach_pci_def look_result_def for_each_Inr)
  then have "\<forall>x\<in>set xs. marked (pci_persistent_id (fst x)) t"
    by (rule forE_all [where I = "\<lambda>_. True"])
      (auto intro: detach_marks(2) keepsD2 [OF marked_detach(2)] split: prod.splits)
  then show ?thesis using i by auto
qed (use assms(2) in \<open>simp_all add: detach_names_def\<close>)

end
