(* ===== verification/Durability_Properties.thy ===== *)
theory Durability_Properties
  imports Durability Store_Properties
begin

text \<open>
  What survives a crash or a restart: the state file is whole at every moment, what was
  acknowledged is in it, and a lasting detach holds across a restart.
\<close>

section \<open>A deployment that keeps its state\<close>

text \<open>A codec good enough for the sample: only the disconnected marks, one on each line.\<close>

definition encode_marks :: "persistent_state \<Rightarrow> string result" where
  "encode_marks st = Inr (concat (map (\<lambda>i. i @ [newline]) (disconnected_devices st)))"

definition decode_marks :: "string \<Rightarrow> persistent_state result" where
  "decode_marks c = Inr (default_persistent\<lparr>disconnected_devices :=
     filter (\<lambda>l. l \<noteq> []) (split_char newline c)\<rparr>)"

definition keeping_dm :: "disk dm" where
  "keeping_dm = (sample_dm (full_config\<lparr>persistency := True\<rparr>))
     \<lparr>encode_state := encode_marks, decode_state := decode_marks\<rparr>"

definition unplug_request :: action where
  "unplug_request = UsbDetach (ByVidPid ''a'' ''b'')"

definition kept_start :: "disk manager" where
  "kept_start = initial_manager keeping_dm (plugged_disk [])"

definition kept_unplugged :: "disk manager" where
  "kept_unplugged = snd (handle keeping_dm unplug_request kept_start)"

lemma kept_valid: "validate (cfg keeping_dm) = Inr ()"
  by code_simp

lemma kept_reachable: "reachable keeping_dm kept_start" "reachable keeping_dm kept_unplugged"
proof -
  have "with_roots keeping_dm (plugged_disk []) = Inr kept_start"
    by (simp add: with_roots_def kept_valid kept_start_def)
  then show start: "reachable keeping_dm kept_start" by (rule reachable_start)
  show "reachable keeping_dm kept_unplugged"
    unfolding kept_unplugged_def
    by (rule reachable_step [OF start], rule step.request, rule surjective_pairing)
qed

lemma kept_separate: "separate keeping_dm"
proof -
  have "state_path (cfg keeping_dm) = [''/'', ''var'', ''lib'', ''vhotplug'', ''vhotplug.state'']"
    and "tmp_path keeping_dm = [''/'', ''var'', ''lib'', ''vhotplug'', ''.vhotplug.state.tmp'']"
    and "usb_root keeping_dm = [''bus'', ''devices'']" "pci_root keeping_dm = [''pci'', ''devices'']"
    and "path_parent [''bus'', ''devices''] = Some [''bus'']"
    and "path_parent [''pci'', ''devices''] = Some [''pci'']"
    by code_simp+
  then show ?thesis by (simp add: separate_def usbcore_authorized_default_def)
qed

text \<open>Saving always succeeds here, and leaves the kernel as it was.\<close>

lemma kept_save:
  "save keeping_dm s = (Inr (), s\<lparr>history := history s @ map (\<lambda>e. (e, kern s))
     (save_effects [''/'', ''var'', ''lib'', ''vhotplug'']
       [''/'', ''var'', ''lib'', ''vhotplug'', ''vhotplug.state'']
       (encode_marks (persistent s)))\<rparr>)"
proof -
  have "persistency (cfg keeping_dm)"
    and "state_path (cfg keeping_dm) = [''/'', ''var'', ''lib'', ''vhotplug'', ''vhotplug.state'']"
    and "path_parent [''/'', ''var'', ''lib'', ''vhotplug'', ''vhotplug.state''] =
       Some [''/'', ''var'', ''lib'', ''vhotplug'']"
    by code_simp+
  moreover have "encode_state keeping_dm = encode_marks" "perform keeping_dm = disk_perform"
    by (simp_all add: keeping_dm_def sample_dm_def)
  ultimately show ?thesis
    by (simp add: save_def save_effects_def op_simps host_defs disk_perform_def encode_marks_def Let_def)
qed

lemma kept_detach:
  assumes "device_node d = Some n" and "usb_vms s n = None"
    and "crosvm_usb_ports (persistent s) (sys_name d) = None"
  shows "\<exists>t. detach_one_usb keeping_dm d True s = (Inr (), t) \<and>
     persistent t = mark_disconnected (usb_persistent_id d) True (persistent s)"
proof -
  have "\<not> policy_enabled keeping_dm" by code_simp
  then show ?thesis
    using assms(3)
    by (simp add: detach_one_usb_def assms(1,2) op_simps look_def set_disconnected_def kept_save
        forget_attachment_def forget_pending_def deauthorize_detached_def mark_disconnected_def Let_def
        fun_upd_idem)
qed

lemma kept_answered:
  "handle keeping_dm unplug_request kept_start = (OkResponse EmptyPayload, kept_unplugged)"
  "persistent kept_unplugged = default_persistent\<lparr>disconnected_devices := [''usb-a:b:None'']\<rparr>"
proof -
  let ?sel = "selected_usb keeping_dm (selector_of_usb (ByVidPid ''a'' ''b'')) (kern kept_start)"
  have "is_ok ?sel" "map (\<lambda>(d, r). (device_node d, usb_persistent_id d)) (ok_value ?sel) =
      [(Some ''/dev/bus/usb/001/004'', ''usb-a:b:None'')]"
    by code_simp+
  then obtain d r where sel: "?sel = Inr [(d, r)]" "device_node d = Some ''/dev/bus/usb/001/004''"
    "usb_persistent_id d = ''usb-a:b:None''"
    using is_ok_value [of ?sel] by (auto simp: map_eq_Cons_conv)
  have "\<not> path_exists keeping_dm (state_path (cfg keeping_dm)) (plugged_disk [])" by code_simp
  then have "persistent kept_start = default_persistent" "usb_vms kept_start = (\<lambda>_. None)"
    by (simp_all add: kept_start_def initial_manager_def load_persistent_def)
  then obtain t where t: "detach_one_usb keeping_dm d True kept_start = (Inr (), t)"
    "persistent t = default_persistent\<lparr>disconnected_devices := [''usb-a:b:None'']\<rparr>"
    using kept_detach [OF sel(2), of kept_start]
    by (auto simp: default_persistent_def mark_disconnected_def sel(3))
  have "handle_inner keeping_dm unplug_request kept_start = (Inr EmptyPayload, t)"
    using sel(1) t(1)
    by (simp add: unplug_request_def empty_reply_def detach_usb_def look_result_bind for_each_def
        aggregate_def look_result_def op_simps)
  then show "handle keeping_dm unplug_request kept_start = (OkResponse EmptyPayload, kept_unplugged)"
    and "persistent kept_unplugged = default_persistent\<lparr>disconnected_devices := [''usb-a:b:None'']\<rparr>"
    using t(2) by (simp_all add: kept_unplugged_def handle_def response_of_def)
qed

section \<open>The state file is never torn\<close>

text \<open>C12: a crash never finds half a state file. Whatever the manager did, and at whatever effect
  of that the power fails, the state file is the one that was there before the first save, or the
  complete encoding of some state, ending in its newline; so that what a restart reads decodes
  whenever what was encoded does.\<close>

theorem state_file_never_torn:
  assumes "reachable D s" and "separate D" and "prefix h (history s)"
  shows "state_file D fs h = fs (state_path (cfg D)) \<or>
    (\<exists>st body. encode_state D st = Inr body \<and> state_file D fs h = Some (body @ [newline]))"
  using reachable_intact [OF assms(1), of fs] reachable_apart [OF assms(1,2)] assms(3)
  by (auto simp: intact_def whole_def)

lemma state_file_never_torn_witness:
  "\<forall>n. state_file keeping_dm (\<lambda>_. Some ''old'') (take n (history kept_unplugged)) = Some ''old'' \<or>
     (\<exists>st body. encode_marks st = Inr body \<and>
        state_file keeping_dm (\<lambda>_. Some ''old'') (take n (history kept_unplugged)) =
          Some (body @ [newline]))"
  using state_file_never_torn [OF kept_reachable(2) kept_separate take_is_prefix, where fs = "\<lambda>_. Some ''old''"]
  by (simp add: keeping_dm_def)

section \<open>What is acknowledged is saved\<close>

lemma handled_apart:
  assumes "reachable D s" and "separate D" and "handle_inner D a s = (r, t)"
  shows "all_apart D t"
proof -
  have "step D s t" by (rule step.request [of D a s "response_of r"]) (simp add: handle_def assms(3))
  from reachable_apart [OF reachable_step [OF assms(1) this] assms(2)]
  show ?thesis by (simp add: all_apart_def)
qed

lemma detach_synced:
  assumes "reachable D s" and "separate D" and "persistency (cfg D)"
    and inner: "handle_inner D a s = (Inr p, t)"
    and "(\<exists>sel. a = UsbDetach sel) \<or> (\<exists>sel. a = PciDetach sel)"
  shows "synced D fs t"
proof -
  have "firm D fs s t"
    using assms(5) inner triple_InrD [OF detach_firm(1) [OF assms(3)], of s s]
      triple_InrD [OF detach_firm(2) [OF assms(3)], of s s]
    by (auto simp: empty_reply_def bindE_Inr_iff begun_def retE_def)
  then show ?thesis using handled_apart [OF assms(1,2) inner] by (simp add: firm_def)
qed

text \<open>C13: a reply \<open>ok\<close> is a promise that is on disk. When a request was answered without an error
  and no attach was put off until its VM runs, then either the request changed nothing that is
  to be saved, nor the state file, or the state file holds the encoding of exactly the state that
  is in memory. A detach is always of the second kind.\<close>

theorem acknowledged_is_saved:
  assumes "reachable D s" and "separate D" and "persistency (cfg D)"
    and "handle D a s = (OkResponse p, t)"
  shows "(\<not> deferred t \<longrightarrow>
      persistent t = persistent s \<and>
        state_file D fs (history t) = state_file D fs (history s) \<or>
      (\<exists>body. encode_state D (persistent t) = Inr body \<and>
         state_file D fs (history t) = Some (body @ [newline]))) \<and>
    ((\<exists>sel. a = UsbDetach sel) \<or> (\<exists>sel. a = PciDetach sel) \<longrightarrow>
      (\<exists>body. encode_state D (persistent t) = Inr body \<and>
         state_file D fs (history t) = Some (body @ [newline])))"
proof -
  have inner: "handle_inner D a s = (Inr p, t)"
    using assms(4) by (auto simp: handle_def response_of_def split: prod.splits sum.splits)
  have apart: "all_apart D t" by (rule handled_apart [OF assms(1,2) inner])
  have "acked D fs s t"
    using triple_InrD [OF acks_handle_inner [OF assms(3)] acked_refl inner] .
  then show ?thesis
    using apart detach_synced [OF assms(1-3) inner] by (auto simp: acked_def synced_def)
qed

lemma acknowledged_is_saved_witness:
  "state_file keeping_dm (\<lambda>_. None) (history kept_unplugged) =
     Some (''usb-a:b:None'' @ [newline, newline])"
proof -
  have "persistency (cfg keeping_dm)" by code_simp
  then have "\<exists>body. encode_state keeping_dm (persistent kept_unplugged) = Inr body \<and>
      state_file keeping_dm (\<lambda>_. None) (history kept_unplugged) = Some (body @ [newline])"
    using acknowledged_is_saved [OF kept_reachable(1) kept_separate _ kept_answered(1)]
    by (simp add: unplug_request_def)
  moreover have "encode_state keeping_dm (persistent kept_unplugged) = Inr (''usb-a:b:None'' @ [newline])"
    by (simp add: keeping_dm_def encode_marks_def kept_answered(2))
  ultimately show ?thesis by simp
qed

section \<open>A detach outlives the daemon\<close>

text \<open>
  A restart that finds on disk what the effects before it left there, and a codec that reads
  back what it wrote.
\<close>

definition reads_back :: "'k dm \<Rightarrow> contents \<Rightarrow> 'k manager \<Rightarrow> 'k \<Rightarrow> bool" where
  "reads_back D fs t k \<longleftrightarrow>
     (\<forall>c. state_file D fs (history t) = Some c \<longrightarrow>
        path_exists D (state_path (cfg D)) k \<and> read_text D (state_path (cfg D)) k = Some c) \<and>
     (\<forall>body. encode_state D (persistent t) = Inr body \<longrightarrow>
        decode_state D (body @ [newline]) = Inr (persistent t))"

text \<open>A lasting detach holds across a restart. When a detach was answered without an error and
  the daemon is started again, on a kernel on which the state file reads as it was left and with a
  codec that reads back what it wrote, then the new manager remembers the whole persistent state,
  every device the detach was about is still marked, and resuming, for whatever VM, neither
  attaches such a device nor does anything else with it.\<close>

theorem detach_survives_restart:
  assumes "reachable D s" and "separate D" and "persistency (cfg D)"
    and "handle D a s = (OkResponse p, t)" and "i \<in> set (detach_names D a (kern s))"
    and "reads_back D fs t k" and "with_roots D k = Inr u"
  shows "persistent u = persistent t \<and> disconnected (persistent u) i \<and>
    (\<forall>w d r. usb_persistent_id d = i \<longrightarrow> resume_one_usb D w d r u = (Inr (), u)) \<and>
    (\<forall>w d r. pci_persistent_id d = i \<longrightarrow> resume_one_pci D w d r u = (Inr (), u))"
proof -
  have inner: "handle_inner D a s = (Inr p, t)"
    using assms(4) by (auto simp: handle_def response_of_def split: prod.splits sum.splits)
  have "(\<exists>sel. a = UsbDetach sel) \<or> (\<exists>sel. a = PciDetach sel)"
    using assms(5) by (auto simp: detach_names_def split: action.splits)
  then obtain body where "encode_state D (persistent t) = Inr body"
    and "state_file D fs (history t) = Some (body @ [newline])"
    using detach_synced [OF assms(1-3) inner, of fs] by (auto simp: synced_def)
  then have "persistent u = persistent t"
    using assms(3,6,7)
    by (auto simp: reads_back_def with_roots_def initial_manager_def load_persistent_def Let_def
        split: sum.splits)
  moreover have "disconnected (persistent t) i"
    using detach_names_marked [OF inner assms(5)] by (simp add: marked_def)
  ultimately show ?thesis by (auto simp: resume_one_usb_def resume_one_pci_def op_simps)
qed

text \<open>The same sample, restarted on a disk that holds what was written.\<close>

definition kept_disk :: disk where
  "kept_disk = (plugged_disk [])
     \<lparr>files := [(state_path (cfg keeping_dm), ''usb-a:b:None'' @ [newline, newline])]\<rparr>"

lemma kept_file:
  "state_file keeping_dm (\<lambda>_. None) (history kept_unplugged) =
     Some (''usb-a:b:None'' @ [newline, newline])"
proof -
  have p: "persistency (cfg keeping_dm)" by code_simp
  have h: "handle_inner keeping_dm unplug_request kept_start = (Inr EmptyPayload, kept_unplugged)"
    using kept_answered(1) by (auto simp: handle_def response_of_def split: prod.splits sum.splits)
  have "synced keeping_dm (\<lambda>_. None) kept_unplugged"
    using detach_synced [OF kept_reachable(1) kept_separate p h] by (simp add: unplug_request_def)
  then show ?thesis by (auto simp: synced_def keeping_dm_def encode_marks_def kept_answered(2))
qed

lemma kept_reads_back: "reads_back keeping_dm (\<lambda>_. None) kept_unplugged kept_disk"
proof -
  have "path_exists keeping_dm (state_path (cfg keeping_dm)) kept_disk"
    and "read_text keeping_dm (state_path (cfg keeping_dm)) kept_disk =
      Some (''usb-a:b:None'' @ [newline, newline])"
    and "filter (\<lambda>l. l \<noteq> []) (split_char newline (''usb-a:b:None'' @ [newline, newline])) = [''usb-a:b:None'']"
    by code_simp+
  then show ?thesis
    by (simp add: reads_back_def kept_file)
      (simp add: keeping_dm_def encode_marks_def decode_marks_def kept_answered(2))
qed

lemma detach_survives_restart_witness:
  "disconnected (persistent (initial_manager keeping_dm kept_disk)) ''usb-a:b:None''"
proof -
  have "persistency (cfg keeping_dm)" by code_simp
  moreover have "''usb-a:b:None'' \<in> set (detach_names keeping_dm unplug_request (kern kept_start))"
    by code_simp
  moreover have "with_roots keeping_dm kept_disk = Inr (initial_manager keeping_dm kept_disk)"
    by (simp add: with_roots_def kept_valid)
  ultimately show ?thesis
    using detach_survives_restart [OF kept_reachable(1) kept_separate _ kept_answered(1) _ kept_reads_back]
    by blast
qed

end
