(* ===== verification/Link.thy ===== *)
theory Link
  imports Cli Server
begin

text \<open>
  The tool and the daemon put together: the client's \<open>net\<close> over a link without losses, at whose
  other end one connection of the server answers. The codecs, the clock's origin and what the
  link does when a request is given up stay those of an arbitrary \<open>net\<close>.
\<close>

record 'k link =
  link_conn :: "'k conn"
  lines_read :: nat
  ticks :: nat

fun sent_text :: "sent_line \<Rightarrow> string" where
  "sent_text (Replied t) = t"
| "sent_text (Pushed t) = t"

definition elapse :: "nat \<Rightarrow> 'k link \<Rightarrow> 'k link" where
  "elapse lag n = n\<lparr>ticks := ticks n + lag\<rparr>"

text \<open>
  Connecting opens a fresh connection on the manager the daemon then has; a line sent is a frame
  the connection handles; the lines it has sent are read one after another. Each of the three
  takes \<open>lag\<close>.
\<close>

definition link_net ::
  "'k dm \<Rightarrow> (string \<Rightarrow> string + action) \<Rightarrow> (response \<Rightarrow> string result) \<Rightarrow> nat \<Rightarrow> 'k link net \<Rightarrow>
     'k link net" where
  "link_net D decode encode lag N =
     N\<lparr>connect := (\<lambda>t n. (Inr (), elapse lag
          (n\<lparr>link_conn := open_connection (serving (link_conn n)), lines_read := 0\<rparr>))),
       send_line := (\<lambda>l n. (Inr (), elapse lag
          (n\<lparr>link_conn := on_event D decode encode (Frame (Some (Inr l)) True) (link_conn n)\<rparr>))),
       next_line := (\<lambda>n.
          if lines_read n < length (sent (link_conn n))
          then (Some (Inr (sent_text (sent (link_conn n) ! lines_read n))),
                elapse lag (n\<lparr>lines_read := Suc (lines_read n)\<rparr>))
          else (None, elapse lag n)),
       clock := ticks\<rparr>"

text \<open>The manager at the other end.\<close>

abbreviation manager_of :: "('k link, 'z) client_scheme \<Rightarrow> 'k manager" where
  "manager_of s \<equiv> serving (link_conn (world s))"

text \<open>The codecs agree on one request and the reply it gets.\<close>

definition understood ::
  "(string \<Rightarrow> string + action) \<Rightarrow> (response \<Rightarrow> string result) \<Rightarrow> ('n, 'y) net_scheme \<Rightarrow> action \<Rightarrow>
     response \<Rightarrow> bool" where
  "understood decode encode N a r \<longleftrightarrow>
     (\<exists>l. encode_action N a = Inr l \<and> decode l = Inr a) \<and>
     (\<exists>l. encode r = Inr l \<and> decode_response N l = Inr r)"

text \<open>A request over the link is the handler called in place.\<close>

lemma api_request_link:
  assumes "understood decode encode N a (fst (handle D a (manager_of s)))" and "3 * lag \<le> deadline"
  shows "\<exists>n. api_request (link_net D decode encode lag N) t a deadline s =
      (Inr (fst (handle D a (manager_of s))), s\<lparr>world := n\<rparr>) \<and>
    serving (link_conn n) = snd (handle D a (manager_of s))"
proof -
  obtain l l' where "encode_action N a = Inr l" "decode l = Inr a"
    "encode (fst (handle D a (manager_of s))) = Inr l'"
    "decode_response N l' = Inr (fst (handle D a (manager_of s)))"
    using assms(1) by (auto simp: understood_def)
  moreover obtain r m where "handle D a (manager_of s) = (r, m)" by force
  ultimately show ?thesis
    using assms(2)
    by (simp add: api_request_def timeout_def exchange_def reply_frame_def next_frame_def on_world_def
        link_net_def elapse_def bindE_def liftE_def retE_def open_connection_def on_event_def
        handle_frame_def handle_line_def with_context_def)
      (intro exI conjI, rule refl, simp)
qed

text \<open>What the tool makes of a reply.\<close>

definition ending_of ::
  "printer \<Rightarrow> (payload \<Rightarrow> string) \<Rightarrow> output_kind option \<Rightarrow> response \<Rightarrow> unit ending \<times> text_line list" where
  "ending_of P shown_as out r =
     (case r of
        FailedResponse e \<Rightarrow> (Ended (Inl (Bail e)), [])
      | OkResponse p \<Rightarrow>
          (case render_payload P shown_as out p of
             Inl e \<Rightarrow> (Ended (Inl e), [])
           | Inr ls \<Rightarrow> (Ended (Inr ()), ls)))"

lemma retry_first:
  assumes "api_request N t message deadline s = (Inr r, s')"
  shows "request_with_retry N t message deadline s = Some (Inr r, s')"
  unfolding request_with_retry_def by (subst retry.simps) (simp add: assms)

lemma run_cli_link:
  assumes "prepare (cli_command c) = Ended (Inr (a, deadline, out))"
    and "transport_of N c = Inr t" and "3 * lag \<le> deadline"
    and "understood decode encode N a (fst (handle D a (manager_of s)))"
    and "run_cli (link_net D decode encode lag N) P shown_as c s = (r, s')"
  shows "(r, printed s') = apsnd ((@) (printed s)) (ending_of P shown_as out (fst (handle D a (manager_of s)))) \<and>
    manager_of s' = snd (handle D a (manager_of s))"
proof -
  let ?N = "link_net D decode encode lag N"
  obtain n where n: "api_request ?N t a deadline s =
      (Inr (fst (handle D a (manager_of s))), s\<lparr>world := n\<rparr>)"
    "serving (link_conn n) = snd (handle D a (manager_of s))"
    using api_request_link [OF assms(4,3)] by blast
  have "running_in_vm ?N = running_in_vm N" by (simp add: running_in_vm_def link_net_def)
  then have "transport_of ?N c = Inr t" using assms(2) unfolding transport_of_def by (simp only:)
  moreover have "cli_command c \<noteq> ListenCommand" using assms(1) by auto
  ultimately have run: "run_request ?N P shown_as t (a, deadline, out) s = (r, s')"
    using assms(1,5) by (simp add: run_cli_def)
  have "(if out = Some VmmOutput then request_with_retry ?N t a deadline s
       else Some (api_request ?N t a deadline s)) =
     Some (Inr (fst (handle D a (manager_of s))), s\<lparr>world := n\<rparr>)"
    using n(1) retry_first [OF n(1)] by simp
  then show ?thesis
    using run n(2) unfolding run_request_def ending_of_def
    by (auto simp: print_lines_def split: response.splits sum.splits)
qed

end
