(* ===== verification/Link_Properties.thy ===== *)
theory Link_Properties
  imports Link Durability_Properties
begin

text \<open>
  What a user of the command line tool can rely on: over a link without losses it does what the
  handler in the daemon does, and a detach it reports as done outlives the daemon.
\<close>

section \<open>The tool does what the handler does\<close>

text \<open>C15: the tool is the handler called from afar. When the link answers in time and the codecs
  agree on the request and its reply, running a command that sends a request leaves the daemon's
  manager exactly as the handler does, and ends as the handler's reply says: a refused request is
  the error with its message and exit status 1, an accepted one prints the rendered reply after
  what was printed before and exits with 0, unless that reply cannot be rendered.\<close>

theorem tool_is_handler:
  assumes "prepare (cli_command c) = Ended (Inr (a, deadline, out))"
    and "transport_of N c = Inr t" and "3 * lag \<le> deadline"
    and "understood decode encode N a (fst (handle D a (manager_of s)))"
    and "run_cli (link_net D decode encode lag N) P shown_as c s = (r, s')"
  shows "manager_of s' = snd (handle D a (manager_of s)) \<and>
    (case fst (handle D a (manager_of s)) of
       FailedResponse m \<Rightarrow>
         exit_status r = Some (Some (error_line (Bail m)), 1) \<and> printed s' = printed s
     | OkResponse p \<Rightarrow>
         (case render_payload P shown_as out p of
            Inl e \<Rightarrow> exit_status r = Some (Some (error_line e), 1) \<and> printed s' = printed s
          | Inr ls \<Rightarrow> exit_status r = Some (None, 0) \<and> printed s' = printed s @ ls))"
  using run_cli_link [OF assms]
  by (auto simp: ending_of_def exit_status_def split: response.split sum.split)

text \<open>A link to the sample daemon, and the command that unplugs its keyboard.\<close>

definition plain_net :: "disk link net" where
  "plain_net =
     \<lparr>connect = (\<lambda>_ n. (Inr (), n)), send_line = (\<lambda>_ n. (Inr (), n)), next_line = (\<lambda>n. (None, n)),
      clock = (\<lambda>n. 0), sleep = (\<lambda>d n. n), cancelled = (\<lambda>d n. n),
      encode_action = (\<lambda>_. Inr ''usb_detach''),
      decode_response = (\<lambda>_. Inr (OkResponse EmptyPayload)),
      decode_value = (\<lambda>_. Inr JNull), local_cid = None\<rparr>"

definition unplug_command :: cli where
  "unplug_command =
     \<lparr>cli_transport = Some UnixKind, cli_path = ''dm.sock'', cli_host = [], cli_net_port = 0,
      cli_cid = 0,
      cli_command = UsbCommand (DetachUsb
        \<lparr>arg_device_node = None, arg_bus = None, arg_port = None, arg_vid = Some ''a'',
         arg_pid = Some ''b'', arg_tag = None\<rparr>)\<rparr>"

definition plain_printer :: printer where
  "plain_printer = \<lparr>usb_details = (\<lambda>_. JNull), pci_details = (\<lambda>_. JNull), json_text = (\<lambda>_. [])\<rparr>"

definition linked_shell :: "disk link shell" where
  "linked_shell =
     \<lparr>world = \<lparr>link_conn = open_connection kept_start, lines_read = 0, ticks = 0\<rparr>, printed = []\<rparr>"

definition unplug_run :: "unit ending \<times> disk link shell" where
  "unplug_run = run_cli (link_net keeping_dm (\<lambda>_. Inr unplug_request) (\<lambda>_. Inr ''ok'') second plain_net)
     plain_printer (\<lambda>_. []) unplug_command linked_shell"

lemma unplug_prepared:
  "prepare (cli_command unplug_command) = Ended (Inr (unplug_request, 10 * second, None))"
  "transport_of plain_net unplug_command = Inr (UnixTransportAt ''dm.sock'')"
  "3 * second \<le> 10 * second" "manager_of linked_shell = kept_start"
  "understood (\<lambda>_. Inr unplug_request) (\<lambda>_. Inr ''ok'') plain_net unplug_request
     (fst (handle keeping_dm unplug_request (manager_of linked_shell)))"
  "run_cli (link_net keeping_dm (\<lambda>_. Inr unplug_request) (\<lambda>_. Inr ''ok'') second plain_net)
     plain_printer (\<lambda>_. []) unplug_command linked_shell = (fst unplug_run, snd unplug_run)"
  by (simp_all add: unplug_command_def usb_request_def usb_selector_of_args_def with_deadline_def
      unplug_request_def [symmetric] transport_of_def linked_shell_def open_connection_def
      understood_def plain_net_def kept_answered(1) unplug_run_def)

lemma tool_is_handler_witness:
  "exit_status (fst unplug_run) = Some (None, 0) \<and> manager_of (snd unplug_run) = kept_unplugged"
  using tool_is_handler [OF unplug_prepared(1-3,5,6)]
  by (simp add: unplug_prepared(4) kept_answered(1) render_payload_def)

section \<open>A detach the tool reports as done is done for good\<close>

text \<open>C14: \<open>ghaf-device usb detach\<close> with exit status 0 is a lasting promise. When the tool exits with
  0 on a detach, over a link as above, of a daemon in any reachable state that keeps its state,
  then a daemon started again on a kernel on which the state file reads as it was left still has
  every device the request was about marked as detached, and no resume attaches one.\<close>

theorem tool_detach_lasts:
  assumes "reachable D (manager_of s)" and "separate D" and "persistency (cfg D)"
    and "prepare (cli_command c) = Ended (Inr (a, deadline, None))"
    and "transport_of N c = Inr t" and "3 * lag \<le> deadline"
    and "understood decode encode N a (fst (handle D a (manager_of s)))"
    and "run_cli (link_net D decode encode lag N) P shown_as c s = (r, s')"
    and "exit_status r = Some (None, 0)" and "i \<in> set (detach_names D a (kern (manager_of s)))"
    and "reads_back D fs (manager_of s') k" and "with_roots D k = Inr u"
  shows "disconnected (persistent u) i \<and>
    (\<forall>w d rule. usb_persistent_id d = i \<longrightarrow> resume_one_usb D w d rule u = (Inr (), u)) \<and>
    (\<forall>w d rule. pci_persistent_id d = i \<longrightarrow> resume_one_pci D w d rule u = (Inr (), u))"
proof -
  note link = run_cli_link [OF assms(4-8)]
  obtain p where "fst (handle D a (manager_of s)) = OkResponse p"
    using link assms(9) by (auto simp: ending_of_def exit_status_def split: response.splits)
  then have "handle D a (manager_of s) = (OkResponse p, manager_of s')"
    using link by (simp add: prod_eq_iff)
  from detach_survives_restart [OF assms(1-3) this assms(10-12)] show ?thesis by blast
qed

lemma tool_detach_lasts_witness:
  "disconnected (persistent (initial_manager keeping_dm kept_disk)) ''usb-a:b:None'' \<and>
   manager_of (snd unplug_run) = kept_unplugged"
proof -
  have m: "manager_of (snd unplug_run) = kept_unplugged" and e: "exit_status (fst unplug_run) = Some (None, 0)"
    using run_cli_link [OF unplug_prepared(1-3,5,6)]
    by (auto simp: unplug_prepared(4) kept_answered(1) render_payload_def ending_of_def exit_status_def)
  have r: "reachable keeping_dm (manager_of linked_shell)"
    using kept_reachable(1) by (simp add: unplug_prepared(4))
  have p: "persistency (cfg keeping_dm)" by code_simp
  have "''usb-a:b:None'' \<in> set (detach_names keeping_dm unplug_request (kern kept_start))" by code_simp
  then have i: "''usb-a:b:None'' \<in> set (detach_names keeping_dm unplug_request (kern (manager_of linked_shell)))"
    by (simp add: unplug_prepared(4))
  have b: "reads_back keeping_dm (\<lambda>_. None) (manager_of (snd unplug_run)) kept_disk"
    using kept_reads_back by (simp add: m)
  have u: "with_roots keeping_dm kept_disk = Inr (initial_manager keeping_dm kept_disk)"
    by (simp add: with_roots_def kept_valid)
  show ?thesis
    using tool_detach_lasts [OF r kept_separate p unplug_prepared(1-3,5,6) e i b u] m by blast
qed

end
