(* ===== verification/Spec2Isabelle.thy ===== *)
theory Spec2Isabelle
  imports System_Properties Usb_Properties Gate_Properties Pci_Properties Config_Properties
    Device_Properties Launch_Properties Pass_Properties Store_Properties Server_Properties
    Daemon_Properties Cli_Properties Reopen_Properties Wakeup_Properties Stage_Properties
    Observe_Properties Durability_Properties Link_Properties
begin

text \<open>
  Ghaf device manager: a model of the daemon that routes USB and PCI devices of a host to its
  Crosvm virtual machines, with the theorems that make it correct.

  \<^bold>\<open>The program.\<close> \<open>src/device.rs\<close> scans the sysfs; \<open>src/config.rs\<close> holds the
  rules and says which rule routes a device; \<open>src/manager.rs\<close> attaches and detaches devices,
  settles host drivers and reconciles; it talks to the VMs through \<open>src/crosvm.rs\<close>, to the
  sysfs through \<open>src/usb_gate.rs\<close> and keeps its memory in \<open>src/state.rs\<close>;
  \<open>src/api.rs\<close> and \<open>src/protocol.rs\<close> serve its clients, of which \<open>src/client.rs\<close> and
  the command line tool \<open>src/bin/ghaf-device.rs\<close> are one;
  \<open>src/bin/ghaf-device-manager.rs\<close> is the daemon that runs it all.

  \<^bold>\<open>Theories and code.\<close>
  \<^item> \<open>Prelude\<close>, \<open>Text\<close>: errors with their context chain, operations that pass a
    state and may fail (\<open>'s => error + 'a x 's\<close>), a Hoare calculus for them
    (\<open>triple\<close>, \<open>keeps\<close>), and Rust's string, number and path functions.
  \<^item> \<open>Json\<close>, \<open>Types\<close>: the JSON values rules are written in, the structs and enums.
  \<^item> \<open>Host\<close>: the environment (kernel, Crosvm, modprobe, udev, regular expressions) as a
    record of arbitrary functions over a kernel state, and the history of effects the program
    has had. \<open>emits\<close>, \<open>emits_at\<close> and \<open>issues\<close> are calculi for what an operation
    adds to the history. The locale \<open>verified_change\<close> is the contract of a hotplug: success
    means the environment was seen to agree; \<open>Crosvm\<close> and \<open>Manager_Pci\<close> interpret it.
  \<^item> \<open>Crosvm\<close> (\<open>src/crosvm.rs\<close>), \<open>Usb_Gate\<close> (\<open>src/usb_gate.rs\<close>),
    \<open>State_Store\<close> (\<open>src/state.rs\<close>; locale \<open>marks\<close>), \<open>Device_Scan\<close>
    (\<open>src/device.rs\<close>), \<open>Config\<close> (\<open>src/config.rs\<close>; locale
    \<open>selector_family\<close>): one definition per function, the stages of long ones apart.
  \<^item> \<open>Manager_Base\<close>, \<open>Manager_Usb\<close>, \<open>Manager_Gate\<close>, \<open>Manager_Pci\<close>,
    \<open>Manager_Reconcile\<close>, \<open>Vmm_Args\<close>: \<open>src/manager.rs\<close>. The record
    \<open>manager\<close> is the mutable part of \<open>DeviceManager\<close>; \<open>dm\<close> its constant part.
    \<open>Pass_Stages\<close> cuts a pass where other operations may come in between; its locale
    \<open>stagewise\<close> is the contract of an invariant over the stages.
  \<^item> \<open>Protocol\<close>, \<open>Api\<close>, \<open>Server\<close>: \<open>src/protocol.rs\<close>, \<open>src/api.rs\<close>. The accept
    loops are the step relation \<open>server_step\<close> over permits, loops and connections; a connection
    is a fold over the events its loop can be woken by.
  \<^item> \<open>Daemon\<close>: \<open>src/bin/ghaf-device-manager.rs\<close>, start-up, passes and requests as a sequence of
    occurrences, the ways to stop, and the way out. \<open>Wakeup\<close>: where the passes of that sequence
    come from, the task that watches udev, the bounded channel and the reconcile loop as the step
    relation \<open>loop_step\<close>; \<open>loop_within_daemon\<close> maps its states to sequences of occurrences.
  \<^item> \<open>Client\<close>, \<open>Unicode\<close>, \<open>Cli\<close>: \<open>src/client.rs\<close> and \<open>src/bin/ghaf-device.rs\<close>. The
    sockets and the clock are functions over a state of the outside world; printed text is a
    list of code points. A loop that may never end is a \<open>partial_function\<close> into \<open>option\<close>.
  \<^item> \<open>Usb_Effects\<close>, \<open>System_Effects\<close>, \<open>Usb_Memory\<close>, \<open>Manager_Memory\<close>:
    what each operation may issue and what it does to the memory; \<open>Usb_Claim\<close>: which answers of
    Crosvm stand behind the port that an attach records; \<open>System\<close>: the transition
    system of requests, passes, gate operations, environment changes and restarts.
  \<^item> \<open>Scan_Types\<close>: what form the scans give to the devices they report; \<open>Durability\<close>: the state
    file as the successful effects of a history leave it, with the two contracts of an operation
    over it, \<open>intact\<close> (whole at every effect) and \<open>acked\<close> (nothing acknowledged is unsaved);
    \<open>Link\<close>: the client's \<open>net\<close> instantiated by a link to a connection of the server.
  \<^item> \<open>Sample_Host\<close>: a small concrete host on which the witnesses run.
  \<^item> \<open>System_Properties\<close>, \<open>Usb_Properties\<close>, \<open>Gate_Properties\<close>,
    \<open>Pci_Properties\<close>, \<open>Config_Properties\<close>, \<open>Device_Properties\<close>, \<open>Launch_Properties\<close>,
    \<open>Pass_Properties\<close>, \<open>Store_Properties\<close>, \<open>Server_Properties\<close>, \<open>Daemon_Properties\<close>,
    \<open>Cli_Properties\<close>, \<open>Reopen_Properties\<close>, \<open>Wakeup_Properties\<close>, \<open>Stage_Properties\<close>, \<open>Observe_Properties\<close>,
    \<open>Durability_Properties\<close>, \<open>Link_Properties\<close>: the properties, each with a witness where it
    has hypotheses. Those of
    \<open>System_Properties\<close> hold in every reachable state of the transition system, which
    \<open>Daemon_Properties\<close> shows to contain every run of the daemon; \<open>Stage_Properties\<close> says what a
    pass in stages does with and without a request in between; those of
    \<open>Pass_Properties\<close> say what a reconcile pass achieves and what can stop it, those of
    \<open>Observe_Properties\<close> what subscribers hear of it, those of \<open>Reopen_Properties\<close> what the
    way out of the daemon gives back to the host, told by the kernel states it passes through. \<open>Link_Properties\<close> puts the parts together:
    the tool, the wire, the server, the manager, the state file and a restart.

  \<^bold>\<open>Choices.\<close> The manager's attach, detach, suspend and resume operations run under its
  operation lock, one after another; each is one function here, and the environment may change
  the kernel state at every effect inside it and between two of them. A reconcile pass takes
  that lock only for its resume stages: it is the sequence of stages \<open>advance\<close>, and requests come
  between them; \<open>reconcile\<close> is their run without a break (the lemma \<open>pass_is_its_stages\<close>), which the
  properties of \<open>Pass_Properties\<close> and \<open>Observe_Properties\<close> are about; \<open>before_pci\<close>, \<open>pci_turn\<close> and
  \<open>before_usb\<close> name the states in which such a pass comes to the PCI functions, to each of them and
  to the USB devices. One scan reads one kernel state. A stage itself is one
  step, and so is a request: a stage of \<open>observe\<close> inside a request that waits for Crosvm is left
  out. \<open>modprobe\<close> and \<open>modinfo\<close> answer a question the same way every time, so that the cache of
  module paths changes nothing (\<open>module_cache_transparent\<close>) and is not threaded through the
  matching. A hash map is a function or a list whose order stands for the
  map's. The retry loops have the program's own bound of six attempts (\<open>max_attempts\<close>), which is
  their recursion argument, so nothing is cut short; every other loop is structural or has a
  termination proof. Whitespace and case are ASCII. The message of an operating-system error is
  the name of the call. The history is a ghost: no operation reads it.

  When the daemon stops, the pass under way is aborted: the stages it has not begun do not happen.
  An abort inside a stage, with the drop of the authorization guard it entails, is left out; what
  an abort or a crash leaves in the state file is covered, since \<open>state_file_never_torn\<close> speaks of
  every beginning of a history. The effects of setting up the API's listeners (directory, stale
  socket, bind, owner and mode) are modelled apart, as \<open>start_serving\<close> of \<open>Server\<close>, and are not in
  the history of a run of the daemon: \<open>daemon_main\<close> and \<open>System\<close> do not contain them, and a failure
  of the set-up comes in as the way the wait ends. What is said of every effect of a run is said
  of the others; the state file is then thought not to be the socket's path.

  \<^bold>\<open>Not modelled.\<close> Serde's encoding of messages, configuration and state, the framing of lines and
  the broadcast channel, the parsing of the command line (parameters and inputs); the task
  scheduler, whose interleavings are the sequences of events and steps; the delivery of udev
  events and signals; logging; and the crate root, which only declares the modules.
\<close>

end
